(* ===== verification/Go_Prelude.thy ===== *)
theory Go_Prelude
  imports Main "HOL-Library.Word" "HOL-Library.Char_ord" "HOL-Library.List_Lexorder"
begin

text \<open>
  Shared vocabulary of the development.  Go strings and byte slices are byte
  sequences, and a HOL \<open>char\<close> is exactly a byte, so both are \<open>string\<close> here.  Go's
  \<open>int\<close>, \<open>int64\<close> and \<open>time.Duration\<close> are 64-bit two's complement values, modelled
  as \<open>64 word\<close> and read through \<open>sint\<close>; addition and multiplication wrap.
  The theory holds the error values of the program (a wrapping chain that
  \<open>errors.Is\<close> and \<open>errors.As\<close> search), the pieces of the packages strings, bytes,
  strconv and net/http that the sources call, and the generic lemmas about them.
  Library code whose tables or algorithms are not modelled (Unicode case folding,
  SHA-256, HMAC, RSA, URL, date and JSON parsing) is a field of the record
  \<open>golib\<close>, an argument of every definition that uses it.
\<close>

section \<open>Basic types\<close>

type_synonym go_int = "64 word"
type_synonym duration = "64 word"

text \<open>The proof collections of the library: facts about byte classes, facts about the
  header map, and the definitions of plain constants.\<close>

named_theorems byte_simps
named_theorems header_simps
named_theorems const_defs

abbreviation byte :: "char \<Rightarrow> nat" where
  "byte c \<equiv> of_char c"

abbreviation nano_second :: int where "nano_second \<equiv> 1000000000"

section \<open>Error values\<close>

text \<open>
  Package-level error variables are compared by identity: one constructor each.
  \<open>Errorf\<close> is \<open>errors.New\<close> or \<open>fmt.Errorf\<close> without \<open>%w\<close>: its format and arguments.
  \<open>Wrapf\<close> is \<open>fmt.Errorf\<close> with one \<open>%w\<close> verb: the wrapped error stays in the chain,
  while an error printed with \<open>%v\<close> (\<open>ArgE\<close>) does not.  \<open>RetryAfterError\<close> is the
  struct of \<open>retry_after.go\<close>, whose \<open>Err\<close> may be nil, and \<open>Joined\<close> is \<open>errors.Join\<close>.
\<close>

datatype sentinel =
    ErrUnrecoverable | ErrJobDetached | ErrBlocked | ErrUnknownKey | ErrHelp
  | ErrNotExist | DeadlineExceeded | ErrServerClosed

datatype go_error =
    Sentinel sentinel
  | Errorf string "fmt_arg list"
  | Wrapf string "fmt_arg list" go_error
  | RetryAfterError duration "go_error option"
  | Joined "go_error list"
and fmt_arg = ArgS string | ArgI int | ArgE go_error | ArgL "string list"

type_synonym 'a result = "go_error + 'a"

fun errors_is :: "go_error \<Rightarrow> sentinel \<Rightarrow> bool" where
  "errors_is (Sentinel s) t = (s = t)"
| "errors_is (Errorf f as) t = False"
| "errors_is (Wrapf f as e) t = errors_is e t"
| "errors_is (RetryAfterError d None) t = False"
| "errors_is (RetryAfterError d (Some e)) t = errors_is e t"
| "errors_is (Joined es) t = list_ex (\<lambda>e. errors_is e t) es"

text \<open>\<open>errors.As\<close> with a \<open>*RetryAfterError\<close> target: the first one met in a depth-first,
  left-to-right walk of the tree.  Only its \<open>After\<close> field is ever read.\<close>

fun errors_as_retry :: "go_error \<Rightarrow> duration option"
  and errors_as_retry_list :: "go_error list \<Rightarrow> duration option" where
  "errors_as_retry (Sentinel s) = None"
| "errors_as_retry (Errorf f as) = None"
| "errors_as_retry (Wrapf f as e) = errors_as_retry e"
| "errors_as_retry (RetryAfterError d e) = Some d"
| "errors_as_retry (Joined es) = errors_as_retry_list es"
| "errors_as_retry_list [] = None"
| "errors_as_retry_list (e # es) =
     (case errors_as_retry e of Some d \<Rightarrow> Some d | None \<Rightarrow> errors_as_retry_list es)"

text \<open>\<open>errors.Join\<close> drops nil errors and returns nil when none is left.\<close>

definition errors_join :: "go_error option list \<Rightarrow> go_error option" where
  "errors_join es =
     (let kept = List.map_filter id es in if kept = [] then None else Some (Joined kept))"

section \<open>Bytes and strings\<close>

definition is_ascii :: "string \<Rightarrow> bool" where
  "is_ascii s \<longleftrightarrow> list_all (\<lambda>c. byte c < 128) s"

definition lower_byte :: "char \<Rightarrow> char" where
  "lower_byte c = (if 65 \<le> byte c \<and> byte c \<le> 90 then char_of (byte c + 32) else c)"

definition upper_byte :: "char \<Rightarrow> char" where
  "upper_byte c = (if 97 \<le> byte c \<and> byte c \<le> 122 then char_of (byte c - 32) else c)"

fun has_prefix :: "string \<Rightarrow> string \<Rightarrow> bool" where
  "has_prefix s [] = True"
| "has_prefix [] (p # ps) = False"
| "has_prefix (c # cs) (p # ps) = (c = p \<and> has_prefix cs ps)"

fun str_contains :: "string \<Rightarrow> string \<Rightarrow> bool" where
  "str_contains [] p = (p = [])"
| "str_contains (c # cs) p = (has_prefix (c # cs) p \<or> str_contains cs p)"

fun str_join :: "string list \<Rightarrow> string \<Rightarrow> string" where
  "str_join [] sep = []"
| "str_join [x] sep = x"
| "str_join (x # y # xs) sep = x @ sep @ str_join (y # xs) sep"

text \<open>\<open>strings.Cut\<close> at a one-byte separator.\<close>

fun str_cut :: "string \<Rightarrow> char \<Rightarrow> (string \<times> string) option" where
  "str_cut [] sep = None"
| "str_cut (c # cs) sep =
     (if c = sep then Some ([], cs)
      else map_option (\<lambda>(a, b). (c # a, b)) (str_cut cs sep))"

text \<open>
  \<open>unicode.IsSpace\<close> on UTF-8: the ASCII spaces and the multi-byte encodings of the
  other White\_Space code points.  \<open>space_width s\<close> is the width of the space that \<open>s\<close>
  starts with, 0 when it starts with something else.
\<close>

definition ascii_space :: "char \<Rightarrow> bool" where
  "ascii_space c \<longleftrightarrow> byte c \<in> {9, 10, 11, 12, 13, 32}"

definition wide_spaces :: "nat list list" where
  "wide_spaces =
    [[194, 133], [194, 160], [225, 154, 128]]
    @ map (\<lambda>k. [226, 128, k]) [128, 129, 130, 131, 132, 133, 134, 135, 136, 137, 138, 168, 169, 175]
    @ [[226, 129, 159], [227, 128, 128]]"

definition space_width :: "string \<Rightarrow> nat" where
  "space_width s =
     (case s of [] \<Rightarrow> 0
      | c # _ \<Rightarrow>
        if byte c < 128 then (if ascii_space c then 1 else 0)
        else (case find (\<lambda>w. map byte (take (length w) s) = w) wide_spaces of
                None \<Rightarrow> 0 | Some w \<Rightarrow> length w))"

definition space_suffix_width :: "string \<Rightarrow> nat" where
  "space_suffix_width s =
     (case rev s of [] \<Rightarrow> 0
      | c # _ \<Rightarrow>
        if byte c < 128 then (if ascii_space c then 1 else 0)
        else (case find (\<lambda>w. map byte (drop (length s - length w) s) = w) wide_spaces of
                None \<Rightarrow> 0 | Some w \<Rightarrow> length w))"

function trim_left :: "string \<Rightarrow> string" where
  "trim_left s =
     (if space_width s = 0 \<or> s = [] then s else trim_left (drop (space_width s) s))"
  by pat_completeness auto
termination
  by (relation "measure length") auto

function trim_right :: "string \<Rightarrow> string" where
  "trim_right s =
     (if space_suffix_width s = 0 \<or> s = [] then s
      else trim_right (take (length s - space_suffix_width s) s))"
  by pat_completeness auto
termination
  by (relation "measure length") auto

declare trim_left.simps [simp del] trim_right.simps [simp del]

definition trim_space :: "string \<Rightarrow> string" where
  "trim_space s = trim_right (trim_left s)"

text \<open>\<open>strings.Trim\<close> with a one-byte cutset.\<close>

definition str_trim :: "string \<Rightarrow> char \<Rightarrow> string" where
  "str_trim s c = rev (dropWhile (\<lambda>x. x = c) (rev (dropWhile (\<lambda>x. x = c) s)))"

text \<open>\<open>strings.Fields\<close>: the maximal runs of bytes that are not part of a space.\<close>

function str_fields :: "string \<Rightarrow> string \<Rightarrow> string list" where
  "str_fields cur s =
     (if s = [] then (if cur = [] then [] else [rev cur])
      else if space_width s = 0 then str_fields (hd s # cur) (tl s)
      else (if cur = [] then [] else [rev cur]) @ str_fields [] (drop (space_width s) s))"
  by pat_completeness auto
termination
  by (relation "measure (\<lambda>(cur, s). length s)") auto

declare str_fields.simps [simp del]

definition strings_fields :: "string \<Rightarrow> string list" where
  "strings_fields s = str_fields [] s"

section \<open>Library functions that are parameters\<close>

text \<open>A parsed URL, as far as the sources read it, and an RSA private key, which the
  sources only hand to the crypto package.\<close>

record url =
  u_scheme :: string
  u_host :: string
  u_request_uri :: string

datatype rsa_key = RSAKey string

datatype pem_key = PemRSA rsa_key | PemOther string

record golib =
  uni_lower :: "string \<Rightarrow> string"
  uni_fold :: "string \<Rightarrow> string \<Rightarrow> bool"
  sha256 :: "string \<Rightarrow> string"
  hmac_sha256 :: "string \<Rightarrow> string \<Rightarrow> string"
  url_parse :: "string \<Rightarrow> url result"
  parse_time :: "string \<Rightarrow> int option"
  json_valid :: "string \<Rightarrow> bool"
  json_error_field :: "string \<Rightarrow> string option"

text \<open>\<open>strings.ToLower\<close> and \<open>strings.EqualFold\<close> work bytewise on ASCII and through the
  Unicode tables otherwise.\<close>

definition to_lower :: "golib \<Rightarrow> string \<Rightarrow> string" where
  "to_lower L s = (if is_ascii s then map lower_byte s else uni_lower L s)"

definition equal_fold :: "golib \<Rightarrow> string \<Rightarrow> string \<Rightarrow> bool" where
  "equal_fold L s t =
     (if is_ascii s \<and> is_ascii t then map lower_byte s = map lower_byte t
      else uni_fold L s t)"

section \<open>Bytes: facts\<close>

lemma byte_less_256 [simp]: "byte c < 256"
proof -
  have "(of_char c :: nat) = (of_char c :: nat) mod 256" by simp
  then show ?thesis using mod_less_divisor [of 256 "of_char c :: nat"] by simp
qed

lemma byte_eq_iff: "byte c = byte d \<longleftrightarrow> c = d"
  by simp

lemma byte_char_of [simp]: "byte (char_of (n :: nat)) = n mod 256"
  by simp

section \<open>Results\<close>

lemma not_isl_Inr: "\<not> isl x \<Longrightarrow> \<exists>y. x = Inr y"
  by (cases x) simp_all

end
