(* ===== verification/Config.thy ===== *)
theory Config
  imports Go_Prelude
begin

text \<open>
  Model of \<open>config.go\<close>: the configuration records, the expansion of \<open>${VAR}\<close> references
  on the parsed YAML tree, the built-in defaults, validation, and the derived pool size.
  A Go pointer field that tells absent from zero is an \<open>option\<close>.  The YAML library is the
  record \<open>yaml_lib\<close>, an argument; the tree it parses into is the datatype \<open>yaml_node\<close>.
\<close>

section \<open>Records\<close>

record redis_config =
  rc_addrs :: "string list"
  rc_db :: go_int
  rc_username :: string
  rc_password :: string
  rc_master_name :: string
  rc_pool_size :: go_int

record log_config =
  lc_level :: string
  lc_format :: string

record server_config =
  sc_addr :: string
  sc_metrics :: bool

record queue_defaults =
  qd_concurrency :: go_int
  qd_lock_duration :: duration
  qd_stalled_interval :: duration
  qd_max_stalled_count :: go_int
  qd_job_metrics :: go_int

record rate_limit =
  rl_max :: go_int
  rl_duration :: duration

datatype yaml_node =
    ScalarNode (y_tag: string) (y_style: nat) (y_value: string)
  | MappingNode string "yaml_node list"
  | SequenceNode string "yaml_node list"
  | DocumentNode "yaml_node list"
  | AliasNode string

record executor_config =
  ec_type :: string
  ec_node :: "yaml_node option"

record queue_config =
  qc_name :: string
  qc_concurrency :: "go_int option"
  qc_lock_duration :: "duration option"
  qc_stalled_interval :: "duration option"
  qc_max_stalled_count :: "go_int option"
  qc_job_metrics :: "go_int option"
  qc_rate_limit :: "rate_limit option"
  qc_executor :: "executor_config option"

record config =
  cf_redis :: redis_config
  cf_key_prefix :: string
  cf_log :: log_config
  cf_server :: server_config
  cf_shutdown_timeout :: duration
  cf_defaults :: queue_defaults
  cf_queues :: "queue_config list"

definition zero_config :: config where
  "zero_config =
     \<lparr>cf_redis = \<lparr>rc_addrs = [], rc_db = 0, rc_username = [], rc_password = [],
                  rc_master_name = [], rc_pool_size = 0\<rparr>,
      cf_key_prefix = [], cf_log = \<lparr>lc_level = [], lc_format = []\<rparr>,
      cf_server = \<lparr>sc_addr = [], sc_metrics = False\<rparr>, cf_shutdown_timeout = 0,
      cf_defaults = \<lparr>qd_concurrency = 0, qd_lock_duration = 0, qd_stalled_interval = 0,
                     qd_max_stalled_count = 0, qd_job_metrics = 0\<rparr>,
      cf_queues = []\<rparr>"

text \<open>The YAML library: parsing into a tree (\<open>None\<close> for an empty document), serialising a
  tree, and decoding into the configuration with unknown fields rejected.\<close>

record yaml_lib =
  y_unmarshal :: "string \<Rightarrow> yaml_node option result"
  y_marshal :: "yaml_node \<Rightarrow> string result"
  y_decode_config :: "string \<Rightarrow> config result"

section \<open>Executor blocks and durations\<close>

fun node_value :: "yaml_node \<Rightarrow> string" where
  "node_value (ScalarNode t st v) = v"
| "node_value _ = []"

definition ExecutorConfig_UnmarshalYAML ::
    "(yaml_node \<Rightarrow> string result) \<Rightarrow> yaml_node \<Rightarrow> executor_config result" where
  "ExecutorConfig_UnmarshalYAML decode_type n =
     (case decode_type n of
        Inl e \<Rightarrow> Inl e
      | Inr t \<Rightarrow> Inr \<lparr>ec_type = t, ec_node = Some n\<rparr>)"

fun strip_type_key :: "yaml_node list \<Rightarrow> yaml_node list" where
  "strip_type_key (k # v # rest) =
     (if node_value k = ''type'' then strip_type_key rest else k # v # strip_type_key rest)"
| "strip_type_key _ = []"

text \<open>What a strict decoder reports: an empty stream, an error, or a value.\<close>

datatype 'v decoded = DecEOF | DecErr go_error | DecOk 'v

definition DecodeStrict ::
    "yaml_lib \<Rightarrow> (string \<Rightarrow> 'v decoded) \<Rightarrow> 'v \<Rightarrow> executor_config \<Rightarrow> 'v result" where
  "DecodeStrict Y decode zero e =
     (case ec_node e of
        None \<Rightarrow> Inr zero
      | Some n \<Rightarrow>
          (let n' = (case n of MappingNode t content \<Rightarrow> MappingNode t (strip_type_key content)
                             | _ \<Rightarrow> n)
           in case y_marshal Y n' of
                Inl err \<Rightarrow> Inl err
              | Inr raw \<Rightarrow>
                  (case decode raw of DecEOF \<Rightarrow> Inr zero | DecErr err \<Rightarrow> Inl err | DecOk v \<Rightarrow> Inr v)))"

definition Duration_UnmarshalYAML ::
    "(yaml_node \<Rightarrow> string result) \<Rightarrow> (string \<Rightarrow> duration result) \<Rightarrow> yaml_node \<Rightarrow> duration result" where
  "Duration_UnmarshalYAML decode_string parse_duration n =
     (case decode_string n of
        Inl e \<Rightarrow> Inl (Wrapf (''duration must be a string such as '' @ [CHR 0x22] @ ''30s'' @ [CHR 0x22] @ '': %w'') [] e)
      | Inr s \<Rightarrow>
          (case parse_duration s of
             Inl e \<Rightarrow> Inl (Wrapf ''invalid duration %q: %w'' [ArgS s] e)
           | Inr d \<Rightarrow> Inr d))"

section \<open>Environment references\<close>

definition name_start :: "char \<Rightarrow> bool" where
  "name_start c \<longleftrightarrow> 65 \<le> byte c \<and> byte c \<le> 90 \<or> 97 \<le> byte c \<and> byte c \<le> 122 \<or> byte c = 95"

definition name_char :: "char \<Rightarrow> bool" where
  "name_char c \<longleftrightarrow> name_start c \<or> 48 \<le> byte c \<and> byte c \<le> 57"

text \<open>\<open>envPattern\<close> anchored at the start of the text: the variable name, the default when
  the reference has one, and the text after the match.\<close>

definition match_env :: "string \<Rightarrow> (string \<times> string option \<times> string) option" where
  "match_env s =
     (case s of
        d # b # c # rest \<Rightarrow>
          if d = CHR ''$'' \<and> b = CHR ''{'' \<and> name_start c then
            (let name = takeWhile name_char (c # rest);
                 after = dropWhile name_char (c # rest)
             in case after of
                  x # ys \<Rightarrow>
                    if x = CHR ''}'' then Some (name, None, ys)
                    else if x = CHR '':'' then
                      (case ys of
                         y # zs \<Rightarrow>
                           if y = CHR ''-'' then
                             (case dropWhile (\<lambda>ch. ch \<noteq> CHR ''}'') zs of
                                _ # tail \<Rightarrow> Some (name, Some (takeWhile (\<lambda>ch. ch \<noteq> CHR ''}'') zs), tail)
                              | [] \<Rightarrow> None)
                           else None
                       | [] \<Rightarrow> None)
                    else None
                | [] \<Rightarrow> None)
          else None
      | _ \<Rightarrow> None)"

lemma match_env_shorter: "match_env s = Some (n, d, rest) \<Longrightarrow> length rest < length s"
proof -
  have len: "length (dropWhile P xs) \<le> length xs" for P and xs :: string
    by (rule length_dropWhile_le)
  assume "match_env s = Some (n, d, rest)"
  then obtain c cs x ys where s: "s = CHR ''$'' # CHR ''{'' # c # cs"
    and dw: "dropWhile name_char (c # cs) = x # ys"
    and r: "rest = ys \<or> (\<exists>y zs w. ys = y # zs \<and> dropWhile (\<lambda>ch. ch \<noteq> CHR ''}'') zs = w # rest)"
    by (fastforce simp: match_env_def Let_def split: list.splits if_splits)
  have "length (x # ys) \<le> length (c # cs)" using len [of name_char "c # cs"] dw by simp
  moreover have "length rest \<le> length ys"
  proof -
    { fix y zs w assume ys: "ys = y # zs" and d: "dropWhile (\<lambda>ch. ch \<noteq> CHR ''}'') zs = w # rest"
      have "length (w # rest) \<le> length zs"
        using len [of "\<lambda>ch. ch \<noteq> CHR ''}''" zs] d by simp
      then have "length rest \<le> length ys" using ys by simp }
    then show ?thesis using r by blast
  qed
  ultimately show ?thesis using s by simp
qed

text \<open>The replacement of every match in one value, and the names that were undefined and
  had no default, in order.\<close>

function expand_string :: "(string \<rightharpoonup> string) \<Rightarrow> string \<Rightarrow> string \<times> string list" where
  "expand_string env [] = ([], [])"
| "expand_string env (c # cs) =
     (case match_env (c # cs) of
        None \<Rightarrow> (case expand_string env cs of (r, ms) \<Rightarrow> (c # r, ms))
      | Some (name, dflt, rest) \<Rightarrow>
          (case expand_string env rest of (r, ms) \<Rightarrow>
             (case env name of
                Some v \<Rightarrow> (v @ r, ms)
              | None \<Rightarrow> (case dflt of Some d \<Rightarrow> (d @ r, ms) | None \<Rightarrow> (r, name # ms)))))"
  by pat_completeness auto
termination
  by (relation "measure (\<lambda>(env, s). length s)") (auto dest: match_env_shorter)

fun has_ref :: "string \<Rightarrow> bool" where
  "has_ref [] = False"
| "has_ref (c # cs) = (match_env (c # cs) \<noteq> None \<or> has_ref cs)"

text \<open>\<open>walkScalars\<close> with the closure of \<open>expandEnvNode\<close>: scalars in document order, keys
  included; an alias has no content of its own.\<close>

fun walk_expand :: "(string \<rightharpoonup> string) \<Rightarrow> yaml_node \<Rightarrow> yaml_node \<times> string list"
  and walk_expand_list :: "(string \<rightharpoonup> string) \<Rightarrow> yaml_node list \<Rightarrow> yaml_node list \<times> string list" where
  "walk_expand env (ScalarNode t st v) =
     (if \<not> has_ref v then (ScalarNode t st v, [])
      else case expand_string env v of (v', ms) \<Rightarrow> (ScalarNode [] st v', ms))"
| "walk_expand env (MappingNode t ns) =
     (case walk_expand_list env ns of (ns', ms) \<Rightarrow> (MappingNode t ns', ms))"
| "walk_expand env (SequenceNode t ns) =
     (case walk_expand_list env ns of (ns', ms) \<Rightarrow> (SequenceNode t ns', ms))"
| "walk_expand env (DocumentNode ns) =
     (case walk_expand_list env ns of (ns', ms) \<Rightarrow> (DocumentNode ns', ms))"
| "walk_expand env (AliasNode a) = (AliasNode a, [])"
| "walk_expand_list env [] = ([], [])"
| "walk_expand_list env (n # ns) =
     (case walk_expand env n of (n', ms) \<Rightarrow>
        (case walk_expand_list env ns of (ns', ms') \<Rightarrow> (n' # ns', ms @ ms')))"

text \<open>\<open>dedupe\<close> writes its result over its own argument (\<open>out := in[:0]\<close>) while it ranges
  over it: one array, a read position \<open>i\<close> and a write position \<open>j\<close>.\<close>

function dedupe_loop :: "string list \<Rightarrow> nat \<Rightarrow> nat \<Rightarrow> string list \<Rightarrow> string list" where
  "dedupe_loop arr i j seen =
     (if length arr \<le> i then take j arr
      else let s = arr ! i
           in if s \<in> set seen then dedupe_loop arr (i + 1) j seen
              else dedupe_loop (arr[j := s]) (i + 1) (j + 1) (s # seen))"
  by pat_completeness auto
termination
  by (relation "measure (\<lambda>(arr, i, j, seen). length arr - i)") (auto simp: Let_def)

declare dedupe_loop.simps [simp del]

definition dedupe :: "string list \<Rightarrow> string list" where
  "dedupe xs = dedupe_loop xs 0 0 []"

definition expandEnvNode :: "(string \<rightharpoonup> string) \<Rightarrow> yaml_node \<Rightarrow> yaml_node result" where
  "expandEnvNode env n =
     (case walk_expand env n of (n', missing) \<Rightarrow>
        if missing \<noteq> []
        then Inl (Errorf ''mkqd: undefined environment variable(s) in config: %s''
                    [ArgS (str_join (dedupe missing) '', '')])
        else Inr n')"

section \<open>Defaults and validation\<close>

definition defaultConcurrency :: go_int where "defaultConcurrency = 16"
definition defaultLockDuration :: duration where "defaultLockDuration = 30000000000"
definition defaultStalledInterval :: duration where "defaultStalledInterval = 30000000000"
definition defaultMaxStalled :: go_int where "defaultMaxStalled = 1"
definition defaultShutdownTimeout :: duration where "defaultShutdownTimeout = 30000000000"
definition defaultServerAddr :: string where "defaultServerAddr = ''127.0.0.1:9464''"
definition serverOff :: string where "serverOff = ''off''"
definition poolHeadroom :: go_int where "poolHeadroom = 8"

definition default_log :: "log_config \<Rightarrow> log_config" where
  "default_log l = l\<lparr>lc_level := (if lc_level l = [] then ''info'' else lc_level l),
                     lc_format := (if lc_format l = [] then ''text'' else lc_format l)\<rparr>"

definition default_queue_defaults :: "queue_defaults \<Rightarrow> queue_defaults" where
  "default_queue_defaults d =
     d\<lparr>qd_concurrency := (if qd_concurrency d = 0 then defaultConcurrency else qd_concurrency d),
       qd_lock_duration := (if qd_lock_duration d = 0 then defaultLockDuration else qd_lock_duration d),
       qd_stalled_interval :=
         (if qd_stalled_interval d = 0 then defaultStalledInterval else qd_stalled_interval d),
       qd_max_stalled_count :=
         (if qd_max_stalled_count d = 0 then defaultMaxStalled else qd_max_stalled_count d)\<rparr>"

definition applyDefaults :: "config \<Rightarrow> config" where
  "applyDefaults c =
     c\<lparr>cf_log := default_log (cf_log c),
       cf_server := (if sc_addr (cf_server c) = [] then (cf_server c)\<lparr>sc_addr := defaultServerAddr\<rparr>
                     else cf_server c),
       cf_shutdown_timeout :=
         (if cf_shutdown_timeout c = 0 then defaultShutdownTimeout else cf_shutdown_timeout c),
       cf_defaults := default_queue_defaults (cf_defaults c)\<rparr>"

text \<open>The checks of one iteration of the queue loop after the name checks, and the loop:
  the index, the names seen so far, the remaining queues.\<close>

definition validate_queue :: "queue_config \<Rightarrow> go_error option" where
  "validate_queue q =
     (case qc_concurrency q of
        Some n \<Rightarrow> if sint n < 1 then Some (Errorf ''mkqd: queues[%s].concurrency must be >= 1, got %d''
                      [ArgS (qc_name q), ArgI (sint n)]) else None
      | None \<Rightarrow> None)"

definition validate_rate_limit :: "queue_config \<Rightarrow> go_error option" where
  "validate_rate_limit q =
     (case qc_rate_limit q of
        Some r \<Rightarrow>
          if sint (rl_max r) < 1
          then Some (Errorf ''mkqd: queues[%s].rate_limit.max must be >= 1'' [ArgS (qc_name q)])
          else if sint (rl_duration r) \<le> 0
          then Some (Errorf ''mkqd: queues[%s].rate_limit.duration must be > 0'' [ArgS (qc_name q)])
          else None
      | None \<Rightarrow> None)"

definition validate_executor :: "queue_config \<Rightarrow> go_error option" where
  "validate_executor q =
     (case qc_executor q of
        Some e \<Rightarrow> if ec_type e = []
                  then Some (Errorf ''mkqd: queues[%s].executor.type is required'' [ArgS (qc_name q)])
                  else None
      | None \<Rightarrow> None)"

fun validate_queues :: "nat \<Rightarrow> string list \<Rightarrow> queue_config list \<Rightarrow> go_error option" where
  "validate_queues i seen [] = None"
| "validate_queues i seen (q # qs) =
     (if qc_name q = [] then Some (Errorf ''mkqd: queues[%d].name is required'' [ArgI (int i)])
      else if qc_name q \<in> set seen
      then Some (Errorf ''mkqd: queue %q is declared more than once'' [ArgS (qc_name q)])
      else case validate_queue q of Some e \<Rightarrow> Some e | None \<Rightarrow>
           (case validate_rate_limit q of Some e \<Rightarrow> Some e | None \<Rightarrow>
            (case validate_executor q of Some e \<Rightarrow> Some e | None \<Rightarrow>
               validate_queues (i + 1) (qc_name q # seen) qs)))"

definition Validate :: "config \<Rightarrow> go_error option" where
  "Validate c =
     (if rc_addrs (cf_redis c) = [] then Some (Errorf ''mkqd: redis.addrs is required'' [])
      else if lc_level (cf_log c) \<notin> set [''debug'', ''info'', ''warn'', ''error'']
      then Some (Errorf ''mkqd: log.level %q is not one of debug, info, warn, error'' [ArgS (lc_level (cf_log c))])
      else if lc_format (cf_log c) \<notin> set [''text'', ''json'']
      then Some (Errorf ''mkqd: log.format %q is not one of text, json'' [ArgS (lc_format (cf_log c))])
      else if sint (qd_concurrency (cf_defaults c)) < 1
      then Some (Errorf ''mkqd: defaults.concurrency must be >= 1, got %d''
                   [ArgI (sint (qd_concurrency (cf_defaults c)))])
      else if sint (cf_shutdown_timeout c) < 0
      then Some (Errorf ''mkqd: shutdown_timeout must not be negative'' [])
      else validate_queues 0 [] (cf_queues c))"

section \<open>Loading\<close>

definition parse_config_tree :: "yaml_lib \<Rightarrow> (string \<rightharpoonup> string) \<Rightarrow> yaml_node option \<Rightarrow> config result" where
  "parse_config_tree Y env root =
     (case root of
        None \<Rightarrow> Inr zero_config
      | Some n \<Rightarrow>
          (case expandEnvNode env n of
             Inl e \<Rightarrow> Inl e
           | Inr n' \<Rightarrow>
               (case y_marshal Y n' of
                  Inl e \<Rightarrow> Inl (Wrapf ''mkqd: parse config: %w'' [] e)
                | Inr expanded \<Rightarrow>
                    (case y_decode_config Y expanded of
                       Inl e \<Rightarrow> Inl (Wrapf ''mkqd: parse config: %w'' [] e)
                     | Inr cfg \<Rightarrow> Inr cfg))))"

definition ParseConfig :: "yaml_lib \<Rightarrow> (string \<rightharpoonup> string) \<Rightarrow> string \<Rightarrow> config result" where
  "ParseConfig Y env raw =
     (case y_unmarshal Y raw of
        Inl e \<Rightarrow> Inl (Wrapf ''mkqd: parse config: %w'' [] e)
      | Inr root \<Rightarrow>
          (case parse_config_tree Y env root of
             Inl e \<Rightarrow> Inl e
           | Inr cfg \<Rightarrow>
               (let cfg' = applyDefaults cfg
                in case Validate cfg' of Some e \<Rightarrow> Inl e | None \<Rightarrow> Inr cfg')))"

definition LoadConfig ::
    "yaml_lib \<Rightarrow> (string \<rightharpoonup> string) \<Rightarrow> (string \<Rightarrow> string result) \<Rightarrow> string \<Rightarrow> config result" where
  "LoadConfig Y env read_file path =
     (case read_file path of
        Inl e \<Rightarrow> Inl (Wrapf ''mkqd: read config: %w'' [] e)
      | Inr raw \<Rightarrow> ParseConfig Y env raw)"

section \<open>Derived settings\<close>

definition serverEnabled :: "config \<Rightarrow> bool" where
  "serverEnabled c \<longleftrightarrow> sc_addr (cf_server c) \<noteq> [] \<and> sc_addr (cf_server c) \<noteq> serverOff"

definition queue_concurrency :: "config \<Rightarrow> queue_config \<Rightarrow> go_int" where
  "queue_concurrency c q =
     (case qc_concurrency q of Some n \<Rightarrow> n | None \<Rightarrow> qd_concurrency (cf_defaults c))"

definition declaredConcurrency :: "config \<Rightarrow> go_int" where
  "declaredConcurrency c =
     (let total = foldl (\<lambda>t q. t + queue_concurrency c q) 0 (cf_queues c)
      in if total = 0 then qd_concurrency (cf_defaults c) else total)"

definition autoPoolSize :: "config \<Rightarrow> go_int" where
  "autoPoolSize c = declaredConcurrency c + poolHeadroom"

definition queueConfig :: "config \<Rightarrow> string \<Rightarrow> queue_config option" where
  "queueConfig c name = find (\<lambda>q. qc_name q = name) (cf_queues c)"

section \<open>In-place deduplication\<close>

text \<open>The reference: keep an element the first time it is met.\<close>

fun first_occ :: "'a list \<Rightarrow> 'a list \<Rightarrow> 'a list" where
  "first_occ seen [] = []"
| "first_occ seen (x # xs) =
     (if x \<in> set seen then first_occ seen xs else x # first_occ (x # seen) xs)"

lemma first_occ_filter: "first_occ seen xs = filter (\<lambda>x. x \<notin> set seen) (rev (remdups (rev xs)))"
proof (induction xs arbitrary: seen)
  case (Cons x xs)
  have r: "remdups (ys @ [x]) = filter (\<lambda>y. y \<noteq> x) (remdups ys) @ [x]" for ys
    by (induction ys) auto
  show ?case by (simp add: Cons.IH r filter_filter rev_filter [symmetric] conj_commute)
      (auto intro: filter_cong)
qed simp

lemma first_occ_set: "set (first_occ seen xs) = set xs - set seen"
  by (auto simp: first_occ_filter)

lemma first_occ_distinct: "distinct (first_occ seen xs)"
  by (simp add: first_occ_filter)

lemma dedupe_loop_first_occ:
  assumes "j \<le> i" and "i \<le> length arr"
  shows "dedupe_loop arr i j seen = take j arr @ first_occ seen (drop i arr)"
  using assms
proof (induction arr i j seen rule: dedupe_loop.induct)
  case (1 arr i j seen)
  show ?case
  proof (cases "length arr \<le> i")
    case True
    then show ?thesis using 1 by (subst dedupe_loop.simps) simp
  next
    case False
    then have d: "drop i arr = arr ! i # drop (Suc i) arr" by (simp add: Cons_nth_drop_Suc)
    show ?thesis
    proof (cases "arr ! i \<in> set seen")
      case True
      then show ?thesis using 1 False d by (subst dedupe_loop.simps) (simp add: Let_def)
    next
      case new: False
      have "take (Suc j) (arr[j := arr ! i]) = take j arr @ [arr ! i]"
        using 1 False by (simp add: take_Suc_conv_app_nth)
      then show ?thesis
        using 1 False new d by (subst dedupe_loop.simps) (simp add: Let_def)
    qed
  qed
qed

lemma dedupe_first_occ: "dedupe xs = first_occ [] xs"
  by (simp add: dedupe_def dedupe_loop_first_occ)

text \<open>The contract of a deduplication, and what a client may rely on.\<close>

locale deduper =
  fixes uniq :: "'a list \<Rightarrow> 'a list"
  assumes keeps_first: "uniq xs = first_occ [] xs"
begin

lemma uniq_distinct: "distinct (uniq xs)"
  by (simp add: keeps_first first_occ_distinct)

lemma uniq_set: "set (uniq xs) = set xs"
  by (simp add: keeps_first first_occ_set)

lemma uniq_of_distinct: "distinct xs \<Longrightarrow> uniq xs = xs"
  by (simp add: keeps_first first_occ_filter remdups_id_iff_distinct [THEN iffD2])

lemma uniq_append_seen: "set ys \<subseteq> set xs \<Longrightarrow> uniq (xs @ ys) = uniq xs"
proof -
  have "first_occ seen (xs @ ys) = first_occ seen xs" if "set ys \<subseteq> set xs \<union> set seen" for seen
    using that
  proof (induction xs arbitrary: seen)
    case Nil
    then show ?case by (induction ys) auto
  next
    case (Cons x xs)
    then show ?case by auto
  qed
  then show "set ys \<subseteq> set xs \<Longrightarrow> uniq (xs @ ys) = uniq xs" by (simp add: keeps_first)
qed

end

interpretation env_names: deduper dedupe
  by unfold_locales (rule dedupe_first_occ)

text \<open>
  \<open>dedupe\<close>, which overwrites the slice it is ranging over, returns what a deduplication
  into a fresh slice returns: the elements in the order of their first occurrence.  The
  aliasing of \<open>in[:0]\<close> loses nothing.
\<close>
theorem dedupe_in_place_exact: "dedupe xs = rev (remdups (rev xs))"
  by (simp add: dedupe_first_occ first_occ_filter)

section \<open>Environment expansion\<close>

text \<open>A value as its author wrote it: literal text and references.\<close>

datatype template = Lit char | is_Ref: Ref string "string option"

definition valid_name :: "string \<Rightarrow> bool" where
  "valid_name n \<longleftrightarrow> (case n of [] \<Rightarrow> False | c # cs \<Rightarrow> name_start c \<and> list_all name_char cs)"

fun template_ok :: "template \<Rightarrow> bool" where
  "template_ok (Lit c) = True"
| "template_ok (Ref n d) = (valid_name n \<and> (case d of None \<Rightarrow> True | Some v \<Rightarrow> CHR ''}'' \<notin> set v))"

fun render :: "template \<Rightarrow> string" where
  "render (Lit c) = [c]"
| "render (Ref n None) = ''${'' @ n @ ''}''"
| "render (Ref n (Some d)) = ''${'' @ n @ '':-'' @ d @ ''}''"

fun subst_template :: "(string \<rightharpoonup> string) \<Rightarrow> template \<Rightarrow> string" where
  "subst_template env (Lit c) = [c]"
| "subst_template env (Ref n d) =
     (case env n of Some v \<Rightarrow> v | None \<Rightarrow> (case d of Some v \<Rightarrow> v | None \<Rightarrow> []))"

fun template_missing :: "(string \<rightharpoonup> string) \<Rightarrow> template \<Rightarrow> string list" where
  "template_missing env (Lit c) = []"
| "template_missing env (Ref n d) = (if env n = None \<and> d = None then [n] else [])"

lemma name_char_punct [simp]: "\<not> name_char CHR ''}''" "\<not> name_char CHR '':''"
  by (simp_all add: name_char_def name_start_def)

lemma match_env_nil [simp]: "match_env [] = None"
  by (simp add: match_env_def)

lemma match_env_not_dollar [simp]: "c \<noteq> CHR ''$'' \<Longrightarrow> match_env (c # cs) = None"
  by (simp add: match_env_def split: list.splits)

lemma valid_name_chars: "valid_name n \<Longrightarrow> list_all name_char n"
  by (auto simp: valid_name_def name_char_def split: list.splits)

lemma takeWhile_name:
  assumes "list_all name_char n" and "\<not> name_char x"
  shows "takeWhile name_char (n @ x # r) = n" "dropWhile name_char (n @ x # r) = x # r"
  using assms by (induction n) auto

lemma takeWhile_default:
  assumes "CHR ''}'' \<notin> set d"
  shows "takeWhile (\<lambda>ch. ch \<noteq> CHR ''}'') (d @ CHR ''}'' # r) = d"
    "dropWhile (\<lambda>ch. ch \<noteq> CHR ''}'') (d @ CHR ''}'' # r) = CHR ''}'' # r"
  using assms by (induction d) auto

lemma match_env_render:
  assumes "template_ok (Ref n d)"
  shows "match_env (render (Ref n d) @ r) = Some (n, d, r)"
proof -
  obtain c cs where n: "n = c # cs" "name_start c"
    using assms by (cases n) (auto simp: valid_name_def)
  have nm: "list_all name_char (c # cs)" using assms n valid_name_chars [of n] by simp
  note tw = takeWhile_name [OF nm]
  show ?thesis
  proof (cases d)
    case None
    then show ?thesis using n tw [of "CHR ''}''" r] by (simp add: match_env_def)
  next
    case (Some v)
    then have "CHR ''}'' \<notin> set v" using assms by simp
    then show ?thesis
      using n Some tw [of "CHR '':''" "CHR ''-'' # v @ CHR ''}'' # r"]
        takeWhile_default [of v r] by (simp add: match_env_def)
  qed
qed

lemma match_env_Some:
  assumes "match_env s = Some (n, d, r)"
  shows "template_ok (Ref n d) \<and> s = render (Ref n d) @ r"
proof -
  obtain c rest where s: "s = CHR ''$'' # CHR ''{'' # c # rest" and c: "name_start c"
    using assms by (auto simp: match_env_def split: list.splits if_splits)
  define name after where "name = takeWhile name_char (c # rest)" and "after = dropWhile name_char (c # rest)"
  have split: "c # rest = name @ after" by (simp add: name_def after_def)
  have "valid_name name" using c
    by (auto simp: name_def valid_name_def name_char_def list_all_iff dest: set_takeWhileD)
  have closed: "zs = takeWhile (\<lambda>ch. ch \<noteq> CHR ''}'') zs @ CHR ''}'' # tail"
    if "dropWhile (\<lambda>ch. ch \<noteq> CHR ''}'') zs = w # tail" for zs :: string and w tail
  proof -
    have "w = CHR ''}''" using that hd_dropWhile [of "\<lambda>ch. ch \<noteq> CHR ''}''" zs] by force
    then show ?thesis using that takeWhile_dropWhile_id [of "\<lambda>ch. ch \<noteq> CHR ''}''" zs] by simp
  qed
  have "match_env s = (case after of
      x # ys \<Rightarrow> if x = CHR ''}'' then Some (name, None, ys)
        else if x = CHR '':'' then (case ys of y # zs \<Rightarrow>
            if y = CHR ''-'' then (case dropWhile (\<lambda>ch. ch \<noteq> CHR ''}'') zs of
                 _ # tail \<Rightarrow> Some (name, Some (takeWhile (\<lambda>ch. ch \<noteq> CHR ''}'') zs), tail) | [] \<Rightarrow> None)
            else None | [] \<Rightarrow> None)
        else None
    | [] \<Rightarrow> None)"
    using c unfolding s match_env_def by (simp only: list.case Let_def name_def after_def simp_thms if_True)
  with assms consider ys where "after = CHR ''}'' # ys" "n = name" "d = None" "r = ys"
    | zs w where "after = CHR '':'' # CHR ''-'' # zs" "dropWhile (\<lambda>ch. ch \<noteq> CHR ''}'') zs = w # r"
        "n = name" "d = Some (takeWhile (\<lambda>ch. ch \<noteq> CHR ''}'') zs)"
    by (auto split: list.splits if_splits)
  then show ?thesis
  proof cases
    case 1
    then show ?thesis using split \<open>valid_name name\<close> by (simp add: s)
  next
    case 2
    then show ?thesis using split \<open>valid_name name\<close> closed [OF 2(2)]
      by (auto simp: s dest: set_takeWhileD)
  qed
qed

lemma match_env_iff: "match_env s = Some (n, d, r) \<longleftrightarrow> template_ok (Ref n d) \<and> s = render (Ref n d) @ r"
  using match_env_Some match_env_render by blast

text \<open>How a value reads from left to right: a reference where one can be read, else a character
  that stands for itself.\<close>

inductive reads :: "string \<Rightarrow> template list \<Rightarrow> bool" where
  reads_end: "reads [] []"
| reads_ref: "template_ok (Ref n d) \<Longrightarrow> reads r ts \<Longrightarrow> reads (render (Ref n d) @ r) (Ref n d # ts)"
| reads_char: "\<nexists>n d r. template_ok (Ref n d) \<and> c # s = render (Ref n d) @ r \<Longrightarrow> reads s ts \<Longrightarrow>
    reads (c # s) (Lit c # ts)"

lemma reads_nil: "reads [] ts \<longleftrightarrow> ts = []"
proof -
  have "render (Ref n d) \<noteq> []" for n d by (cases d) simp_all
  then show ?thesis by (subst reads.simps) auto
qed

lemma reads_None:
  assumes "match_env (c # cs) = None"
  shows "reads (c # cs) ts \<longleftrightarrow> (\<exists>ts'. ts = Lit c # ts' \<and> reads cs ts')"
proof -
  have "\<nexists>n d r. template_ok (Ref n d) \<and> c # cs = render (Ref n d) @ r"
    using match_env_iff [of "c # cs"] assms by (metis option.distinct(1))
  then show ?thesis by (subst reads.simps) (auto simp del: template_ok.simps)
qed

lemma reads_Some:
  assumes "match_env s = Some (n, d, r)"
  shows "reads s ts \<longleftrightarrow> (\<exists>ts'. ts = Ref n d # ts' \<and> reads r ts')"
proof
  assume "reads s ts"
  then show "\<exists>ts'. ts = Ref n d # ts' \<and> reads r ts'"
  proof cases
    case (reads_ref n' d' r' ts')
    then have "match_env s = Some (n', d', r')" by (simp only: match_env_render)
    then show ?thesis using assms reads_ref by simp
  next
    case (reads_char c s' ts')
    then show ?thesis using match_env_Some [OF assms] by (metis (no_types))
  qed (use assms in simp)
qed (use match_env_Some [OF assms] reads_ref in blast)

text \<open>Every value reads in exactly one way, and it expands part by part.\<close>

lemma expand_string_reads:
  "\<exists>ts. (\<forall>ts'. reads s ts' \<longleftrightarrow> ts' = ts) \<and> has_ref s = list_ex is_Ref ts \<and>
     expand_string env s = (concat (map (subst_template env) ts), concat (map (template_missing env) ts))"
proof (induction env s rule: expand_string.induct)
  case (1 env)
  show ?case by (intro exI [of _ "[]"]) (simp add: reads_nil)
next
  case (2 env c cs)
  show ?case
  proof (cases "match_env (c # cs)")
    case None
    then obtain ts where "\<forall>ts'. reads cs ts' \<longleftrightarrow> ts' = ts" "has_ref cs = list_ex is_Ref ts"
      "expand_string env cs = (concat (map (subst_template env) ts), concat (map (template_missing env) ts))"
      using 2(1) by blast
    then show ?thesis using None by (intro exI [of _ "Lit c # ts"]) (simp add: reads_None)
  next
    case (Some m)
    obtain n d r where m: "m = (n, d, r)" by (cases m)
    then obtain ts where "\<forall>ts'. reads r ts' \<longleftrightarrow> ts' = ts"
      "expand_string env r = (concat (map (subst_template env) ts), concat (map (template_missing env) ts))"
      using 2(2) Some by blast
    then show ?thesis using Some m
      by (intro exI [of _ "Ref n d # ts"]) (simp add: reads_Some split: option.splits)
  qed
qed

text \<open>The scalar values of a tree in document order.\<close>

fun scalars :: "yaml_node \<Rightarrow> string list" and scalars_list :: "yaml_node list \<Rightarrow> string list" where
  "scalars (ScalarNode t st v) = [v]"
| "scalars (MappingNode t ns) = scalars_list ns"
| "scalars (SequenceNode t ns) = scalars_list ns"
| "scalars (DocumentNode ns) = scalars_list ns"
| "scalars (AliasNode a) = []"
| "scalars_list [] = []"
| "scalars_list (n # ns) = scalars n @ scalars_list ns"

text \<open>The tree after substitution, given how each value reads: a value that holds a reference loses
  its tag, so that YAML resolves its type again.\<close>

primrec substituted :: "(string \<rightharpoonup> string) \<Rightarrow> (string \<Rightarrow> template list) \<Rightarrow> yaml_node \<Rightarrow> yaml_node" where
  "substituted env reading (ScalarNode t st v) =
     ScalarNode (if list_ex is_Ref (reading v) then [] else t) st (concat (map (subst_template env) (reading v)))"
| "substituted env reading (MappingNode t ns) = MappingNode t (map (substituted env reading) ns)"
| "substituted env reading (SequenceNode t ns) = SequenceNode t (map (substituted env reading) ns)"
| "substituted env reading (DocumentNode ns) = DocumentNode (map (substituted env reading) ns)"
| "substituted env reading (AliasNode a) = AliasNode a"

definition undefined_names :: "(string \<rightharpoonup> string) \<Rightarrow> (string \<Rightarrow> template list) \<Rightarrow> string list \<Rightarrow> string list" where
  "undefined_names env reading vs = concat (map (\<lambda>v. concat (map (template_missing env) (reading v))) vs)"

lemma undefined_names_simps [simp]:
  "undefined_names env reading [] = []"
  "undefined_names env reading (v # vs) =
     concat (map (template_missing env) (reading v)) @ undefined_names env reading vs"
  "undefined_names env reading (vs @ ws) = undefined_names env reading vs @ undefined_names env reading ws"
  by (simp_all add: undefined_names_def)

lemma expand_string_no_ref: "\<not> has_ref v \<Longrightarrow> expand_string env v = (v, [])"
  by (induction v) (auto split: option.splits)

lemma walk_expand_exact:
  assumes "\<And>v. has_ref v = list_ex is_Ref (reading v) \<and>
     expand_string env v = (concat (map (subst_template env) (reading v)), concat (map (template_missing env) (reading v)))"
  shows "walk_expand env n = (substituted env reading n, undefined_names env reading (scalars n))"
    "walk_expand_list env ns = (map (substituted env reading) ns, undefined_names env reading (scalars_list ns))"
proof -
  have v: "concat (map (subst_template env) (reading v)) = v" "concat (map (template_missing env) (reading v)) = []"
    if "\<not> has_ref v" for v
    using expand_string_no_ref [OF that, of env] assms [of v] by simp_all
  have "walk_expand e n = (substituted env reading n, undefined_names env reading (scalars n))"
    "walk_expand_list e ns = (map (substituted env reading) ns, undefined_names env reading (scalars_list ns))"
    if "e = env" for e n ns
    using that
    by (induction e n and e ns rule: walk_expand_walk_expand_list.induct) (auto simp: assms v split: prod.splits)
  then show "walk_expand env n = (substituted env reading n, undefined_names env reading (scalars n))"
    "walk_expand_list env ns = (map (substituted env reading) ns, undefined_names env reading (scalars_list ns))"
    by blast+
qed

text \<open>
  C28: Expanding the document either substitutes every scalar in place, keeping the shape and the
  quoting style of the tree, or fails naming each undefined variable without a default exactly
  once, in the order of first appearance.  Every scalar reads in exactly one way as references
  \<open>${NAME}\<close> and \<open>${NAME:-default}\<close>, taken from the left, and characters that stand for themselves;
  a set variable gives its value, even an empty one, and an unset one its default, even an
  empty one; a value that is put in is not scanned again.  So no undefined variable becomes an
  empty string in a tree that is returned.
\<close>
theorem expand_env_node_exact:
  "\<exists>reading. (\<forall>v ts. reads v ts \<longleftrightarrow> ts = reading v) \<and>
     expandEnvNode env n =
       (let missing = undefined_names env reading (scalars n)
        in if missing = [] then Inr (substituted env reading n)
           else Inl (Errorf ''mkqd: undefined environment variable(s) in config: %s''
                       [ArgS (str_join (rev (remdups (rev missing))) '', '')]))"
proof -
  obtain reading where r: "\<And>v. (\<forall>ts. reads v ts \<longleftrightarrow> ts = reading v) \<and> has_ref v = list_ex is_Ref (reading v) \<and>
     expand_string env v = (concat (map (subst_template env) (reading v)), concat (map (template_missing env) (reading v)))"
    using expand_string_reads [of _ env] by metis
  then have "walk_expand env n = (substituted env reading n, undefined_names env reading (scalars n))"
    by (intro walk_expand_exact) blast
  then show ?thesis using r
    by (intro exI [of _ reading]) (simp add: expandEnvNode_def dedupe_first_occ first_occ_filter Let_def)
qed

section \<open>Validation\<close>

definition queue_ok :: "queue_config \<Rightarrow> bool" where
  "queue_ok q \<longleftrightarrow>
     qc_name q \<noteq> [] \<and>
     (case qc_concurrency q of None \<Rightarrow> True | Some n \<Rightarrow> 1 \<le> sint n) \<and>
     (case qc_rate_limit q of None \<Rightarrow> True | Some r \<Rightarrow> 1 \<le> sint (rl_max r) \<and> 0 < sint (rl_duration r)) \<and>
     (case qc_executor q of None \<Rightarrow> True | Some e \<Rightarrow> ec_type e \<noteq> [])"

definition config_ok :: "config \<Rightarrow> bool" where
  "config_ok c \<longleftrightarrow>
     rc_addrs (cf_redis c) \<noteq> [] \<and>
     lc_level (cf_log c) \<in> {''debug'', ''info'', ''warn'', ''error''} \<and>
     lc_format (cf_log c) \<in> {''text'', ''json''} \<and>
     1 \<le> sint (qd_concurrency (cf_defaults c)) \<and> 0 \<le> sint (cf_shutdown_timeout c) \<and>
     distinct (map qc_name (cf_queues c)) \<and> list_all queue_ok (cf_queues c)"

lemma validate_queue_ok:
  "queue_ok q \<longleftrightarrow> qc_name q \<noteq> [] \<and> validate_queue q = None \<and> validate_rate_limit q = None \<and>
     validate_executor q = None"
  by (auto simp: queue_ok_def validate_queue_def validate_rate_limit_def validate_executor_def
      split: option.splits if_splits)

lemma validate_queues_none_iff:
  "validate_queues i seen qs = None \<longleftrightarrow>
     list_all queue_ok qs \<and> distinct (map qc_name qs) \<and> set (map qc_name qs) \<inter> set seen = {}"
proof (induction qs arbitrary: i seen)
  case (Cons q qs)
  then show ?case by (auto simp: validate_queue_ok split: option.splits)
qed simp

lemma Validate_none_iff: "Validate c = None \<longleftrightarrow> config_ok c"
  by (auto simp: Validate_def config_ok_def validate_queues_none_iff)

text \<open>
  C12: \<open>Validate\<close> accepts exactly the well-formed configurations: at least one Redis address,
  a known log level and format, positive default concurrency, a shutdown timeout that is not
  negative, non-empty and pairwise distinct queue names, and positive overrides, rate limits
  and named executors in every queue.
\<close>
theorem validate_exact:
  "Validate c = None \<longleftrightarrow>
     rc_addrs (cf_redis c) \<noteq> [] \<and>
     lc_level (cf_log c) \<in> {''debug'', ''info'', ''warn'', ''error''} \<and>
     lc_format (cf_log c) \<in> {''text'', ''json''} \<and>
     1 \<le> sint (qd_concurrency (cf_defaults c)) \<and> 0 \<le> sint (cf_shutdown_timeout c) \<and>
     distinct (map qc_name (cf_queues c)) \<and> list_all queue_ok (cf_queues c)"
  using Validate_none_iff [of c] by (simp only: config_ok_def)

lemmas default_consts = defaultConcurrency_def defaultLockDuration_def defaultStalledInterval_def
  defaultMaxStalled_def defaultShutdownTimeout_def defaultServerAddr_def

lemma applyDefaults_idem: "applyDefaults (applyDefaults c) = applyDefaults c"
  by (simp add: applyDefaults_def default_log_def default_queue_defaults_def default_consts)

lemma applyDefaults_nonzero:
  "qd_lock_duration (cf_defaults (applyDefaults c)) \<noteq> 0 \<and>
   qd_stalled_interval (cf_defaults (applyDefaults c)) \<noteq> 0 \<and>
   qd_max_stalled_count (cf_defaults (applyDefaults c)) \<noteq> 0 \<and>
   cf_shutdown_timeout (applyDefaults c) \<noteq> 0 \<and> sc_addr (cf_server (applyDefaults c)) \<noteq> []"
  by (simp add: applyDefaults_def default_queue_defaults_def default_consts)

lemma ParseConfig_ok:
  "ParseConfig Y env raw = Inr c \<Longrightarrow> config_ok c \<and> applyDefaults c = c"
  by (auto simp: ParseConfig_def Let_def applyDefaults_idem Validate_none_iff [symmetric]
      split: sum.splits option.splits)

text \<open>
  C13: A configuration that loads is valid and complete: it passes validation, applying
  the defaults again changes nothing, no tuning default and no shutdown timeout is left zero,
  the listener has an address, and the shutdown timeout is strictly positive.
\<close>
theorem load_config_sound:
  assumes "LoadConfig Y env read_file path = Inr c"
  shows "config_ok c \<and> applyDefaults c = c \<and> 0 < sint (cf_shutdown_timeout c) \<and>
    1 \<le> sint (qd_concurrency (cf_defaults c)) \<and> qd_lock_duration (cf_defaults c) \<noteq> 0 \<and>
    qd_stalled_interval (cf_defaults c) \<noteq> 0 \<and> qd_max_stalled_count (cf_defaults c) \<noteq> 0 \<and>
    sc_addr (cf_server c) \<noteq> []"
proof -
  obtain raw where "ParseConfig Y env raw = Inr c"
    using assms by (auto simp: LoadConfig_def split: sum.splits)
  note ok = ParseConfig_ok [OF this]
  note nz = applyDefaults_nonzero [of c, unfolded conjunct2 [OF ok]]
  have "0 \<le> sint (cf_shutdown_timeout c)" "1 \<le> sint (qd_concurrency (cf_defaults c))"
    using ok by (simp_all add: config_ok_def)
  moreover have "sint (cf_shutdown_timeout c) \<noteq> 0" using nz by (simp add: signed_eq_0_iff)
  ultimately show ?thesis using ok nz by simp
qed

definition sample_redis :: config where
  "sample_redis = zero_config\<lparr>cf_redis := (cf_redis zero_config)\<lparr>rc_addrs := [''localhost:6379'']\<rparr>\<rparr>"

definition sample_yaml :: yaml_lib where
  "sample_yaml = \<lparr>y_unmarshal = (\<lambda>_. Inr (Some (DocumentNode []))),
                  y_marshal = (\<lambda>_. Inr []), y_decode_config = (\<lambda>_. Inr sample_redis)\<rparr>"

theorem load_config_sound_witness:
  "config_ok (applyDefaults sample_redis) \<and>
   sc_addr (cf_server (applyDefaults sample_redis)) = ''127.0.0.1:9464''"
proof -
  have "LoadConfig sample_yaml Map.empty (\<lambda>_. Inr []) ''mkqd.yaml'' = Inr (applyDefaults sample_redis)"
    by code_simp
  from load_config_sound [OF this] show ?thesis
    by (simp add: applyDefaults_def sample_redis_def zero_config_def default_consts)
qed

section \<open>Pool size\<close>

definition declared_total :: "config \<Rightarrow> int" where
  "declared_total c = sum_list (map (\<lambda>q. sint (queue_concurrency c q)) (cf_queues c))"

lemma config_ok_concurrency:
  "config_ok c \<Longrightarrow> q \<in> set (cf_queues c) \<Longrightarrow> 1 \<le> sint (queue_concurrency c q)"
  by (auto simp: config_ok_def queue_ok_def list_all_iff queue_concurrency_def split: option.splits)

lemma sint_add_small:
  fixes a b :: go_int
  assumes "- (2 ^ 63) \<le> sint a + sint b" and "sint a + sint b < 2 ^ 63"
  shows "sint (a + b) = sint a + sint b"
  using assms by (simp add: sint_word_ariths signed_take_bit_int_eq_self)

lemma foldl_sum_exact:
  assumes "\<And>q. q \<in> set qs \<Longrightarrow> 1 \<le> sint (f q)" and "0 \<le> sint t"
    and "sint t + sum_list (map (\<lambda>q. sint (f q)) qs) < 2 ^ 63"
  shows "sint (foldl (\<lambda>t q. t + f q) (t :: go_int) qs) = sint t + sum_list (map (\<lambda>q. sint (f q)) qs)"
  using assms
proof (induction qs arbitrary: t)
  case (Cons q qs)
  have nn: "0 \<le> sum_list (map (\<lambda>q. sint (f q)) qs)"
    using Cons.prems(1) by (intro sum_list_nonneg) fastforce
  have "1 \<le> sint (f q)" using Cons.prems(1) by simp
  then have "sint (t + f q) = sint t + sint (f q)"
    using Cons.prems(2,3) nn by (intro sint_add_small) auto
  then show ?case using Cons.IH [of "t + f q"] Cons.prems \<open>1 \<le> sint (f q)\<close> by simp
qed simp

text \<open>
  For a valid configuration with queues whose concurrency does not overflow an \<open>int\<close>,
  the automatic pool size is the sum of the effective concurrencies plus eight, so it is
  at least eight above the concurrency of every single queue: the margin the queue library
  asks for.
\<close>
theorem auto_pool_size_exact:
  assumes "Validate c = None" and "cf_queues c \<noteq> []" and "declared_total c < 2 ^ 63 - 8"
  shows "sint (autoPoolSize c) = declared_total c + 8 \<and>
         list_all (\<lambda>q. sint (queue_concurrency c q) + 8 \<le> sint (autoPoolSize c)) (cf_queues c)"
proof -
  let ?f = "queue_concurrency c"
  have ok: "config_ok c" using assms(1) by (simp add: Validate_none_iff)
  have ge: "1 \<le> sint (?f q)" if "q \<in> set (cf_queues c)" for q
    using config_ok_concurrency [OF ok that] .
  have le: "sint (?f q) \<le> declared_total c" if "q \<in> set (cf_queues c)" for q
    unfolding declared_total_def using that ge
    by (intro member_le_sum_list) (fastforce simp: image_iff)+
  have tot: "sint (foldl (\<lambda>t q. t + ?f q) 0 (cf_queues c)) = declared_total c"
    using foldl_sum_exact [of "cf_queues c" ?f 0] ge assms(3) by (simp add: declared_total_def)
  have pos: "1 \<le> declared_total c"
    using le [of "hd (cf_queues c)"] ge [of "hd (cf_queues c)"] assms(2) by fastforce
  then have "declaredConcurrency c = foldl (\<lambda>t q. t + ?f q) 0 (cf_queues c)"
    using tot by (auto simp: declaredConcurrency_def Let_def)
  then have "sint (autoPoolSize c) = declared_total c + 8"
    using tot pos assms(3) sint_add_small [of "declaredConcurrency c" 8]
    by (simp add: autoPoolSize_def poolHeadroom_def)
  then show ?thesis using le by (simp add: list_all_iff)
qed

definition sample_queue :: "string \<Rightarrow> go_int option \<Rightarrow> queue_config" where
  "sample_queue n k = \<lparr>qc_name = n, qc_concurrency = k, qc_lock_duration = None,
     qc_stalled_interval = None, qc_max_stalled_count = None, qc_job_metrics = None,
     qc_rate_limit = None, qc_executor = None\<rparr>"

theorem auto_pool_size_exact_witness:
  "sint (autoPoolSize ((applyDefaults sample_redis)
     \<lparr>cf_queues := [sample_queue ''a'' (Some 4), sample_queue ''b'' None]\<rparr>)) = 28"
proof -
  let ?c = "(applyDefaults sample_redis)\<lparr>cf_queues := [sample_queue ''a'' (Some 4), sample_queue ''b'' None]\<rparr>"
  have t: "declared_total ?c = 20" by code_simp
  have "Validate ?c = None" by code_simp
  from auto_pool_size_exact [OF this] show ?thesis using t by simp
qed

end
