(* ===== verification/Tuning.thy ===== *)
theory Tuning
  imports Config
begin

text \<open>
  Model of the tuning half of \<open>register.go\<close>: the queue options, the \<open>queueTuning\<close> overlay
  and its resolution against the defaults, and the worker options handed to the queue
  library.  A \<open>QueueOption\<close> is a function over an unexported type, so the constructors of
  \<open>register.go\<close> (and \<open>nil\<close>) are all the options there are; \<open>apply_option\<close> is their bodies.
\<close>

section \<open>Options\<close>

record queueTuning =
  qt_concurrency :: "go_int option"
  qt_lock_duration :: "duration option"
  qt_stalled_interval :: "duration option"
  qt_max_stalled_count :: "go_int option"
  qt_job_metrics :: "go_int option"
  qt_rate_limit :: "rate_limit option"

definition zero_tuning :: queueTuning where
  "zero_tuning = \<lparr>qt_concurrency = None, qt_lock_duration = None, qt_stalled_interval = None,
                  qt_max_stalled_count = None, qt_job_metrics = None, qt_rate_limit = None\<rparr>"

datatype queueOption =
    NilOption
  | WithConcurrency go_int
  | WithLockDuration duration
  | WithStalledInterval duration
  | WithMaxStalledCount go_int
  | WithRateLimit go_int duration
  | WithJobMetrics go_int

fun apply_option :: "queueTuning \<Rightarrow> queueOption \<Rightarrow> queueTuning" where
  "apply_option t NilOption = t"
| "apply_option t (WithConcurrency n) = t\<lparr>qt_concurrency := Some n\<rparr>"
| "apply_option t (WithLockDuration d) = t\<lparr>qt_lock_duration := Some d\<rparr>"
| "apply_option t (WithStalledInterval d) = t\<lparr>qt_stalled_interval := Some d\<rparr>"
| "apply_option t (WithMaxStalledCount n) = t\<lparr>qt_max_stalled_count := Some n\<rparr>"
| "apply_option t (WithRateLimit m w) = t\<lparr>qt_rate_limit := Some \<lparr>rl_max = m, rl_duration = w\<rparr>\<rparr>"
| "apply_option t (WithJobMetrics n) = t\<lparr>qt_job_metrics := Some n\<rparr>"

definition tuningFromOptions :: "queueOption list \<Rightarrow> queueTuning" where
  "tuningFromOptions opts = foldl apply_option zero_tuning opts"

definition tuningFromConfig :: "queue_config \<Rightarrow> queueTuning" where
  "tuningFromConfig q =
     \<lparr>qt_concurrency = qc_concurrency q, qt_lock_duration = qc_lock_duration q,
      qt_stalled_interval = qc_stalled_interval q, qt_max_stalled_count = qc_max_stalled_count q,
      qt_job_metrics = qc_job_metrics q, qt_rate_limit = qc_rate_limit q\<rparr>"

text \<open>\<open>if over.f != nil { t.f = over.f }\<close>.\<close>

definition prefer_over :: "'a option \<Rightarrow> 'a option \<Rightarrow> 'a option" where
  "prefer_over base over = (case over of Some v \<Rightarrow> Some v | None \<Rightarrow> base)"

definition overlay :: "queueTuning \<Rightarrow> queueTuning \<Rightarrow> queueTuning" where
  "overlay t over =
     \<lparr>qt_concurrency = prefer_over (qt_concurrency t) (qt_concurrency over),
      qt_lock_duration = prefer_over (qt_lock_duration t) (qt_lock_duration over),
      qt_stalled_interval = prefer_over (qt_stalled_interval t) (qt_stalled_interval over),
      qt_max_stalled_count = prefer_over (qt_max_stalled_count t) (qt_max_stalled_count over),
      qt_job_metrics = prefer_over (qt_job_metrics t) (qt_job_metrics over),
      qt_rate_limit = prefer_over (qt_rate_limit t) (qt_rate_limit over)\<rparr>"

section \<open>Resolution\<close>

record resolved =
  rs_concurrency :: go_int
  rs_lock_duration :: duration
  rs_stalled_interval :: duration
  rs_max_stalled_count :: go_int
  rs_job_metrics :: go_int
  rs_rate_limit :: "rate_limit option"

definition value_or :: "'a \<Rightarrow> 'a option \<Rightarrow> 'a" where
  "value_or d o' = (case o' of Some v \<Rightarrow> v | None \<Rightarrow> d)"

definition resolve :: "queueTuning \<Rightarrow> queue_defaults \<Rightarrow> resolved" where
  "resolve t d =
     \<lparr>rs_concurrency = value_or (qd_concurrency d) (qt_concurrency t),
      rs_lock_duration = value_or (qd_lock_duration d) (qt_lock_duration t),
      rs_stalled_interval = value_or (qd_stalled_interval d) (qt_stalled_interval t),
      rs_max_stalled_count = value_or (qd_max_stalled_count d) (qt_max_stalled_count t),
      rs_job_metrics = value_or (qd_job_metrics d) (qt_job_metrics t),
      rs_rate_limit = qt_rate_limit t\<rparr>"

text \<open>The options of the queue library, by the constructor called and its arguments.\<close>

datatype worker_option =
    MkqConcurrency go_int
  | MkqLockDuration duration
  | MkqStalledInterval duration
  | MkqMaxStalledCount go_int
  | MkqRateLimit go_int duration
  | MkqJobMetrics go_int
  | MkqRetryDelayOverride

definition workerOptions :: "resolved \<Rightarrow> worker_option list" where
  "workerOptions r =
     [MkqConcurrency (rs_concurrency r), MkqLockDuration (rs_lock_duration r),
      MkqStalledInterval (rs_stalled_interval r), MkqMaxStalledCount (rs_max_stalled_count r)] @
     (case rs_rate_limit r of Some l \<Rightarrow> [MkqRateLimit (rl_max l) (rl_duration l)] | None \<Rightarrow> []) @
     (if 0 < sint (rs_job_metrics r) then [MkqJobMetrics (rs_job_metrics r)] else [])"

definition workerOptionsFor :: "resolved \<Rightarrow> worker_option list" where
  "workerOptionsFor r = workerOptions r @ [MkqRetryDelayOverride]"

definition resolve_queue_tuning :: "config \<Rightarrow> string \<Rightarrow> queueTuning \<Rightarrow> resolved" where
  "resolve_queue_tuning cfg queue tune =
     resolve (case queueConfig cfg queue of
                Some qc \<Rightarrow> overlay tune (tuningFromConfig qc)
              | None \<Rightarrow> tune) (cf_defaults cfg)"

section \<open>Layers\<close>

text \<open>What makes layering well defined: an operation that puts one layer over another,
  associative, with an empty layer.  Folding layers is then the same as collapsing any
  prefix of them first.\<close>

locale layers =
  fixes over :: "'a \<Rightarrow> 'a \<Rightarrow> 'a" and empty :: 'a
  assumes over_assoc: "over (over a b) c = over a (over b c)"
    and over_empty_left: "over empty a = a"
    and over_empty_right: "over a empty = a"
begin

lemma foldl_over: "foldl over a ls = over a (foldl over empty ls)"
proof (induction ls arbitrary: a)
  case (Cons l ls)
  have "foldl over (over a l) ls = over (over a l) (foldl over empty ls)" by (rule Cons.IH)
  also have "\<dots> = over a (over l (foldl over empty ls))" by (rule over_assoc)
  also have "over l (foldl over empty ls) = foldl over l ls" by (rule Cons.IH [symmetric])
  finally show ?case by (simp add: over_empty_left)
qed (simp add: over_empty_right)

lemma foldl_append: "foldl over empty (xs @ ys) = over (foldl over empty xs) (foldl over empty ys)"
  by (simp add: foldl_over [of "foldl over empty xs"])

end

interpretation knob: layers prefer_over None
  by unfold_locales (auto simp: prefer_over_def split: option.splits)

interpretation tuning: layers overlay zero_tuning
  by unfold_locales (simp_all add: overlay_def zero_tuning_def knob.over_assoc knob.over_empty_left
      knob.over_empty_right)

text \<open>An option is a layer with at most one knob set.\<close>

definition option_layer :: "queueOption \<Rightarrow> queueTuning" where
  "option_layer op = apply_option zero_tuning op"

lemma apply_option_overlay: "apply_option t op = overlay t (option_layer op)"
  by (cases op) (simp_all add: option_layer_def overlay_def zero_tuning_def prefer_over_def)

lemma tuningFromOptions_layers: "tuningFromOptions opts = foldl overlay zero_tuning (map option_layer opts)"
  unfolding tuningFromOptions_def
  by (induction opts rule: rev_induct) (simp_all add: apply_option_overlay)

lemma tuningFromOptions_append:
  "tuningFromOptions (xs @ ys) = overlay (tuningFromOptions xs) (tuningFromOptions ys)"
  by (simp only: tuningFromOptions_layers map_append tuning.foldl_append)

text \<open>The reference: the last option that sets a knob.\<close>

definition last_set :: "(queueTuning \<Rightarrow> 'v option) \<Rightarrow> queueOption list \<Rightarrow> 'v option" where
  "last_set f opts =
     (case filter (\<lambda>v. v \<noteq> None) (map (\<lambda>op. f (option_layer op)) (rev opts)) of v # _ \<Rightarrow> v | [] \<Rightarrow> None)"

lemma last_set_snoc:
  "last_set f (xs @ [op]) = (case f (option_layer op) of Some v \<Rightarrow> Some v | None \<Rightarrow> last_set f xs)"
  by (simp add: last_set_def split: option.splits)

lemma last_set_Nil [simp]: "last_set f [] = None"
  by (simp add: last_set_def)

lemma tuningFromOptions_snoc: "tuningFromOptions (xs @ [op]) = overlay (tuningFromOptions xs) (option_layer op)"
  by (simp add: tuningFromOptions_def apply_option_overlay)

lemma tuningFromOptions_knobs:
  "qt_concurrency (tuningFromOptions opts) = last_set qt_concurrency opts"
  "qt_lock_duration (tuningFromOptions opts) = last_set qt_lock_duration opts"
  "qt_stalled_interval (tuningFromOptions opts) = last_set qt_stalled_interval opts"
  "qt_max_stalled_count (tuningFromOptions opts) = last_set qt_max_stalled_count opts"
  "qt_job_metrics (tuningFromOptions opts) = last_set qt_job_metrics opts"
  "qt_rate_limit (tuningFromOptions opts) = last_set qt_rate_limit opts"
  by (induction opts rule: rev_induct)
    (simp_all add: tuningFromOptions_snoc last_set_snoc overlay_def prefer_over_def,
     simp_all add: tuningFromOptions_def zero_tuning_def)

text \<open>The precedence of one knob: the configuration file, then the last option, then the
  default.\<close>

definition yaml_knob :: "config \<Rightarrow> string \<Rightarrow> (queue_config \<Rightarrow> 'v option) \<Rightarrow> 'v option" where
  "yaml_knob cfg queue f = (case queueConfig cfg queue of Some qc \<Rightarrow> f qc | None \<Rightarrow> None)"

definition first_some :: "'v option list \<Rightarrow> 'v option" where
  "first_some vs = (case filter (\<lambda>v. v \<noteq> None) vs of v # _ \<Rightarrow> v | [] \<Rightarrow> None)"

lemma first_some_simps [simp]:
  "first_some [] = None" "first_some (None # vs) = first_some vs" "first_some (Some v # vs) = Some v"
  by (simp_all add: first_some_def)

text \<open>
  C21: The precedence rule, knob by knob: the value the worker runs with is the one of the
  queue's block in the configuration file when it has one, else the one of the last
  registration option that sets it, else the default.  An explicit zero in an upper layer
  is a value and wins over a lower layer.
\<close>
theorem tuning_precedence:
  "resolve_queue_tuning cfg queue (tuningFromOptions opts) =
     \<lparr>rs_concurrency = the (first_some [yaml_knob cfg queue qc_concurrency,
         last_set qt_concurrency opts, Some (qd_concurrency (cf_defaults cfg))]),
      rs_lock_duration = the (first_some [yaml_knob cfg queue qc_lock_duration,
         last_set qt_lock_duration opts, Some (qd_lock_duration (cf_defaults cfg))]),
      rs_stalled_interval = the (first_some [yaml_knob cfg queue qc_stalled_interval,
         last_set qt_stalled_interval opts, Some (qd_stalled_interval (cf_defaults cfg))]),
      rs_max_stalled_count = the (first_some [yaml_knob cfg queue qc_max_stalled_count,
         last_set qt_max_stalled_count opts, Some (qd_max_stalled_count (cf_defaults cfg))]),
      rs_job_metrics = the (first_some [yaml_knob cfg queue qc_job_metrics,
         last_set qt_job_metrics opts, Some (qd_job_metrics (cf_defaults cfg))]),
      rs_rate_limit = first_some [yaml_knob cfg queue qc_rate_limit, last_set qt_rate_limit opts]\<rparr>"
proof -
  have v: "value_or d x = the (first_some [x, Some d])" for d :: 'v and x
    by (cases x) (simp_all add: value_or_def)
  have p: "prefer_over b a = first_some [a, b]" for a b :: "'v option"
    by (cases a; cases b) (simp_all add: prefer_over_def)
  have f: "first_some [first_some [a, b], c] = first_some [a, b, c]" "first_some [a] = a"
    for a b c :: "'v option"
    by (cases a; cases b; simp)+
  show ?thesis
    by (cases "queueConfig cfg queue")
      (simp_all add: resolve_queue_tuning_def resolve_def overlay_def tuningFromConfig_def
        tuningFromOptions_knobs yaml_knob_def v p f)
qed

section \<open>Positive concurrency\<close>

lemma queueConfig_Some: "queueConfig c name = Some q \<Longrightarrow> q \<in> set (cf_queues c) \<and> qc_name q = name"
  by (auto simp: queueConfig_def find_Some_iff in_set_conv_nth)

lemma resolve_concurrency_positive:
  assumes "config_ok c" and "\<forall>n. qt_concurrency t = Some n \<longrightarrow> 1 \<le> sint n"
  shows "1 \<le> sint (rs_concurrency (resolve_queue_tuning c queue t))"
  using assms queueConfig_Some [of c queue]
  by (fastforce simp: resolve_queue_tuning_def resolve_def overlay_def prefer_over_def value_or_def
      tuningFromConfig_def config_ok_def queue_ok_def list_all_iff split: option.splits)

end
