(* ===== verification/Go_Strconv.thy ===== *)
theory Go_Strconv
  imports Go_Prelude
begin

text \<open>
  The conversions of strconv and encoding/hex that the sources call: \<open>ParseInt\<close> in base
  10 at 64 bits, kept at its width and reporting an overflow as soon as the digits read
  so far overflow, \<open>FormatInt\<close>, and \<open>hex.EncodeToString\<close>.  The lemmas give the value
  the reader computes, the round trip through the printer, and that both printers are
  injective.
\<close>

section \<open>strconv.ParseInt with base 10 and 64 bits\<close>

datatype num_error = ErrSyntax | ErrRange

definition is_digit :: "char \<Rightarrow> bool" where
  "is_digit c \<longleftrightarrow> 48 \<le> byte c \<and> byte c \<le> 57"

definition digit_val :: "char \<Rightarrow> nat" where
  "digit_val c = byte c - 48"

definition cutoff_u64 :: "64 word" where
  "cutoff_u64 = 1844674407370955162"

fun parse_uint :: "64 word \<Rightarrow> string \<Rightarrow> num_error + 64 word" where
  "parse_uint n [] = Inr n"
| "parse_uint n (c # cs) =
     (if \<not> is_digit c then Inl ErrSyntax
      else if cutoff_u64 \<le> n then Inl ErrRange
      else let n10 = n * 10; n1 = n10 + of_nat (digit_val c)
           in if n1 < n10 then Inl ErrRange else parse_uint n1 cs)"

text \<open>The sign is split off first; the magnitude is then checked against the signed range.\<close>

definition parse_int_sign :: "string \<Rightarrow> bool \<times> string" where
  "parse_int_sign s =
     (case s of
        c # cs \<Rightarrow> if c = CHR ''+'' then (False, cs)
                  else if c = CHR ''-'' then (True, cs) else (False, s)
      | [] \<Rightarrow> (False, s))"

definition parse_int :: "string \<Rightarrow> num_error + 64 word" where
  "parse_int s =
     (case parse_int_sign s of (neg, ds) \<Rightarrow>
        if ds = [] then Inl ErrSyntax
        else case parse_uint 0 ds of
               Inl e \<Rightarrow> Inl e
             | Inr un \<Rightarrow>
                 if \<not> neg \<and> 0x8000000000000000 \<le> un then Inl ErrRange
                 else if neg \<and> 0x8000000000000000 < un then Inl ErrRange
                 else Inr (if neg then - un else un))"

section \<open>strconv.FormatInt and hex.EncodeToString\<close>

definition digit_char :: "nat \<Rightarrow> char" where
  "digit_char d = char_of (48 + d)"

fun dec_digits :: "nat \<Rightarrow> string" where
  "dec_digits n =
     (if n < 10 then [digit_char n] else dec_digits (n div 10) @ [digit_char (n mod 10)])"

declare dec_digits.simps [simp del]

definition format_int :: "int \<Rightarrow> string" where
  "format_int i = (if i < 0 then CHR ''-'' # dec_digits (nat (- i)) else dec_digits (nat i))"

definition hex_char :: "nat \<Rightarrow> char" where
  "hex_char d = (if d < 10 then char_of (48 + d) else char_of (87 + d))"

definition hex_encode :: "string \<Rightarrow> string" where
  "hex_encode s = concat (map (\<lambda>c. [hex_char (byte c div 16), hex_char (byte c mod 16)]) s)"

section \<open>Decimal digits: what the reader computes\<close>

definition dec_val :: "nat \<Rightarrow> string \<Rightarrow> nat" where
  "dec_val n s = foldl (\<lambda>a c. 10 * a + digit_val c) n s"

lemma dec_val_simps [simp]:
  "dec_val n [] = n"
  "dec_val n (c # cs) = dec_val (10 * n + digit_val c) cs"
  by (simp_all add: dec_val_def)

lemma digit_val_less: "is_digit c \<Longrightarrow> digit_val c < 10"
  by (auto simp: is_digit_def digit_val_def)

lemma dec_val_mono: "n \<le> dec_val n s"
proof (induction s arbitrary: n)
  case Nil
  then show ?case by simp
next
  case (Cons c cs)
  from Cons.IH [of "10 * n + digit_val c"] show ?case by simp
qed

text \<open>One round of the loop computes the next prefix value or reports the overflow.\<close>

lemma parse_uint_step:
  fixes n :: "64 word"
  assumes "is_digit c"
  shows "parse_uint n (c # cs) =
     (if 10 * unat n + digit_val c < 2 ^ 64
      then parse_uint (of_nat (10 * unat n + digit_val c)) cs else Inl ErrRange)"
proof (cases "cutoff_u64 \<le> n")
  case True
  then have "1844674407370955162 \<le> unat n"
    by (simp add: cutoff_u64_def word_le_nat_alt)
  then show ?thesis using True assms by simp
next
  case False
  then have lt: "unat n < 1844674407370955162"
    by (simp add: cutoff_u64_def word_le_nat_alt)
  define d where "d = digit_val c"
  have d: "d < 10" using assms by (simp add: d_def digit_val_less)
  have n10: "unat (n * 10) = 10 * unat n"
    using lt by (simp add: unat_word_ariths)
  have n1: "unat (n * 10 + of_nat d) = (10 * unat n + d) mod 2 ^ 64"
    using d by (simp add: unat_word_ariths n10 unat_of_nat mod_add_left_eq mod_add_right_eq mult.commute)
  have ovf: "n * 10 + of_nat d < n * 10 \<longleftrightarrow> 2 ^ 64 \<le> 10 * unat n + d"
  proof (cases "10 * unat n + d < 2 ^ 64")
    case True
    then show ?thesis by (simp only: word_less_nat_alt n10 n1 mod_less) linarith
  next
    case False
    with lt d have "(10 * unat n + d) mod 2 ^ 64 = 10 * unat n + d - 2 ^ 64"
      by (simp add: le_mod_geq)
    moreover from False d have "10 * unat n + d - 2 ^ 64 < 10 * unat n" by simp
    ultimately have "(10 * unat n + d) mod 2 ^ 64 < 10 * unat n" by (simp only:)
    with False show ?thesis by (simp only: word_less_nat_alt n10 n1 not_less)
  qed
  have eq: "n * 10 + of_nat d = of_nat (10 * unat n + d)"
    by (simp add: mult.commute)
  show ?thesis
    by (simp only: parse_uint.simps Let_def d_def [symmetric] ovf [unfolded eq] eq False assms
          not_True_eq_False if_False) (auto simp only: not_less [symmetric] not_not split: if_split)
qed

lemma parse_uint_digits:
  assumes "list_all is_digit s"
  shows "parse_uint n s =
     (if dec_val (unat n) s < 2 ^ 64 then Inr (of_nat (dec_val (unat n) s)) else Inl ErrRange)"
  using assms
proof (induction s arbitrary: n)
  case Nil
  then show ?case using unsigned_less [of n] by simp
next
  case (Cons c cs)
  let ?m = "10 * unat n + digit_val c"
  from Cons.prems have c: "is_digit c" and cs: "list_all is_digit cs" by auto
  show ?case
  proof (cases "?m < 2 ^ 64")
    case True
    then have u: "unat (of_nat ?m :: 64 word) = ?m"
      by (simp only: unat_of_nat) (simp add: take_bit_nat_eq_self)
    show ?thesis
      by (simp only: parse_uint_step [OF c] True if_True Cons.IH [OF cs] u dec_val_simps)
  next
    case False
    then have "\<not> dec_val ?m cs < 2 ^ 64"
      using dec_val_mono [of ?m cs] by simp
    with False show ?thesis
      by (simp only: parse_uint_step [OF c] if_False dec_val_simps)
  qed
qed

lemma parse_int_digits:
  assumes "list_all is_digit s" and "s \<noteq> []"
  shows "parse_int s =
     (if dec_val 0 s < 2 ^ 63 then Inr (of_nat (dec_val 0 s)) else Inl ErrRange)"
proof -
  from assms obtain c cs where s: "s = c # cs" and c: "is_digit c" by (cases s) auto
  then have "c \<noteq> CHR ''+'' \<and> c \<noteq> CHR ''-''" by (auto simp: is_digit_def)
  with s have sign: "parse_int_sign s = (False, s)" by (simp add: parse_int_sign_def)
  have pu: "parse_uint 0 s =
      (if dec_val 0 s < 2 ^ 64 then Inr (of_nat (dec_val 0 s)) else Inl ErrRange)"
    using parse_uint_digits [OF assms(1), of 0] by (simp only: unat_0)
  show ?thesis
  proof (cases "dec_val 0 s < 2 ^ 64")
    case True
    then have "unat (of_nat (dec_val 0 s) :: 64 word) = dec_val 0 s"
      by (simp only: unat_of_nat) (simp add: take_bit_nat_eq_self)
    then have "(0x8000000000000000 :: 64 word) \<le> of_nat (dec_val 0 s) \<longleftrightarrow> 2 ^ 63 \<le> dec_val 0 s"
      by (simp add: word_le_nat_alt)
    with True show ?thesis
      using assms(2) by (auto simp: parse_int_def sign pu)
  next
    case False
    then show ?thesis using assms(2) by (simp add: parse_int_def sign pu)
  qed
qed

section \<open>Printing\<close>

lemma byte_digit_char: "d < 10 \<Longrightarrow> byte (digit_char d) = 48 + d"
  by (simp add: digit_char_def)

lemma digit_char_is_digit: "d < 10 \<Longrightarrow> is_digit (digit_char d) \<and> digit_val (digit_char d) = d"
  by (simp add: is_digit_def digit_val_def byte_digit_char)

lemma dec_digits_nonempty [simp]: "dec_digits n \<noteq> []"
  by (subst dec_digits.simps) simp

lemma dec_digits_are_digits: "list_all is_digit (dec_digits n)"
proof (induction n rule: dec_digits.induct)
  case (1 n)
  then show ?case
    by (subst dec_digits.simps) (auto simp: digit_char_is_digit)
qed

lemma dec_val_append: "dec_val n (s @ t) = dec_val (dec_val n s) t"
  by (induction s arbitrary: n) simp_all

lemma dec_val_digits: "dec_val 0 (dec_digits n) = n"
proof (induction n rule: dec_digits.induct)
  case (1 n)
  show ?case
  proof (cases "n < 10")
    case True
    then show ?thesis by (subst dec_digits.simps) (simp add: digit_char_is_digit)
  next
    case False
    with 1 show ?thesis
      by (subst dec_digits.simps) (simp add: dec_val_append digit_char_is_digit)
  qed
qed

lemma format_int_chars: "c \<in> set (format_int i) \<Longrightarrow> is_digit c \<or> c = CHR ''-''"
  using dec_digits_are_digits by (auto simp: format_int_def list_all_iff split: if_splits)

lemma dec_digits_inject: "dec_digits m = dec_digits n \<longleftrightarrow> m = n"
  by (metis dec_val_digits)

lemma dec_digits_no_minus: "dec_digits n \<noteq> CHR ''-'' # s"
  using dec_digits_are_digits [of n] by (auto simp: is_digit_def)

lemma format_int_inject: "format_int i = format_int j \<longleftrightarrow> i = j"
  using dec_digits_no_minus [of "nat i"] dec_digits_no_minus [of "nat j"]
  by (auto simp: format_int_def dec_digits_inject dec_digits_no_minus [symmetric] eq_nat_nat_iff)

lemma parse_format_nat:
  assumes "n < 2 ^ 63"
  shows "parse_int (dec_digits n) = Inr (of_nat n)"
  using assms parse_int_digits [OF dec_digits_are_digits dec_digits_nonempty, of n]
  by (simp only: dec_val_digits if_True)

lemma hex_char_inject:
  assumes "a < 16" and "b < 16"
  shows "hex_char a = hex_char b \<longleftrightarrow> a = b"
proof
  assume "hex_char a = hex_char b"
  then have "byte (hex_char a) = byte (hex_char b)" by simp
  moreover have "byte (hex_char d) = (if d < 10 then 48 + d else 87 + d)" if "d < 16" for d
    using that by (simp add: hex_char_def)
  ultimately show "a = b" using assms by (simp split: if_splits)
qed simp

lemma hex_encode_inject: "hex_encode s = hex_encode t \<longleftrightarrow> s = t"
proof
  assume "hex_encode s = hex_encode t"
  then show "s = t"
  proof (induction s arbitrary: t)
    case Nil
    then show ?case by (cases t) (auto simp: hex_encode_def)
  next
    case (Cons c s)
    then obtain d t' where t: "t = d # t'" by (cases t) (auto simp: hex_encode_def)
    have lt: "byte x div 16 < 16" "byte x mod 16 < 16" for x
      by (simp_all add: less_mult_imp_div_less)
    from Cons.prems t have "hex_char (byte c div 16) = hex_char (byte d div 16)"
      "hex_char (byte c mod 16) = hex_char (byte d mod 16)" "hex_encode s = hex_encode t'"
      by (auto simp: hex_encode_def)
    then have "byte c div 16 = byte d div 16" "byte c mod 16 = byte d mod 16" "s = t'"
      using Cons.IH by (auto simp: hex_char_inject lt)
    moreover from this(1,2) have "byte c = byte d" by (metis div_mult_mod_eq)
    ultimately show ?case using t by simp
  qed
qed simp

end
