(* ===== verification/Retry_After.thy ===== *)
theory Retry_After
  imports Go_Strconv
begin

text \<open>
  Model of \<open>retry_after.go\<close>: reading a \<open>Retry-After\<close> value, carrying it in an error,
  and the hook the runtime registers with mkq to turn it into a delay.  Durations are
  64-bit nanosecond counts.
\<close>

section \<open>Durations and times\<close>

definition max_int64 :: "64 word" where
  "max_int64 = 0x7FFFFFFFFFFFFFFF"

definition second :: duration where
  "second = 1000000000"

text \<open>\<open>time.Time.Sub\<close> on nanosecond counts saturates at the ends of the Duration range.\<close>

definition time_sub :: "int \<Rightarrow> int \<Rightarrow> duration" where
  "time_sub t u =
     (let d = t - u
      in if d < - (2 ^ 63) then word_of_int (- (2 ^ 63))
         else if 2 ^ 63 \<le> d then max_int64 else word_of_int d)"

section \<open>The operations of retry\_after.go\<close>

definition maxRetryAfter :: duration where
  "maxRetryAfter = 3600000000000"

definition maxDeltaSeconds :: "64 word" where
  "maxDeltaSeconds = word_of_int (sint max_int64 div sint second)"

definition RetryAfter :: "duration \<Rightarrow> go_error option \<Rightarrow> go_error option" where
  "RetryAfter d err = (if sint d \<le> 0 then err else Some (RetryAfterError d err))"

text \<open>The HTTP-date reading that follows when the value is not delta-seconds.\<close>

definition parse_http_date :: "golib \<Rightarrow> string \<Rightarrow> int \<Rightarrow> duration option" where
  "parse_http_date L v now =
     (case parse_time L v of
        Some t \<Rightarrow> (let d = time_sub t now in if sint d \<le> 0 then None else Some d)
      | None \<Rightarrow> None)"

definition ParseRetryAfter :: "golib \<Rightarrow> string \<Rightarrow> int \<Rightarrow> duration option" where
  "ParseRetryAfter L v now =
     (if v = [] then None
      else case parse_int v of
             Inr secs \<Rightarrow>
               if sint secs < 0 then None
               else if sint secs \<le> sint maxDeltaSeconds then Some (secs * second)
               else Some max_int64
           | Inl e \<Rightarrow>
               if e = ErrRange \<and> hd v \<noteq> CHR ''-'' then Some max_int64
               else parse_http_date L v now)"

datatype log_level = LogDebug | LogInfo | LogWarn | LogError

type_synonym log_line = "log_level \<times> string"

record backoff_context =
  bc_job_id :: string
  bc_name :: string
  bc_attempts_made :: int
  bc_err :: "go_error option"

definition retryDelay :: "backoff_context \<Rightarrow> duration option \<times> log_line list" where
  "retryDelay bc =
     (case Option.bind (bc_err bc) errors_as_retry of
        None \<Rightarrow> (None, [])
      | Some after \<Rightarrow>
          if sint after < 0 then (None, [(LogWarn, ''ignoring a negative Retry-After'')])
          else let capped = sint maxRetryAfter < sint after;
                   d = (if capped then maxRetryAfter else after)
               in (Some d, if capped then [(LogWarn, ''honouring Retry-After, capped'')]
                           else [(LogInfo, ''honouring Retry-After'')]))"

section \<open>The numeric range of the result\<close>

lemma sint_of_nat_small: "n < 2 ^ 63 \<Longrightarrow> sint (of_nat n :: 64 word) = int n"
  by (simp add: signed_of_nat signed_take_bit_int_eq_self)

lemma sint_max_int64 [const_defs]: "sint max_int64 = 2 ^ 63 - 1"
  by (simp add: max_int64_def)

lemma sint_maxDeltaSeconds [const_defs]: "sint maxDeltaSeconds = 9223372036"
  by (simp add: maxDeltaSeconds_def max_int64_def second_def)

lemma sint_maxRetryAfter [const_defs]: "sint maxRetryAfter = 3600 * nano_second"
  by (simp add: maxRetryAfter_def)

text \<open>The guard before the multiplication is exactly what keeps it from wrapping.\<close>

lemma sint_seconds:
  assumes "0 \<le> sint secs" and "sint secs \<le> sint maxDeltaSeconds"
  shows "sint (secs * second) = sint secs * nano_second"
proof -
  have "sint secs * nano_second < 2 ^ 63" using assms by (simp add: const_defs)
  moreover have "- (2 ^ 63) \<le> sint secs * nano_second" using assms(1) by simp
  ultimately have "signed_take_bit 63 (sint secs * nano_second) = sint secs * nano_second"
    by (simp add: signed_take_bit_int_eq_self)
  then show ?thesis by (simp add: sint_word_ariths second_def)
qed

lemma sint_of_int_small:
  assumes "- (2 ^ 63) \<le> i" and "i < 2 ^ 63"
  shows "sint (word_of_int i :: 64 word) = i"
  using assms by (simp add: signed_of_int signed_take_bit_int_eq_self)

lemma time_sub_range: "sint (time_sub t u) = max (- (2 ^ 63)) (min (2 ^ 63 - 1) (t - u))"
  using sint_of_int_small [of "t - u"] sint_of_int_small [of "- (2 ^ 63)"]
  by (auto simp: time_sub_def Let_def const_defs max_def min_def simp del: of_int_diff)

lemma ParseRetryAfter_digits:
  assumes "list_all is_digit v" and "v \<noteq> []"
  shows "ParseRetryAfter L v now =
     Some (if dec_val 0 v \<le> 9223372036 then of_nat (dec_val 0 v) * second else max_int64)"
proof -
  have hd: "hd v \<noteq> CHR ''-''" using assms by (cases v) (auto simp: is_digit_def)
  show ?thesis
  proof (cases "dec_val 0 v < 2 ^ 63")
    case True
    have "sint (of_nat (dec_val 0 v) :: 64 word) = int (dec_val 0 v)"
      using True by (rule sint_of_nat_small)
    then show ?thesis
      using True assms(2)
      by (simp add: ParseRetryAfter_def parse_int_digits [OF assms] const_defs nat_le_iff)
  next
    case False
    then show ?thesis
      using assms(2) hd by (simp add: ParseRetryAfter_def parse_int_digits [OF assms])
  qed
qed

lemma sint_delta_seconds:
  assumes "n \<le> 9223372036"
  shows "sint (of_nat n * second) = int n * nano_second"
proof -
  have "sint (of_nat n :: 64 word) = int n" using assms by (intro sint_of_nat_small) simp
  then show ?thesis using assms by (subst sint_seconds) (auto simp: const_defs)
qed

lemma parse_http_date_pos: "parse_http_date L v now = Some d \<Longrightarrow> 0 < sint d"
  by (auto simp: parse_http_date_def Let_def split: option.splits if_splits)

lemma retryDelay_bounds:
  assumes "fst (retryDelay bc) = Some d"
  shows "0 \<le> sint d \<and> sint d \<le> 3600 * nano_second"
  using assms by (auto simp: retryDelay_def Let_def const_defs not_le split: option.splits if_splits)

lemma retryDelay_none:
  assumes "Option.bind (bc_err bc) errors_as_retry = None"
  shows "retryDelay bc = (None, [])"
  using assms by (simp add: retryDelay_def)

section \<open>Properties\<close>

text \<open>
  C15: A \<open>Retry-After\<close> header that is a run of decimal digits is always understood, at
  any length: up to the largest number of seconds a Duration can hold the result is
  exactly that many seconds, beyond it (including values that overflow the 64-bit
  parser) it is the largest Duration.  No value wraps into a short or negative delay.
\<close>

theorem retry_after_delta_seconds:
  assumes "list_all is_digit v" and "v \<noteq> []"
  shows "\<exists>d. ParseRetryAfter L v now = Some d \<and>
     sint d = (if dec_val 0 v \<le> 9223372036 then int (dec_val 0 v) * nano_second else 2 ^ 63 - 1)"
  using ParseRetryAfter_digits [OF assms, of L now]
  by (auto simp: sint_delta_seconds const_defs)

text \<open>
  Whatever a server writes in the header (signs, overflow, garbage after an overflow,
  dates in the past or the far future), a delay that is returned is never negative.
\<close>

theorem retry_after_never_negative:
  assumes "ParseRetryAfter L v now = Some d"
  shows "0 \<le> sint d"
proof (cases "parse_int v")
  case (Inl e)
  then show ?thesis
    using assms parse_http_date_pos [of L v now d]
    by (auto simp: ParseRetryAfter_def const_defs split: if_splits)
next
  case (Inr secs)
  then show ?thesis
    using assms sint_seconds [of secs]
    by (auto simp: ParseRetryAfter_def const_defs split: if_splits)
qed

text \<open>
  The HTTP-date form, relative to the clock.  A value the number reader rejects as
  a number and the date reader accepts gives the time still to wait, saturating at the
  largest Duration; a date that is not in the future gives no delay at all.
\<close>

theorem retry_after_http_date:
  assumes "parse_int v = Inl ErrSyntax" and "v \<noteq> []" and "parse_time L v = Some t"
  shows "map_option sint (ParseRetryAfter L v now) =
     (if t \<le> now then None else Some (min (2 ^ 63 - 1) (t - now)))"
  using assms time_sub_range [of t now]
  by (auto simp: ParseRetryAfter_def parse_http_date_def Let_def)

text \<open>
  The hook registered for every worker.  It speaks up exactly when a
  \<open>RetryAfterError\<close> with a non-negative delay is somewhere in the error chain, and the
  delay it then gives is that delay capped at one hour; in every other case it leaves
  the configured backoff alone.
\<close>

theorem retry_delay_exact:
  "fst (retryDelay bc) =
     (case Option.bind (bc_err bc) errors_as_retry of
        None \<Rightarrow> None
      | Some a \<Rightarrow> if sint a < 0 then None
                 else Some (word_of_int (min (sint a) (3600 * nano_second))))"
proof (cases "Option.bind (bc_err bc) errors_as_retry")
  case None
  then show ?thesis by (simp add: retryDelay_def)
next
  case (Some a)
  then show ?thesis
    by (auto simp: retryDelay_def Let_def min_def const_defs maxRetryAfter_def not_le)
qed

lemma retryDelay_digits:
  assumes "list_all is_digit v" and "v \<noteq> []" and "errors_as_retry err = None"
    and "ParseRetryAfter L v now = Some d"
  shows "fst (retryDelay (bc\<lparr>bc_err := RetryAfter d (Some err)\<rparr>)) =
     (if dec_val 0 v = 0 then None
      else Some (word_of_int (min (int (dec_val 0 v)) 3600 * nano_second)))"
proof -
  let ?n = "dec_val 0 v"
  have sd: "sint d = (if ?n \<le> 9223372036 then int ?n * nano_second else 2 ^ 63 - 1)"
    using assms ParseRetryAfter_digits [OF assms(1,2), of L now]
    by (auto simp: sint_delta_seconds const_defs)
  show ?thesis
  proof (cases "?n = 0")
    case True
    then show ?thesis using sd assms(3) by (simp add: RetryAfter_def retryDelay_def)
  next
    case False
    then have pos: "0 < sint d" using sd by auto
    have "fst (retryDelay (bc\<lparr>bc_err := RetryAfter d (Some err)\<rparr>)) =
        Some (word_of_int (min (sint d) (3600 * nano_second)))"
      using pos by (auto simp: RetryAfter_def retryDelay_def Let_def min_def const_defs
          maxRetryAfter_def not_le)
    moreover have "min (sint d) (3600 * nano_second) = min (int ?n) 3600 * nano_second"
      using sd by (auto simp: min_def)
    ultimately show ?thesis using False by simp
  qed
qed

text \<open>
  From the header to the delay.  When a retryable failure carries a digit-only
  \<open>Retry-After\<close>, the delay mkq is told is that many seconds, capped at one hour
  however long the number is; a zero is treated as no instruction at all.
\<close>

theorem retry_after_end_to_end:
  assumes "list_all is_digit v" and "v \<noteq> []" and "errors_as_retry err = None"
    and "ParseRetryAfter L v now = Some d"
  shows "fst (retryDelay (bc\<lparr>bc_err := RetryAfter d (Some err)\<rparr>)) =
     (if dec_val 0 v = 0 then None
      else Some (word_of_int (min (int (dec_val 0 v)) 3600 * nano_second)))"
  using retryDelay_digits [OF assms] .

section \<open>Witnesses\<close>

text \<open>A concrete library instance: no Unicode folding beyond identity, toy digests, a date
  parser that knows one date.\<close>

definition sample_lib :: golib where
  "sample_lib = \<lparr>uni_lower = id, uni_fold = (=), sha256 = (\<lambda>s. [char_of (length s)]),
     hmac_sha256 = (\<lambda>k m. [char_of (length k), char_of (length m)]),
     url_parse = (\<lambda>s. if has_prefix s ''https://'' then
         Inr \<lparr>u_scheme = ''https'', u_host = drop 8 s, u_request_uri = ''/''\<rparr>
       else Inl (Errorf ''parse'' [ArgS s])),
     parse_time = (\<lambda>s. if s = ''Wed, 21 Oct 2026 07:28:00 GMT'' then Some 1792567680000000000 else None),
     json_valid = (\<lambda>s. s \<noteq> []), json_error_field = (\<lambda>s. None)\<rparr>"

theorem retry_after_delta_seconds_witness:
  "\<exists>d. ParseRetryAfter sample_lib ''99999999999999999999'' 0 = Some d \<and> sint d = 2 ^ 63 - 1"
  using retry_after_delta_seconds [of "''99999999999999999999''" sample_lib 0]
  by (simp add: is_digit_def digit_val_def)

theorem retry_after_never_negative_witness:
  "ParseRetryAfter sample_lib ''Wed, 21 Oct 2026 07:28:00 GMT'' 1792567679000000000 = Some second
   \<and> 0 \<le> sint second"
proof -
  have *: "ParseRetryAfter sample_lib ''Wed, 21 Oct 2026 07:28:00 GMT'' 1792567679000000000 = Some second"
    by (simp add: ParseRetryAfter_def parse_int_def parse_int_sign_def is_digit_def
        parse_http_date_def sample_lib_def time_sub_def second_def)
  from retry_after_never_negative [OF *] * show ?thesis by simp
qed

theorem retry_after_http_date_witness:
  "map_option sint (ParseRetryAfter sample_lib ''Wed, 21 Oct 2026 07:28:00 GMT'' 1792567679000000000)
   = Some 1000000000"
proof -
  have "parse_int ''Wed, 21 Oct 2026 07:28:00 GMT'' = Inl ErrSyntax"
    by (simp add: parse_int_def parse_int_sign_def is_digit_def)
  moreover have "parse_time sample_lib ''Wed, 21 Oct 2026 07:28:00 GMT'' = Some 1792567680000000000"
    by (simp add: sample_lib_def)
  ultimately show ?thesis
    using retry_after_http_date [of "''Wed, 21 Oct 2026 07:28:00 GMT''" sample_lib
        1792567680000000000 1792567679000000000]
    by simp
qed

theorem retry_after_end_to_end_witness:
  "fst (retryDelay \<lparr>bc_job_id = ''1'', bc_name = ''q'', bc_attempts_made = 1,
       bc_err = RetryAfter (86400 * second) (Some (Errorf ''429'' []))\<rparr>)
   = Some (word_of_int (3600 * nano_second))"
proof -
  have *: "ParseRetryAfter sample_lib ''86400'' 0 = Some (86400 * second)"
    using ParseRetryAfter_digits [of "''86400''" sample_lib 0]
    by (simp add: is_digit_def digit_val_def)
  show ?thesis
    using retry_after_end_to_end [OF _ _ _ *, of "Errorf ''429'' []"
        "\<lparr>bc_job_id = ''1'', bc_name = ''q'', bc_attempts_made = 1, bc_err = None\<rparr>"]
    by (simp add: is_digit_def digit_val_def)
qed

end
