(* ===== verification/Registry.thy ===== *)
theory Registry
  imports Config Retry_After "HOL-Library.Multiset"
begin

text \<open>
  Model of \<open>executor.go\<close>, \<open>logging.go\<close> and \<open>version.go\<close>: the type-erased job, the global
  registry of executor factories, the adapter from an executor to a handler of the queue
  library, the built-in \<open>log\<close> executor and the process logger.  A Go map is an association
  list with distinct keys, in the order of insertion; nothing read from it may depend on
  that order, since Go iterates in a random one.  A panic is \<open>Inl\<close> of its message.
\<close>

section \<open>Version\<close>

definition Version :: string where "Version = ''0.3.0''"

definition UserAgent :: string where "UserAgent = ''mkqd/'' @ Version"

section \<open>Jobs and executors\<close>

text \<open>The fields of \<open>mkq.Job[json.RawMessage]\<close> the code reads.\<close>

record mkq_job =
  mj_id :: string
  mj_name :: string
  mj_data :: string
  mj_attempts_made :: go_int
  mj_timestamp :: int

record job =
  j_queue :: string
  j_id :: string
  j_name :: string
  j_data :: string
  j_attempts_made :: go_int
  j_timestamp :: int
  j_src :: "mkq_job option"

text \<open>\<open>Job.UpdateProgress\<close> and \<open>Job.Log\<close> forward to the job of the queue library when there
  is one.\<close>

definition UpdateProgress :: "(mkq_job \<Rightarrow> 'v \<Rightarrow> go_error option) \<Rightarrow> job \<Rightarrow> 'v \<Rightarrow> go_error option" where
  "UpdateProgress upd j v =
     (case j_src j of None \<Rightarrow> Some (Sentinel ErrJobDetached) | Some src \<Rightarrow> upd src v)"

definition Job_Log :: "(mkq_job \<Rightarrow> string \<Rightarrow> go_error option) \<Rightarrow> job \<Rightarrow> string \<Rightarrow> go_error option" where
  "Job_Log log j line =
     (case j_src j of None \<Rightarrow> Some (Sentinel ErrJobDetached) | Some src \<Rightarrow> log src line)"

text \<open>An executor maps a job to a return value or an error.\<close>

type_synonym 'v executor = "job \<Rightarrow> 'v result"

definition executorHandler :: "string \<Rightarrow> 'v executor \<Rightarrow> mkq_job \<Rightarrow> 'v result" where
  "executorHandler queue ex mj =
     ex \<lparr>j_queue = queue, j_id = mj_id mj, j_name = mj_name mj, j_data = mj_data mj,
         j_attempts_made = mj_attempts_made mj, j_timestamp = mj_timestamp mj, j_src = Some mj\<rparr>"

section \<open>The registry of factories\<close>

record build_context =
  bc_queue :: string
  bc_config :: config

type_synonym 'x executor_factory = "build_context \<Rightarrow> executor_config \<Rightarrow> 'x result"

type_synonym 'f factories = "(string \<times> 'f) list"

definition RegisterExecutor :: "string \<Rightarrow> 'f option \<Rightarrow> 'f factories \<Rightarrow> string + 'f factories" where
  "RegisterExecutor typ f fs =
     (if typ = [] then Inl ''mkqd: RegisterExecutor with empty type''
      else case f of
        None \<Rightarrow> Inl ''mkqd: RegisterExecutor with nil factory''
      | Some g \<Rightarrow>
          (case map_of fs typ of
             Some _ \<Rightarrow> Inl (''mkqd: executor type '' @ typ @ '' registered twice'')
           | None \<Rightarrow> Inr (fs @ [(typ, g)])))"

definition RegisteredExecutors :: "'f factories \<Rightarrow> string list" where
  "RegisteredExecutors fs = sort (map fst fs)"

definition lookupExecutorFactory :: "'f factories \<Rightarrow> string \<Rightarrow> 'f option" where
  "lookupExecutorFactory fs typ = map_of fs typ"

definition builtinExecutorPackages :: "(string \<times> string) list" where
  "builtinExecutorPackages =
     [(''http'', ''github.com/elythia-network/mkqd/executor/httpexec''),
      (''webhook'', ''github.com/elythia-network/mkqd/executor/httpexec''),
      (''activitypub_deliver'', ''github.com/elythia-network/mkqd/executor/apdeliver'')]"

definition plannedExecutors :: "string list" where "plannedExecutors = []"

definition unknownExecutorError :: "'f factories \<Rightarrow> string \<Rightarrow> go_error" where
  "unknownExecutorError fs typ =
     (case map_of builtinExecutorPackages typ of
        Some pkg \<Rightarrow>
          Errorf ''executor type %q is built in but not linked; add `import _ %q` (registered: %v)''
            [ArgS typ, ArgS pkg, ArgL (RegisteredExecutors fs)]
      | None \<Rightarrow>
          if typ \<in> set plannedExecutors
          then Errorf ''executor type %q is not implemented yet in mkqd %s (registered: %v)''
                 [ArgS typ, ArgS Version, ArgL (RegisteredExecutors fs)]
          else Errorf ''unknown executor type %q (registered: %v)''
                 [ArgS typ, ArgL (RegisteredExecutors fs)])"

text \<open>The \<open>log\<close> executor registered by \<open>init\<close>: its log line (the attributes are the job id,
  name, attempt number and data) and its result, a nil value.\<close>

definition log_executor :: "job \<Rightarrow> (log_line \<times> fmt_arg list) \<times> string option result" where
  "log_executor j =
     (((LogInfo, ''job received''),
       [ArgS (j_id j), ArgS (j_name j), ArgI (sint (j_attempts_made j + 1)), ArgS (j_data j)]),
      Inr None)"

section \<open>The process logger\<close>

datatype log_format = TextHandler | JSONHandler

record logger =
  lg_level :: log_level
  lg_format :: log_format

definition newLogger :: "log_config \<Rightarrow> logger result" where
  "newLogger cfg =
     (case map_of [(''debug'', LogDebug), (''info'', LogInfo), ([], LogInfo), (''warn'', LogWarn),
                   (''error'', LogError)] (lc_level cfg) of
        None \<Rightarrow> Inl (Errorf ''mkqd: log.level %q is not one of debug, info, warn, error'' [ArgS (lc_level cfg)])
      | Some level \<Rightarrow>
          (case map_of [(''json'', JSONHandler), (''text'', TextHandler), ([], TextHandler)] (lc_format cfg) of
             None \<Rightarrow> Inl (Errorf ''mkqd: log.format %q is not one of text, json'' [ArgS (lc_format cfg)])
           | Some h \<Rightarrow> Inr \<lparr>lg_level = level, lg_format = h\<rparr>))"

lemma newLogger_config_ok: "config_ok c \<Longrightarrow> \<exists>l. newLogger (cf_log c) = Inr l"
  by (auto simp: config_ok_def newLogger_def)

section \<open>Properties of the registry\<close>

lemma RegisterExecutor_Inr:
  "RegisterExecutor typ f fs = Inr fs' \<longleftrightarrow>
     (\<exists>g. f = Some g \<and> typ \<noteq> [] \<and> typ \<notin> set (map fst fs) \<and> fs' = fs @ [(typ, g)])"
  by (force simp: RegisterExecutor_def map_of_eq_None_iff split: option.splits if_splits
      dest: map_of_SomeD)

lemma map_of_snoc: "x \<notin> set (map fst fs) \<Longrightarrow> map_of (fs @ [(x, v)]) = (map_of fs)(x \<mapsto> v)"
proof (induction fs)
  case (Cons a fs)
  then show ?case by (cases a) (auto simp: fun_upd_twist)
qed simp

text \<open>A sequence of registrations, stopped by the first panic.\<close>

fun register_all :: "(string \<times> 'f option) list \<Rightarrow> 'f factories \<Rightarrow> string + 'f factories" where
  "register_all [] fs = Inr fs"
| "register_all ((t, f) # rs) fs =
     (case RegisterExecutor t f fs of Inl p \<Rightarrow> Inl p | Inr fs' \<Rightarrow> register_all rs fs')"

lemma register_all_Inr:
  "register_all rs fs = Inr fs' \<Longrightarrow> distinct (map fst fs) \<Longrightarrow>
     distinct (map fst fs') \<and> map fst fs' = map fst fs @ map fst rs \<and>
     (\<forall>t g. (t, g) \<in> set rs \<longrightarrow> map_of fs' t = g) \<and>
     (\<forall>t g. map_of fs t = Some g \<longrightarrow> map_of fs' t = Some g)"
proof (induction rs arbitrary: fs)
  case (Cons r rs)
  obtain t f where r: "r = (t, f)" by (cases r)
  with Cons.prems obtain g where g: "f = Some g" "t \<notin> set (map fst fs)"
    and all: "register_all rs (fs @ [(t, g)]) = Inr fs'"
    by (auto simp: RegisterExecutor_Inr split: sum.splits)
  have d: "distinct (map fst (fs @ [(t, g)]))" using g Cons.prems by simp
  have m: "map_of (fs @ [(t, g)]) = (map_of fs)(t \<mapsto> g)" by (rule map_of_snoc [OF g(2)])
  have n: "map_of fs t = None" using g by (simp add: map_of_eq_None_iff)
  note ih = Cons.IH [OF all d, unfolded m]
  have "map_of fs' s = Some h" if "map_of fs s = Some h" for s h
    using ih that n by (cases "s = t") auto
  moreover have "map_of fs' s = h" if "(s, h) \<in> set (r # rs)" for s h
    using ih that r g by auto
  moreover have "distinct (map fst fs')" "map fst fs' = map fst fs @ map fst (r # rs)"
    using conjunct1 [OF ih] conjunct1 [OF conjunct2 [OF ih]] r by simp_all
  ultimately show ?case by (intro conjI allI impI) assumption+
qed simp

lemma RegisteredExecutors_sorted:
  "distinct (map fst fs) \<Longrightarrow>
     sorted (RegisteredExecutors fs) \<and> distinct (RegisteredExecutors fs) \<and>
     set (RegisteredExecutors fs) = set (map fst fs)"
  by (simp add: RegisteredExecutors_def)

text \<open>
  C34: Registering executor types one after another either panics or makes each type findable
  with the factory it was registered with, and the listing is the sorted list of exactly these
  types, each once: it does not depend on the order of the registrations, hence not on the
  iteration order of the map.
\<close>
theorem registry_roundtrip:
  assumes "register_all rs [] = Inr fs" and "(t, Some f) \<in> set rs"
  shows "lookupExecutorFactory fs t = Some f \<and> sorted (RegisteredExecutors fs) \<and>
    distinct (RegisteredExecutors fs) \<and> set (RegisteredExecutors fs) = fst ` set rs \<and>
    (mset rs' = mset rs \<longrightarrow> register_all rs' [] = Inr fs' \<longrightarrow>
       RegisteredExecutors fs' = RegisteredExecutors fs)"
proof -
  note fs = register_all_Inr [OF assms(1), simplified]
  have "lookupExecutorFactory fs t = Some f"
    using fs assms(2) by (simp add: lookupExecutorFactory_def)
  moreover have "RegisteredExecutors fs' = RegisteredExecutors fs"
    if "mset rs' = mset rs" "register_all rs' [] = Inr fs'"
  proof -
    have "mset (map fst fs') = mset (map fst fs)"
      using register_all_Inr [OF that(2)] fs that(1) by (simp add: mset_map)
    then show ?thesis by (simp add: RegisteredExecutors_def properties_for_sort)
  qed
  moreover have "set (map fst fs) = fst ` set rs" using fs by simp
  ultimately show ?thesis using RegisteredExecutors_sorted [OF conjunct1 [OF fs]] by simp
qed

theorem registry_roundtrip_witness:
  "\<exists>fs. register_all [(''log'', Some (1::nat)), (''http'', Some 2)] [] = Inr fs \<and>
     lookupExecutorFactory fs ''http'' = Some 2 \<and> RegisteredExecutors fs = [''http'', ''log'']"
proof -
  have r: "register_all [(''log'', Some (1::nat)), (''http'', Some 2)] [] = Inr [(''log'', 1), (''http'', 2)]"
    by (simp add: RegisterExecutor_def)
  have "RegisteredExecutors [(''log'', 1::nat), (''http'', 2)] = [''http'', ''log'']" by code_simp
  then show ?thesis using r registry_roundtrip [OF r, of "''http''" 2 "[]" "[]"] by auto
qed

end
