(* ===== verification/Runtime.thy ===== *)
theory Runtime
  imports Tuning Registry "HOL-Library.Sublist"
begin

text \<open>
  Model of \<open>runtime.go\<close>, of the registration half of \<open>register.go\<close> and of the listener of
  \<open>server.go\<close>.  The state of a \<open>Runtime\<close> is a record; the calls it makes on the queue library,
  the Redis clients and the listener are the fields of the record \<open>world\<close>, an argument, and
  each such call is appended to the trace of the runtime as an event.  A context is kept as
  the expression that built it.  Goroutines that run side by side are lists of events that
  a schedule interleaves.
\<close>

section \<open>Contexts, events, workers\<close>

datatype go_ctx =
    Background
  | CallerCtx nat
  | WithTimeout go_ctx duration
  | WithoutCancel go_ctx
  | NotifyContext go_ctx

text \<open>Whether a context is already done when it is built, given which of the caller's are.\<close>

fun ctx_done :: "(nat \<Rightarrow> bool) \<Rightarrow> go_ctx \<Rightarrow> bool" where
  "ctx_done dn Background = False"
| "ctx_done dn (CallerCtx n) = dn n"
| "ctx_done dn (WithTimeout c d) = (ctx_done dn c \<or> sint d \<le> 0)"
| "ctx_done dn (WithoutCancel c) = False"
| "ctx_done dn (NotifyContext c) = ctx_done dn c"

type_synonym worker = nat

datatype event =
    EvLog log_line
  | EvProcess string "worker_option list"
  | EvDrain worker go_ctx
  | EvStop worker go_ctx
  | EvListen string
  | EvServerShutdown go_ctx
  | EvServerClose
  | EvClientClose
  | EvRedisClose

type_synonym 'v handler = "mkq_job \<Rightarrow> 'v result"

record universal_options =
  uo_addrs :: "string list"
  uo_db :: go_int
  uo_username :: string
  uo_password :: string
  uo_master_name :: string
  uo_pool_size :: go_int

record 'v world =
  m_new_client :: "universal_options \<Rightarrow> string \<Rightarrow> bool \<Rightarrow> go_error option"
  m_process :: "string \<Rightarrow> 'v handler \<Rightarrow> worker_option list \<Rightarrow> worker result"
  m_drain :: "worker \<Rightarrow> go_ctx \<Rightarrow> go_error option"
  m_stop :: "worker \<Rightarrow> go_ctx \<Rightarrow> go_error option"
  m_client_close :: "go_error option"
  m_rdb_close :: "go_error option"
  m_rdb_ping :: "go_ctx \<Rightarrow> go_error option"
  m_listen :: "string \<Rightarrow> string result"
  m_srv_shutdown :: "go_ctx \<Rightarrow> go_error option"
  m_srv_close :: "go_error option"

section \<open>The state\<close>

record 'v registration =
  rg_queue :: string
  rg_tune :: queueTuning
  rg_start :: "'v handler option"
  rg_from_code :: bool

definition zero_registration :: "'v registration" where
  "zero_registration = \<lparr>rg_queue = [], rg_tune = zero_tuning, rg_start = None, rg_from_code = False\<rparr>"

record 'v runtime =
  rt_cfg :: config
  rt_client :: "universal_options option"
  rt_rdb :: "universal_options option"
  rt_reg :: bool
  rt_srv :: "string option"
  rt_unwind_grace :: duration
  rt_registry :: "string \<rightharpoonup> 'v registration"
  rt_order :: "string list"
  rt_workers :: "(string \<times> worker) list"
  rt_started :: bool
  rt_stopped :: bool
  rt_once :: bool
  rt_stop_err :: "go_error option"
  rt_trace :: "event list"

definition emit :: "event list \<Rightarrow> 'v runtime \<Rightarrow> 'v runtime" where
  "emit es rt = rt\<lparr>rt_trace := rt_trace rt @ es\<rparr>"

definition defaultUnwindGrace :: duration where "defaultUnwindGrace = 5000000000"
definition pingTimeout :: duration where "pingTimeout = 2000000000"
definition probePoolSize :: go_int where "probePoolSize = 2"

definition universalOptions :: "redis_config \<Rightarrow> go_int \<Rightarrow> universal_options" where
  "universalOptions r autoPool =
     \<lparr>uo_addrs = rc_addrs r, uo_db = rc_db r, uo_username = rc_username r,
      uo_password = rc_password r, uo_master_name = rc_master_name r,
      uo_pool_size = (if rc_pool_size r = 0 then autoPool else rc_pool_size r)\<rparr>"

definition New :: "'v world \<Rightarrow> config \<Rightarrow> 'v runtime result" where
  "New W cfg0 =
     (let cfg = applyDefaults cfg0
      in case Validate cfg of
           Some e \<Rightarrow> Inl e
         | None \<Rightarrow>
             (case newLogger (cf_log cfg) of
                Inl e \<Rightarrow> Inl e
              | Inr lg \<Rightarrow>
                  (let opts = universalOptions (cf_redis cfg) (autoPoolSize cfg);
                       metrics = sc_metrics (cf_server cfg)
                   in case m_new_client W opts (cf_key_prefix cfg) metrics of
                        Some e \<Rightarrow> Inl e
                      | None \<Rightarrow>
                          Inr \<lparr>rt_cfg = cfg, rt_client = Some opts,
                               rt_rdb = Some ((universalOptions (cf_redis cfg) probePoolSize)
                                                \<lparr>uo_pool_size := probePoolSize\<rparr>),
                               rt_reg = metrics, rt_srv = None,
                               rt_unwind_grace = defaultUnwindGrace,
                               rt_registry = Map.empty, rt_order = [], rt_workers = [],
                               rt_started = False, rt_stopped = False, rt_once = False,
                               rt_stop_err = None, rt_trace = []\<rparr>)))"

definition NewFromFile ::
    "'v world \<Rightarrow> yaml_lib \<Rightarrow> (string \<rightharpoonup> string) \<Rightarrow> (string \<Rightarrow> string result) \<Rightarrow> string \<Rightarrow> 'v runtime result" where
  "NewFromFile W Y env read_file path =
     (case LoadConfig Y env read_file path of Inl e \<Rightarrow> Inl e | Inr cfg \<Rightarrow> New W cfg)"

section \<open>Registration\<close>

definition register :: "'v registration \<Rightarrow> 'v runtime \<Rightarrow> 'v runtime result" where
  "register r rt =
     (if rg_queue r = [] then Inl (Errorf ''mkqd: queue name must not be empty'' [])
      else if rt_started rt
      then Inl (Errorf ''mkqd: cannot register queue %q after Start'' [ArgS (rg_queue r)])
      else if rt_registry rt (rg_queue r) \<noteq> None
      then Inl (Errorf ''mkqd: queue %q is already registered'' [ArgS (rg_queue r)])
      else Inr (rt\<lparr>rt_registry := (rt_registry rt)(rg_queue r \<mapsto> r),
                   rt_order := rt_order rt @ [rg_queue r]\<rparr>))"

definition Handle :: "string \<Rightarrow> 'v handler option \<Rightarrow> queueOption list \<Rightarrow> 'v runtime \<Rightarrow> 'v runtime result" where
  "Handle queue h opts rt =
     (case h of
        None \<Rightarrow> Inl (Errorf ''mkqd: Handle(%q): handler is nil'' [ArgS queue])
      | Some fn \<Rightarrow> register \<lparr>rg_queue = queue, rg_tune = tuningFromOptions opts, rg_start = Some fn,
                             rg_from_code = True\<rparr> rt)"

definition HandleExecutor ::
    "string \<Rightarrow> 'v executor option \<Rightarrow> queueOption list \<Rightarrow> 'v runtime \<Rightarrow> 'v runtime result" where
  "HandleExecutor queue ex opts rt =
     (case ex of
        None \<Rightarrow> Inl (Errorf ''mkqd: HandleExecutor(%q): executor is nil'' [ArgS queue])
      | Some x \<Rightarrow> register \<lparr>rg_queue = queue, rg_tune = tuningFromOptions opts,
                            rg_start = Some (executorHandler queue x), rg_from_code = True\<rparr> rt)"

text \<open>\<open>buildConfiguredQueues\<close>: the loop over the configured queues.  A failure keeps what the
  earlier iterations registered.\<close>

definition add_configured :: "string \<Rightarrow> 'v executor \<Rightarrow> 'v runtime \<Rightarrow> 'v runtime" where
  "add_configured name ex rt =
     rt\<lparr>rt_registry := (rt_registry rt)(name \<mapsto>
           \<lparr>rg_queue = name, rg_tune = zero_tuning, rg_start = Some (executorHandler name ex),
            rg_from_code = False\<rparr>),
        rt_order := rt_order rt @ [name]\<rparr>"

definition code_registered :: "'v runtime \<Rightarrow> string \<Rightarrow> bool" where
  "code_registered rt q \<longleftrightarrow> (case rt_registry rt q of Some r \<Rightarrow> rg_from_code r | None \<Rightarrow> False)"

definition build_queue ::
    "'v executor executor_factory factories \<Rightarrow> queue_config \<Rightarrow> 'v runtime \<Rightarrow> go_error option \<times> 'v runtime" where
  "build_queue fs qc rt =
     (if code_registered rt (qc_name qc)
      then (None,
            if qc_executor qc \<noteq> None
            then emit [EvLog (LogWarn, ''queue has both a code handler and an executor config; the code handler wins'')] rt
            else rt)
      else case qc_executor qc of
        None \<Rightarrow> (Some (Errorf ''mkqd: queue %q has no executor in the config and no handler registered in code''
                         [ArgS (qc_name qc)]), rt)
      | Some ec \<Rightarrow>
          (case lookupExecutorFactory fs (ec_type ec) of
             None \<Rightarrow> (Some (Wrapf ''mkqd: queue %q: %w'' [ArgS (qc_name qc)]
                              (unknownExecutorError fs (ec_type ec))), rt)
           | Some factory \<Rightarrow>
               (case factory \<lparr>bc_queue = qc_name qc, bc_config = rt_cfg rt\<rparr> ec of
                  Inl e \<Rightarrow> (Some (Wrapf ''mkqd: queue %q: build executor %q: %w''
                                   [ArgS (qc_name qc), ArgS (ec_type ec)] e), rt)
                | Inr ex \<Rightarrow> (None, add_configured (qc_name qc) ex rt))))"

fun build_queues ::
    "'v executor executor_factory factories \<Rightarrow> queue_config list \<Rightarrow> 'v runtime \<Rightarrow>
     go_error option \<times> 'v runtime" where
  "build_queues fs [] rt = (None, rt)"
| "build_queues fs (qc # qcs) rt =
     (case build_queue fs qc rt of
        (Some e, rt1) \<Rightarrow> (Some e, rt1)
      | (None, rt1) \<Rightarrow> build_queues fs qcs rt1)"

definition buildConfiguredQueues ::
    "'v executor executor_factory factories \<Rightarrow> 'v runtime \<Rightarrow> go_error option \<times> 'v runtime" where
  "buildConfiguredQueues fs rt = build_queues fs (cf_queues (rt_cfg rt)) rt"

definition resolveTuning :: "'v runtime \<Rightarrow> 'v registration \<Rightarrow> resolved" where
  "resolveTuning rt r = resolve_queue_tuning (rt_cfg rt) (rg_queue r) (rg_tune r)"

fun registered_loop :: "string list \<Rightarrow> string list \<Rightarrow> string list \<Rightarrow> string list" where
  "registered_loop seen out [] = out"
| "registered_loop seen out (n # ns) =
     (if n \<in> set seen then registered_loop seen out ns
      else registered_loop (n # seen) (out @ [n]) ns)"

definition registeredQueues :: "'v runtime \<Rightarrow> string list" where
  "registeredQueues rt = registered_loop [] [] (rt_order rt)"

definition sortedQueueNames :: "string list \<Rightarrow> string list" where
  "sortedQueueNames names = sort names"

text \<open>Indexing the registry of a Go map: the zero registration when the key is absent.\<close>

definition registry_get :: "'v runtime \<Rightarrow> string \<Rightarrow> 'v registration" where
  "registry_get rt name = (case rt_registry rt name of Some r \<Rightarrow> r | None \<Rightarrow> zero_registration)"

section \<open>Side-by-side goroutines\<close>

text \<open>A schedule names, step by step, the goroutine that moves; what is left when it ends
  runs in order.  \<open>runs\<close> is the set of all interleavings.\<close>

fun interleave :: "nat list \<Rightarrow> 'a list list \<Rightarrow> 'a list" where
  "interleave [] ts = concat ts"
| "interleave (i # is) ts =
     (if i < length ts \<and> ts ! i \<noteq> [] then hd (ts ! i) # interleave is (ts[i := tl (ts ! i)])
      else interleave is ts)"

inductive runs :: "'a list list \<Rightarrow> 'a list \<Rightarrow> bool" where
  runs_done: "list_all (\<lambda>t. t = []) ts \<Longrightarrow> runs ts []"
| runs_step: "i < length ts \<Longrightarrow> ts ! i = e # t \<Longrightarrow> runs (ts[i := t]) es \<Longrightarrow> runs ts (e # es)"

text \<open>\<open>drainWorker\<close>: its events and its result.\<close>

definition drainWorker :: "'v world \<Rightarrow> duration \<Rightarrow> go_ctx \<Rightarrow> string \<times> worker \<Rightarrow> event list \<times> go_error option" where
  "drainWorker W grace ctx rw =
     (case m_drain W (snd rw) ctx of
        None \<Rightarrow> ([EvDrain (snd rw) ctx], None)
      | Some e \<Rightarrow>
          (let unwindCtx = WithTimeout (WithoutCancel ctx) grace
           in ([EvDrain (snd rw) ctx,
                EvLog (LogWarn, ''drain budget expired; cancelling in-flight handlers''),
                EvStop (snd rw) unwindCtx],
               m_stop W (snd rw) unwindCtx)))"

definition takeWorkers :: "'v runtime \<Rightarrow> (string \<times> worker) list \<times> 'v runtime" where
  "takeWorkers rt = (rt_workers rt, rt\<lparr>rt_workers := []\<rparr>)"

definition stopWorkers :: "'v world \<Rightarrow> nat list \<Rightarrow> go_ctx \<Rightarrow> 'v runtime \<Rightarrow> go_error option \<times> 'v runtime" where
  "stopWorkers W sched ctx rt =
     (case takeWorkers rt of (workers, rt1) \<Rightarrow>
        if workers = [] then (None, rt1)
        else let rs = map (drainWorker W (rt_unwind_grace rt) ctx) workers
             in (errors_join (map snd rs), emit (interleave sched (map fst rs)) rt1))"

definition abort_worker :: "'v world \<Rightarrow> go_ctx \<Rightarrow> string \<times> worker \<Rightarrow> event list" where
  "abort_worker W ctx rw =
     EvStop (snd rw) ctx #
     (if m_stop W (snd rw) ctx \<noteq> None
      then [EvLog (LogWarn, ''worker did not stop cleanly during startup rollback'')] else [])"

definition abortWorkers :: "'v world \<Rightarrow> nat list \<Rightarrow> 'v runtime \<Rightarrow> 'v runtime" where
  "abortWorkers W sched rt =
     (case takeWorkers rt of (workers, rt1) \<Rightarrow>
        if workers = [] then rt1
        else emit (interleave sched
                     (map (abort_worker W (WithTimeout Background (rt_unwind_grace rt))) workers)) rt1)"

section \<open>Start, Run, Shutdown\<close>

definition warnPoolSize :: "string list \<Rightarrow> 'v runtime \<Rightarrow> 'v runtime" where
  "warnPoolSize names rt =
     (let total = foldl (\<lambda>t name. t + rs_concurrency (resolveTuning rt (registry_get rt name))) 0 names;
          pool = (if rc_pool_size (cf_redis (rt_cfg rt)) = 0 then autoPoolSize (rt_cfg rt)
                  else rc_pool_size (cf_redis (rt_cfg rt)));
          want = total + poolHeadroom
      in if sint pool < sint want
         then emit [EvLog (LogWarn, ''redis pool is smaller than the total worker concurrency; set redis.pool_size'')] rt
         else rt)"

text \<open>The loop of \<open>Start\<close>.  \<open>None\<close> is the panic of calling a nil \<open>start\<close>.\<close>

fun start_workers ::
    "'v world \<Rightarrow> nat list \<Rightarrow> string list \<Rightarrow> 'v runtime \<Rightarrow> (go_error option \<times> 'v runtime) option" where
  "start_workers W sched [] rt = Some (None, rt)"
| "start_workers W sched (name # names) rt =
     (let r = registry_get rt name;
          opts = workerOptionsFor (resolveTuning rt r)
      in case rg_start r of
           None \<Rightarrow> None
         | Some h \<Rightarrow>
             (let rt1 = emit [EvProcess (rg_queue r) opts] rt
              in case m_process W (rg_queue r) h opts of
                   Inl e \<Rightarrow> Some (Some (Wrapf ''mkqd: start worker for queue %q: %w'' [ArgS name] e),
                                  abortWorkers W sched rt1)
                 | Inr w \<Rightarrow>
                     start_workers W sched names
                       (emit [EvLog (LogInfo, ''queue started'')]
                          (rt1\<lparr>rt_workers := rt_workers rt1 @ [(name, w)]\<rparr>))))"

definition newHealthServer :: "'v world \<Rightarrow> 'v runtime \<Rightarrow> string result" where
  "newHealthServer W rt =
     (case m_listen W (sc_addr (cf_server (rt_cfg rt))) of
        Inl e \<Rightarrow> Inl (Wrapf ''mkqd: listen on %s: %w'' [ArgS (sc_addr (cf_server (rt_cfg rt)))] e)
      | Inr bound \<Rightarrow> Inr bound)"

definition start_server :: "'v world \<Rightarrow> nat list \<Rightarrow> 'v runtime \<Rightarrow> go_error option \<times> 'v runtime" where
  "start_server W sched rt =
     (if serverEnabled (rt_cfg rt)
      then case newHealthServer W rt of
             Inl e \<Rightarrow> (Some e, abortWorkers W sched rt)
           | Inr bound \<Rightarrow> (None, emit [EvListen bound, EvLog (LogInfo, ''health server listening'')]
                                 (rt\<lparr>rt_srv := Some bound\<rparr>))
      else (None, rt))"

definition Start ::
    "'v world \<Rightarrow> 'v executor executor_factory factories \<Rightarrow> nat list \<Rightarrow> 'v runtime \<Rightarrow>
     (go_error option \<times> 'v runtime) option" where
  "Start W fs sched rt =
     (if rt_started rt then Some (Some (Errorf ''mkqd: Start called twice'' []), rt)
      else case buildConfiguredQueues fs (rt\<lparr>rt_started := True\<rparr>) of
        (Some e, rt1) \<Rightarrow> Some (Some e, rt1)
      | (None, rt1) \<Rightarrow>
          (let names = registeredQueues rt1
           in if names = []
              then Some (Some (Errorf ''mkqd: no queues registered; declare queues in the config or call Handle'' []), rt1)
              else case start_workers W sched names (warnPoolSize names rt1) of
                None \<Rightarrow> None
              | Some (Some e, rt2) \<Rightarrow> Some (Some e, rt2)
              | Some (None, rt2) \<Rightarrow> Some (start_server W sched rt2)))"

definition healthServer_Close :: "'v world \<Rightarrow> go_ctx \<Rightarrow> go_error option \<times> event list" where
  "healthServer_Close W ctx =
     (case m_srv_shutdown W ctx of
        Some e \<Rightarrow> if errors_is e DeadlineExceeded then (m_srv_close W, [EvServerShutdown ctx, EvServerClose])
                  else (Some e, [EvServerShutdown ctx])
      | None \<Rightarrow> (None, [EvServerShutdown ctx]))"

definition close_server :: "'v world \<Rightarrow> go_ctx \<Rightarrow> 'v runtime \<Rightarrow> go_error option \<times> 'v runtime" where
  "close_server W ctx rt =
     (case rt_srv rt of
        None \<Rightarrow> (None, rt)
      | Some _ \<Rightarrow>
          (case healthServer_Close W ctx of (err, es) \<Rightarrow>
             (map_option (Wrapf ''health server: %w'' []) err, emit es rt)))"

definition close_clients :: "'v world \<Rightarrow> 'v runtime \<Rightarrow> go_error option list \<times> 'v runtime" where
  "close_clients W rt =
     (case (if rt_client rt \<noteq> None
            then (map_option (Wrapf ''close mkq client: %w'' []) (m_client_close W), emit [EvClientClose] rt)
            else (None, rt)) of (e1, rt1) \<Rightarrow>
      case (if rt_rdb rt1 \<noteq> None
            then (map_option (Wrapf ''close redis client: %w'' []) (m_rdb_close W), emit [EvRedisClose] rt1)
            else (None, rt1)) of (e2, rt2) \<Rightarrow> ([e1, e2], rt2))"

definition Shutdown :: "'v world \<Rightarrow> nat list \<Rightarrow> go_ctx \<Rightarrow> 'v runtime \<Rightarrow> go_error option \<times> 'v runtime" where
  "Shutdown W sched ctx rt =
     (if rt_once rt then (rt_stop_err rt, rt)
      else case close_server W ctx rt of (e1, rt1) \<Rightarrow>
           case stopWorkers W sched ctx rt1 of (e2, rt2) \<Rightarrow>
           case close_clients W rt2 of (es, rt3) \<Rightarrow>
             (let err = errors_join ([e1, e2] @ es);
                  rt4 = rt3\<lparr>rt_stopped := True, rt_stop_err := err, rt_once := True\<rparr>
              in (err, if err = None then emit [EvLog (LogInfo, ''mkqd stopped'')] rt4 else rt4)))"

text \<open>\<open>Run\<close>, from a signal that eventually comes: \<open>Start\<close>, then \<open>Shutdown\<close> with its own budget.\<close>

definition Run ::
    "'v world \<Rightarrow> 'v executor executor_factory factories \<Rightarrow> nat list \<Rightarrow> nat list \<Rightarrow> go_ctx \<Rightarrow> 'v runtime \<Rightarrow>
     (go_error option \<times> 'v runtime) option" where
  "Run W fs sched1 sched2 ctx rt =
     (case Start W fs sched1 rt of
        None \<Rightarrow> None
      | Some (Some e, rt1) \<Rightarrow> Some (Some e, rt1)
      | Some (None, rt1) \<Rightarrow>
          Some (Shutdown W sched2 (WithTimeout (WithoutCancel ctx) (cf_shutdown_timeout (rt_cfg rt1)))
                  (emit [EvLog (LogInfo, ''mkqd started''),
                         EvLog (LogInfo, ''shutting down; in-flight handlers are allowed to finish'')] rt1)))"

section \<open>Probes and reports\<close>

definition ping :: "'v world \<Rightarrow> go_ctx \<Rightarrow> 'v runtime \<Rightarrow> go_error option" where
  "ping W ctx rt =
     (if rt_rdb rt = None then Some (Errorf ''mkqd: runtime has no redis client'' [])
      else m_rdb_ping W ctx)"

definition isServing :: "'v runtime \<Rightarrow> bool" where
  "isServing rt \<longleftrightarrow> rt_started rt \<and> \<not> rt_stopped rt"

definition Check ::
    "'v world \<Rightarrow> 'v executor executor_factory factories \<Rightarrow> go_ctx \<Rightarrow> 'v runtime \<Rightarrow> go_error option \<times> 'v runtime" where
  "Check W fs ctx rt =
     (case ping W (WithTimeout ctx pingTimeout) rt of
        Some e \<Rightarrow> (Some (Wrapf ''mkqd: redis ping: %w'' [] e), rt)
      | None \<Rightarrow> buildConfiguredQueues fs rt)"

definition Queues :: "'v runtime \<Rightarrow> string list" where
  "Queues rt = sortedQueueNames (registeredQueues rt)"

definition QueueTuning :: "'v runtime \<Rightarrow> string \<Rightarrow> (go_int \<times> duration) option" where
  "QueueTuning rt queue =
     (case rt_registry rt queue of
        None \<Rightarrow> None
      | Some r \<Rightarrow> (let t = resolveTuning rt r in Some (rs_concurrency t, rs_lock_duration t)))"

definition ServerAddr :: "'v runtime \<Rightarrow> string" where
  "ServerAddr rt = (case rt_srv rt of None \<Rightarrow> [] | Some a \<Rightarrow> a)"

section \<open>Interleavings\<close>

lemma runs_concat: "runs ts (concat ts)"
proof (induction "length (concat ts)" arbitrary: ts)
  case 0
  then have "concat ts = []" "list_all (\<lambda>t. t = []) ts" by (auto simp: list_all_iff)
  then show ?case using runs_done [of ts] by (simp only:)
next
  case (Suc n)
  then obtain us e t vs where ts: "ts = us @ (e # t) # vs" "concat us = []"
  proof -
    assume that: "\<And>us e t vs. ts = us @ (e # t) # vs \<Longrightarrow> concat us = [] \<Longrightarrow> thesis"
    have "\<exists>t \<in> set ts. t \<noteq> []" using Suc.hyps(2) by (metis concat_eq_Nil_conv length_0_conv nat.distinct(2))
    then obtain us t vs where "ts = us @ t # vs" "t \<noteq> []" "\<forall>u \<in> set us. u = []"
      using split_list_first_prop [of ts "\<lambda>t. t \<noteq> []"] by blast
    then show thesis using that [of us "hd t" "tl t" vs] by simp
  qed
  let ?ts = "ts[length us := t]"
  have c: "concat ts = e # concat ?ts" using ts(1) by (simp add: ts(2))
  then have "runs ?ts (concat ?ts)" using Suc.hyps by simp
  moreover have "length us < length ts" "ts ! length us = e # t" using ts(1) by simp_all
  ultimately show ?case unfolding c by (intro runs_step [of "length us" ts e t])
qed

lemma runs_interleave: "runs ts (interleave sched ts)"
proof (induction sched arbitrary: ts)
  case (Cons i sched)
  show ?case
  proof (cases "i < length ts \<and> ts ! i \<noteq> []")
    case True
    then show ?thesis using Cons.IH [of "ts[i := tl (ts ! i)]"]
      by (auto intro!: runs_step [of i ts _ "tl (ts ! i)"])
  next
    case False
    then show ?thesis using Cons.IH [of ts] by (simp only: interleave.simps if_False)
  qed
qed (simp add: runs_concat)

lemma interleave_complete: "runs ts es \<Longrightarrow> \<exists>sched. interleave sched ts = es"
proof (induction rule: runs.induct)
  case (runs_done ts)
  then have "interleave [] ts = []" by (auto simp: list_all_iff)
  then show ?case by blast
next
  case (runs_step i ts e t es)
  then obtain sched where "interleave sched (ts[i := t]) = es" by blast
  then have "interleave (i # sched) ts = e # es" using runs_step.hyps by simp
  then show ?case by blast
qed

text \<open>The schedules reach exactly the interleavings.\<close>

lemma interleave_iff: "(\<exists>sched. interleave sched ts = es) \<longleftrightarrow> runs ts es"
  using runs_interleave interleave_complete by blast

lemma runs_mset: "runs ts es \<Longrightarrow> mset es = mset (concat ts)"
proof (induction rule: runs.induct)
  case (runs_done ts)
  then have "concat ts = []" by (auto simp: list_all_iff)
  then show ?case by simp
next
  case (runs_step i ts e t es)
  have "ts = take i ts @ (e # t) # drop (Suc i) ts"
    using runs_step.hyps id_take_nth_drop by metis
  then have "mset (concat ts) = add_mset e (mset (concat (take i ts @ t # drop (Suc i) ts)))"
    by (metis concat.simps(2) concat_append mset_append append_Cons mset.simps(2) union_mset_add_mset_right)
  moreover have "ts[i := t] = take i ts @ t # drop (Suc i) ts"
    using runs_step.hyps(1) by (rule upd_conv_take_nth_drop)
  ultimately show ?case using runs_step.IH by simp
qed

lemma runs_subseq: "runs ts es \<Longrightarrow> j < length ts \<Longrightarrow> subseq (ts ! j) es"
proof (induction rule: runs.induct)
  case (runs_done ts)
  then show ?case by (simp add: list_all_length)
next
  case (runs_step i ts e t es)
  then show ?case
    by (cases "i = j") (auto simp: subseq_Cons2_iff nth_list_update dest: list_emb_Cons)
qed

lemma interleave_mset: "mset (interleave sched ts) = mset (concat ts)"
  by (rule runs_mset [OF runs_interleave])

lemma interleave_set: "set (interleave sched ts) = \<Union> (set ` set ts)"
  using arg_cong [OF interleave_mset, of set_mset sched ts] by simp

lemma interleave_subseq: "t \<in> set ts \<Longrightarrow> subseq t (interleave sched ts)"
  by (auto simp: in_set_conv_nth intro: runs_subseq [OF runs_interleave])

section \<open>The invariant\<close>

definition registry_ok :: "(string \<rightharpoonup> 'v registration) \<Rightarrow> string list \<Rightarrow> bool" where
  "registry_ok R names \<longleftrightarrow>
     dom R = set names \<and>
     (\<forall>q r. R q = Some r \<longrightarrow> rg_queue r = q \<and> q \<noteq> [] \<and> rg_start r \<noteq> None)"

definition rt_inv :: "'v runtime \<Rightarrow> bool" where
  "rt_inv rt \<longleftrightarrow>
     registry_ok (rt_registry rt) (rt_order rt) \<and>
     distinct (map fst (rt_workers rt)) \<and> fst ` set (rt_workers rt) \<subseteq> set (rt_order rt) \<and>
     (rt_workers rt \<noteq> [] \<longrightarrow> rt_started rt) \<and> (rt_srv rt \<noteq> None \<longrightarrow> rt_started rt) \<and>
     (rt_stopped rt \<longleftrightarrow> rt_once rt) \<and> config_ok (rt_cfg rt) \<and> applyDefaults (rt_cfg rt) = rt_cfg rt \<and>
     rt_client rt \<noteq> None \<and> rt_rdb rt \<noteq> None \<and> rt_unwind_grace rt = defaultUnwindGrace"

lemma registry_ok_add:
  "registry_ok R names \<Longrightarrow> q \<noteq> [] \<Longrightarrow> rg_queue r = q \<Longrightarrow> rg_start r \<noteq> None \<Longrightarrow>
     registry_ok (R(q \<mapsto> r)) (names @ [q])"
  by (auto simp: registry_ok_def)

lemma registry_ok_empty [simp]: "registry_ok Map.empty []"
  by (simp add: registry_ok_def)

lemma registry_ok_get:
  "registry_ok (rt_registry rt) (rt_order rt) \<Longrightarrow> name \<in> set (rt_order rt) \<Longrightarrow>
     \<exists>h. rt_registry rt name = Some (registry_get rt name) \<and>
         rg_queue (registry_get rt name) = name \<and> rg_start (registry_get rt name) = Some h"
  by (auto simp: registry_ok_def registry_get_def set_eq_iff dom_def split: option.splits)

lemma rt_inv_emit [simp]: "rt_inv (emit es rt) = rt_inv rt"
  by (simp add: rt_inv_def emit_def)

lemma emit_sel [simp]:
  "rt_cfg (emit es rt) = rt_cfg rt" "rt_client (emit es rt) = rt_client rt"
  "rt_rdb (emit es rt) = rt_rdb rt" "rt_srv (emit es rt) = rt_srv rt"
  "rt_unwind_grace (emit es rt) = rt_unwind_grace rt" "rt_registry (emit es rt) = rt_registry rt"
  "rt_order (emit es rt) = rt_order rt" "rt_workers (emit es rt) = rt_workers rt"
  "rt_started (emit es rt) = rt_started rt" "rt_stopped (emit es rt) = rt_stopped rt"
  "rt_once (emit es rt) = rt_once rt" "rt_stop_err (emit es rt) = rt_stop_err rt"
  "rt_reg (emit es rt) = rt_reg rt" "rt_trace (emit es rt) = rt_trace rt @ es"
  by (simp_all add: emit_def)

lemma New_inv:
  assumes "New W cfg = Inr rt"
  shows "rt_inv rt \<and> rt_workers rt = [] \<and> \<not> rt_started rt \<and> rt_trace rt = []"
proof -
  have "Validate (applyDefaults cfg) = None \<and> rt_cfg rt = applyDefaults cfg"
    using assms by (auto simp: New_def Let_def split: option.splits sum.splits)
  then show ?thesis using assms
    by (auto simp: New_def Let_def rt_inv_def Validate_none_iff applyDefaults_idem
        split: option.splits sum.splits)
qed

lemma New_fields:
  assumes "New W cfg = Inr rt"
  shows "rt_cfg rt = applyDefaults cfg \<and> \<not> rt_started rt \<and> \<not> rt_once rt \<and> \<not> rt_stopped rt \<and>
    rt_registry rt = Map.empty"
  using assms by (auto simp: New_def Let_def split: option.splits sum.splits)

lemma register_inv: "register r rt = Inr rt' \<Longrightarrow> rg_start r \<noteq> None \<Longrightarrow> rt_inv rt \<Longrightarrow> rt_inv rt'"
  by (auto simp: register_def rt_inv_def registry_ok_add split: if_splits)

lemma Handle_inv: "Handle q h opts rt = Inr rt' \<Longrightarrow> rt_inv rt \<Longrightarrow> rt_inv rt'"
  by (auto simp: Handle_def split: option.splits elim: register_inv)

lemma HandleExecutor_inv: "HandleExecutor q ex opts rt = Inr rt' \<Longrightarrow> rt_inv rt \<Longrightarrow> rt_inv rt'"
  by (auto simp: HandleExecutor_def split: option.splits elim: register_inv)

text \<open>What the loop over the configured queues leaves alone, and what it adds.\<close>

definition shell :: "'v runtime \<Rightarrow> 'v runtime" where
  "shell rt = rt\<lparr>rt_registry := Map.empty, rt_order := [], rt_trace := []\<rparr>"

lemma shell_sel:
  assumes "shell rt' = shell rt"
  shows "rt_cfg rt' = rt_cfg rt" "rt_client rt' = rt_client rt" "rt_rdb rt' = rt_rdb rt"
    "rt_srv rt' = rt_srv rt" "rt_unwind_grace rt' = rt_unwind_grace rt"
    "rt_workers rt' = rt_workers rt" "rt_started rt' = rt_started rt"
    "rt_stopped rt' = rt_stopped rt" "rt_once rt' = rt_once rt" "rt_stop_err rt' = rt_stop_err rt"
  using assms by (cases rt; cases rt'; simp add: shell_def)+

lemma shell_emit [simp]: "shell (emit es rt) = shell rt"
  by (simp add: shell_def emit_def)

lemma code_registered_emit [simp]: "code_registered (emit es rt) = code_registered rt"
  by (rule ext) (simp add: code_registered_def)

lemma build_queue_cases:
  assumes "build_queue fs qc rt = (e, rt')"
  obtains "e \<noteq> None" "rt' = rt" "\<not> code_registered rt (qc_name qc)"
  | es where "e = None" "rt' = emit es rt" "code_registered rt (qc_name qc)"
  | ex where "e = None" "rt' = add_configured (qc_name qc) ex rt" "\<not> code_registered rt (qc_name qc)"
proof (cases "code_registered rt (qc_name qc)")
  case True
  then have "\<exists>es. rt' = emit es rt" using assms
    by (auto simp: build_queue_def emit_def split: if_splits intro: exI [of _ "[]"])
  then show thesis using assms True that(2) by (auto simp: build_queue_def)
next
  case False
  then show thesis using assms that(1,3)
    by (auto simp: build_queue_def split: option.splits sum.splits)
qed

lemma add_configured_frame:
  "shell (add_configured q ex rt) = shell rt"
  "rt_order (add_configured q ex rt) = rt_order rt @ [q]"
  "q' \<noteq> q \<Longrightarrow> rt_registry (add_configured q ex rt) q' = rt_registry rt q'"
  "\<not> code_registered rt q \<Longrightarrow> code_registered (add_configured q ex rt) = code_registered rt"
  by (auto simp: add_configured_def shell_def code_registered_def fun_eq_iff)

lemma build_queue_frame:
  assumes "build_queue fs qc rt = (e, rt')"
  shows "shell rt' = shell rt \<and> code_registered rt' = code_registered rt \<and>
     (\<forall>q. code_registered rt q \<longrightarrow> rt_registry rt' q = rt_registry rt q)"
  using assms
  by (cases rule: build_queue_cases)
    (auto simp: add_configured_frame(1,4) intro!: add_configured_frame(3))

lemma build_queues_frame:
  "build_queues fs qcs rt = (e, rt') \<Longrightarrow>
     shell rt' = shell rt \<and> code_registered rt' = code_registered rt \<and>
     (\<forall>q. code_registered rt q \<longrightarrow> rt_registry rt' q = rt_registry rt q)"
proof (induction qcs arbitrary: rt)
  case (Cons qc qcs)
  obtain e1 rt1 where b: "build_queue fs qc rt = (e1, rt1)" by fastforce
  show ?case using build_queue_frame [OF b] Cons b by (cases e1) auto
qed simp

lemma build_queues_registry_ok:
  "build_queues fs qcs rt = (e, rt') \<Longrightarrow> list_all queue_ok qcs \<Longrightarrow>
     registry_ok (rt_registry rt) (rt_order rt) \<Longrightarrow>
     registry_ok (rt_registry rt') (rt_order rt') \<and> set (rt_order rt) \<subseteq> set (rt_order rt')"
proof (induction qcs arbitrary: rt)
  case (Cons qc qcs)
  obtain e1 rt1 where b: "build_queue fs qc rt = (e1, rt1)" by fastforce
  have "registry_ok (rt_registry rt1) (rt_order rt1) \<and> set (rt_order rt) \<subseteq> set (rt_order rt1)"
    using b Cons.prems(2,3)
    by (cases rule: build_queue_cases) (auto simp: add_configured_def queue_ok_def intro!: registry_ok_add)
  then show ?case using Cons b by (cases e1) auto
qed simp

lemma build_queues_order:
  "build_queues fs qcs rt = (None, rt') \<Longrightarrow>
     rt_order rt' = rt_order rt @ filter (\<lambda>q. \<not> code_registered rt q) (map qc_name qcs)"
proof (induction qcs arbitrary: rt)
  case (Cons qc qcs)
  obtain e1 rt1 where b: "build_queue fs qc rt = (e1, rt1)" by fastforce
  then have "e1 = None" "build_queues fs qcs rt1 = (None, rt')"
    using Cons.prems by (auto split: option.splits)
  with b Cons.IH [OF this(2)] show ?case
    by (cases rule: build_queue_cases) (auto simp: add_configured_frame)
qed simp

lemma rt_inv_shell:
  assumes "rt_inv rt" "shell rt' = shell rt" "registry_ok (rt_registry rt') (rt_order rt')"
    "set (rt_order rt) \<subseteq> set (rt_order rt')"
  shows "rt_inv rt'"
  using assms(1,3,4) shell_sel [OF assms(2)] by (auto simp: rt_inv_def)

lemma buildConfiguredQueues_inv:
  assumes "buildConfiguredQueues fs rt = (e, rt')" and "rt_inv rt"
  shows "rt_inv rt'"
proof -
  have b: "build_queues fs (cf_queues (rt_cfg rt)) rt = (e, rt')"
    using assms(1) by (simp add: buildConfiguredQueues_def)
  have "list_all queue_ok (cf_queues (rt_cfg rt))" "registry_ok (rt_registry rt) (rt_order rt)"
    using assms(2) by (simp_all add: rt_inv_def config_ok_def)
  from build_queues_registry_ok [OF b this] show ?thesis
    using rt_inv_shell [OF assms(2) conjunct1 [OF build_queues_frame [OF b]]] by simp
qed

lemma rt_inv_started [simp]: "rt_inv rt \<Longrightarrow> rt_inv (rt\<lparr>rt_started := True\<rparr>)"
  by (simp add: rt_inv_def)

lemma rt_inv_no_workers [simp]: "rt_inv rt \<Longrightarrow> rt_inv (rt\<lparr>rt_workers := []\<rparr>)"
  by (simp add: rt_inv_def)

lemma registered_loop_first_occ: "registered_loop seen out ns = out @ first_occ seen ns"
  by (induction seen out ns rule: registered_loop.induct) auto

interpretation queue_names: deduper "registered_loop [] []"
  by unfold_locales (simp add: registered_loop_first_occ)

lemma registeredQueues_distinct: "distinct (registeredQueues rt)"
  by (simp add: registeredQueues_def queue_names.uniq_distinct)

lemma registeredQueues_set: "set (registeredQueues rt) = set (rt_order rt)"
  by (simp add: registeredQueues_def queue_names.uniq_set)

section \<open>Starting\<close>

lemma takeWorkers_simps [simp]:
  "takeWorkers rt = (rt_workers rt, rt\<lparr>rt_workers := []\<rparr>)"
  by (simp add: takeWorkers_def)

lemma abortWorkers_eq:
  "abortWorkers W sched rt =
     emit (interleave sched
             (map (abort_worker W (WithTimeout Background (rt_unwind_grace rt))) (rt_workers rt)))
       (rt\<lparr>rt_workers := []\<rparr>)" if "rt_workers rt \<noteq> []"
  using that by (simp add: abortWorkers_def)

lemma abortWorkers_inv: "rt_inv rt \<Longrightarrow> rt_inv (abortWorkers W sched rt)"
  by (simp add: abortWorkers_def)

lemma abortWorkers_sel [simp]:
  "rt_workers (abortWorkers W sched rt) = []" "rt_started (abortWorkers W sched rt) = rt_started rt"
  "rt_stopped (abortWorkers W sched rt) = rt_stopped rt" "rt_srv (abortWorkers W sched rt) = rt_srv rt"
  "rt_registry (abortWorkers W sched rt) = rt_registry rt" "rt_order (abortWorkers W sched rt) = rt_order rt"
  "rt_cfg (abortWorkers W sched rt) = rt_cfg rt"
  by (simp_all add: abortWorkers_def)

lemma abortWorkers_stops:
  "(q, w) \<in> set (rt_workers rt) \<Longrightarrow>
     EvStop w (WithTimeout Background (rt_unwind_grace rt)) \<in> set (rt_trace (abortWorkers W sched rt))"
  by (subst abortWorkers_eq) (auto simp: interleave_set abort_worker_def intro!: bexI [of _ "(q, w)"])

text \<open>What the loop of \<open>Start\<close> launches for one queue.\<close>

definition launch_options :: "'v runtime \<Rightarrow> string \<Rightarrow> worker_option list" where
  "launch_options rt name = workerOptionsFor (resolveTuning rt (registry_get rt name))"

definition launch :: "'v world \<Rightarrow> 'v runtime \<Rightarrow> string \<Rightarrow> worker result" where
  "launch W rt name = m_process W name (the (rg_start (registry_get rt name))) (launch_options rt name)"

lemma launch_cong:
  "rt_cfg rt' = rt_cfg rt \<Longrightarrow> rt_registry rt' = rt_registry rt \<Longrightarrow>
     launch_options rt' = launch_options rt \<and> launch W rt' = launch W rt"
  by (auto simp: fun_eq_iff launch_def launch_options_def resolveTuning_def registry_get_def)

lemma start_workers_Cons:
  assumes "registry_ok (rt_registry rt) (rt_order rt)" and "name \<in> set (rt_order rt)"
  shows "start_workers W sched (name # names) rt =
     (case launch W rt name of
        Inl e \<Rightarrow> Some (Some (Wrapf ''mkqd: start worker for queue %q: %w'' [ArgS name] e),
                       abortWorkers W sched (emit [EvProcess name (launch_options rt name)] rt))
      | Inr w \<Rightarrow> start_workers W sched names
                  (emit [EvProcess name (launch_options rt name), EvLog (LogInfo, ''queue started'')]
                     (rt\<lparr>rt_workers := rt_workers rt @ [(name, w)]\<rparr>)))"
  using registry_ok_get [OF assms]
  by (auto simp: Let_def launch_def launch_options_def emit_def split: sum.splits)

definition process_events :: "event list \<Rightarrow> event list" where
  "process_events tr = filter (\<lambda>e. case e of EvProcess _ _ \<Rightarrow> True | _ \<Rightarrow> False) tr"

lemma process_events_simps [simp]:
  "process_events [] = []" "process_events (xs @ ys) = process_events xs @ process_events ys"
  "process_events (EvProcess q os # xs) = EvProcess q os # process_events xs"
  "process_events (EvLog l # xs) = process_events xs"
  "process_events (EvListen a # xs) = process_events xs"
  "process_events (EvStop w c # xs) = process_events xs"
  by (simp_all add: process_events_def)

lemma process_events_none: "\<forall>e \<in> set tr. \<forall>q os. e \<noteq> EvProcess q os \<Longrightarrow> process_events tr = []"
  by (induction tr) (auto simp: process_events_def split: event.splits)

lemma process_events_mem: "EvProcess q os \<in> set tr \<Longrightarrow> EvProcess q os \<in> set (process_events tr)"
  by (simp add: process_events_def)

lemma abortWorkers_trace:
  "\<exists>tr. rt_trace (abortWorkers W sched rt) = rt_trace rt @ tr \<and> process_events tr = []"
proof (cases "rt_workers rt = []")
  case False
  then show ?thesis
    by (subst abortWorkers_eq)
      (auto intro!: process_events_none simp: interleave_set abort_worker_def split: if_splits)
qed (simp add: abortWorkers_def)

text \<open>The loop launches the queues in order up to the first failure, if any.\<close>

lemma start_workers_run:
  assumes "registry_ok (rt_registry rt) (rt_order rt)" and "set names \<subseteq> set (rt_order rt)"
  shows "\<exists>e rt'. start_workers W sched names rt = Some (e, rt') \<and>
    rt_cfg rt' = rt_cfg rt \<and> rt_registry rt' = rt_registry rt \<and> rt_order rt' = rt_order rt \<and>
    rt_started rt' = rt_started rt \<and> rt_stopped rt' = rt_stopped rt \<and> rt_srv rt' = rt_srv rt \<and>
    (e = None \<longrightarrow>
       rt_workers rt' = rt_workers rt @ map (\<lambda>n. (n, projr (launch W rt n))) names \<and>
       list_all (\<lambda>n. \<not> isl (launch W rt n)) names) \<and>
    (\<exists>tr. rt_trace rt' = rt_trace rt @ tr \<and>
       process_events tr = map (\<lambda>n. EvProcess n (launch_options rt n))
         (let ok = (\<lambda>n. \<not> isl (launch W rt n)) in takeWhile ok names @ take 1 (dropWhile ok names))) \<and>
    (e \<noteq> None \<longrightarrow>
       rt_workers rt' = [] \<and>
       \<not> list_all (\<lambda>n. \<not> isl (launch W rt n)) names \<and>
       (\<forall>w \<in> snd ` set (rt_workers rt) \<union>
             (\<lambda>n. projr (launch W rt n)) ` set (takeWhile (\<lambda>n. \<not> isl (launch W rt n)) names).
          EvStop w (WithTimeout Background (rt_unwind_grace rt)) \<in> set (rt_trace rt')))"
  using assms
proof (induction names arbitrary: rt)
  case (Cons name names)
  let ?start = "emit [EvProcess name (launch_options rt name)] rt"
  let ?next = "\<lambda>w. emit [EvProcess name (launch_options rt name), EvLog (LogInfo, ''queue started'')]
                     (rt\<lparr>rt_workers := rt_workers rt @ [(name, w)]\<rparr>)"
  have name: "name \<in> set (rt_order rt)" using Cons.prems by simp
  note sw = start_workers_Cons [OF Cons.prems(1) name, of W sched names]
  show ?case
  proof (cases "launch W rt name")
    case (Inl e)
    have "EvStop w (WithTimeout Background (rt_unwind_grace rt)) \<in> set (rt_trace (abortWorkers W sched ?start))"
      if "w \<in> snd ` set (rt_workers rt)" for w
      using that abortWorkers_stops [of _ w ?start W sched] by auto
    then show ?thesis using sw Inl abortWorkers_trace [of W sched ?start]
      by (auto simp: Let_def simp del: start_workers.simps)
  next
    case (Inr w)
    have lc: "launch W (?next w) = launch W rt" "launch_options (?next w) = launch_options rt"
      using launch_cong [of "?next w" rt] by simp_all
    have "registry_ok (rt_registry (?next w)) (rt_order (?next w))"
      "set names \<subseteq> set (rt_order (?next w))" using Cons.prems by simp_all
    from Cons.IH [OF this, unfolded lc] sw Inr show ?thesis
      by (auto simp: Let_def simp del: start_workers.simps)
  qed
qed simp

text \<open>\<open>Start\<close> up to the launch loop: the built registry, the names, the warning.\<close>

lemma warnPoolSize_cases: "warnPoolSize names rt = rt \<or> (\<exists>l. warnPoolSize names rt = emit [EvLog l] rt)"
  by (auto simp: warnPoolSize_def Let_def)

lemma warnPoolSize_sel [simp]:
  "rt_inv (warnPoolSize names rt) = rt_inv rt" "rt_cfg (warnPoolSize names rt) = rt_cfg rt"
  "rt_registry (warnPoolSize names rt) = rt_registry rt" "rt_order (warnPoolSize names rt) = rt_order rt"
  "rt_workers (warnPoolSize names rt) = rt_workers rt" "rt_started (warnPoolSize names rt) = rt_started rt"
  "rt_stopped (warnPoolSize names rt) = rt_stopped rt" "rt_srv (warnPoolSize names rt) = rt_srv rt"
  "rt_unwind_grace (warnPoolSize names rt) = rt_unwind_grace rt"
  "registeredQueues (warnPoolSize names rt) = registeredQueues rt"
  using warnPoolSize_cases [of names rt] by (auto simp: registeredQueues_def)

lemma build_queue_no_process:
  "build_queue fs qc rt = (e, rt') \<Longrightarrow> \<exists>tr. rt_trace rt' = rt_trace rt @ tr \<and> process_events tr = []"
  by (auto simp: build_queue_def add_configured_def split: if_splits option.splits sum.splits)

lemma build_queues_no_process:
  "build_queues fs qcs rt = (e, rt') \<Longrightarrow> \<exists>tr. rt_trace rt' = rt_trace rt @ tr \<and> process_events tr = []"
proof (induction qcs arbitrary: rt)
  case (Cons qc qcs)
  obtain e1 rt1 where b: "build_queue fs qc rt = (e1, rt1)" by fastforce
  show ?case using build_queue_no_process [OF b] Cons b by (cases e1) fastforce+
qed simp

lemma warnPoolSize_no_process:
  "\<exists>tr. rt_trace (warnPoolSize names rt) = rt_trace rt @ tr \<and> process_events tr = []"
  using warnPoolSize_cases [of names rt] by auto

lemma start_server_cases:
  assumes "start_server W sched rt = (e, rt')"
  obtains "e = None" "rt_workers rt' = rt_workers rt" "rt_registry rt' = rt_registry rt"
      "rt_order rt' = rt_order rt" "rt_cfg rt' = rt_cfg rt" "rt_started rt' = rt_started rt"
      "rt_stopped rt' = rt_stopped rt" "rt_trace rt' = rt_trace rt @ drop (length (rt_trace rt)) (rt_trace rt')"
      "process_events (drop (length (rt_trace rt)) (rt_trace rt')) = []" "rt_inv rt \<Longrightarrow> rt_started rt \<Longrightarrow> rt_inv rt'"
  | "e \<noteq> None" "rt' = abortWorkers W sched rt"
  using assms that
  by (cases e) (auto simp: start_server_def rt_inv_def split: if_splits sum.splits)

text \<open>The state in which the launch loop starts.\<close>

lemma Start_prepared:
  assumes "rt_inv rt" and "\<not> rt_started rt"
    and b: "buildConfiguredQueues fs (rt\<lparr>rt_started := True\<rparr>) = (None, rt1)"
    and rt2: "rt2 = warnPoolSize (registeredQueues rt1) rt1"
  shows "rt_inv rt2 \<and> rt_started rt2 \<and> rt_workers rt2 = [] \<and> rt_cfg rt2 = rt_cfg rt \<and>
    rt_stopped rt2 = rt_stopped rt \<and> rt_srv rt2 = rt_srv rt \<and>
    set (rt_order rt2) = set (rt_order rt) \<union> set (map qc_name (cf_queues (rt_cfg rt))) \<and>
    (\<exists>tr. rt_trace rt2 = rt_trace rt @ tr \<and> process_events tr = [])"
proof -
  let ?rt = "rt\<lparr>rt_started := True\<rparr>"
  have bq: "build_queues fs (cf_queues (rt_cfg rt)) ?rt = (None, rt1)"
    using b by (simp add: buildConfiguredQueues_def)
  note fr = shell_sel [OF conjunct1 [OF build_queues_frame [OF bq]]]
  have "set (rt_order rt1) = set (rt_order rt) \<union> set (map qc_name (cf_queues (rt_cfg rt)))"
  proof -
    have "code_registered rt q \<Longrightarrow> q \<in> set (rt_order rt)" for q
      using assms(1) by (auto simp: rt_inv_def registry_ok_def code_registered_def split: option.splits)
    moreover have "code_registered ?rt = code_registered rt" by (simp add: code_registered_def fun_eq_iff)
    ultimately show ?thesis using build_queues_order [OF bq] by auto
  qed
  moreover have "\<exists>tr. rt_trace rt2 = rt_trace rt @ tr \<and> process_events tr = []"
    using build_queues_no_process [OF bq] warnPoolSize_no_process [of "registeredQueues rt1" rt1] rt2
    by fastforce
  moreover have "rt_inv rt1" using buildConfiguredQueues_inv [OF b] assms(1) by simp
  moreover have "rt_workers rt = []" using assms(1,2) by (auto simp: rt_inv_def)
  ultimately show ?thesis using fr rt2 by simp
qed

lemma start_workers_inv:
  assumes "rt_inv rt" "rt_started rt" "set names \<subseteq> set (rt_order rt)"
    "distinct (map fst (rt_workers rt) @ names)"
    and "start_workers W sched names rt = Some (e, rt')"
  shows "rt_inv rt'"
  using assms
proof (induction names arbitrary: rt)
  case (Cons name names)
  have ok: "registry_ok (rt_registry rt) (rt_order rt)" "name \<in> set (rt_order rt)"
    using Cons.prems(1,3) by (simp_all add: rt_inv_def)
  note sw = start_workers_Cons [OF ok, of W sched names]
  show ?case
  proof (cases "launch W rt name")
    case (Inl e)
    then show ?thesis using sw Cons.prems(1,5) by (auto intro!: abortWorkers_inv simp del: start_workers.simps)
  next
    case (Inr w)
    let ?rt = "rt\<lparr>rt_workers := rt_workers rt @ [(name, w)]\<rparr>"
    have "rt_inv ?rt" using Cons.prems by (auto simp: rt_inv_def)
    then show ?thesis using Cons.IH [of "emit _ ?rt"] sw Inr Cons.prems(2-5)
      by (auto simp del: start_workers.simps)
  qed
qed simp

text \<open>The stage at which a first \<open>Start\<close> ends.\<close>

definition prepared :: "'v runtime \<Rightarrow> 'v runtime \<Rightarrow> bool" where
  "prepared rt rt2 \<longleftrightarrow>
     rt_inv rt2 \<and> rt_started rt2 \<and> rt_workers rt2 = [] \<and> rt_cfg rt2 = rt_cfg rt \<and>
     rt_stopped rt2 = rt_stopped rt \<and> rt_srv rt2 = rt_srv rt \<and>
     set (rt_order rt2) = set (rt_order rt) \<union> set (map qc_name (cf_queues (rt_cfg rt))) \<and>
     (\<exists>tr. rt_trace rt2 = rt_trace rt @ tr \<and> process_events tr = [])"

lemma Start_stages:
  assumes "rt_inv rt" and "\<not> rt_started rt"
  obtains (built) e rt1 where "Start W fs sched rt = Some (Some e, rt1)"
      "buildConfiguredQueues fs (rt\<lparr>rt_started := True\<rparr>) = (Some e, rt1)"
  | (none) e rt1 where "Start W fs sched rt = Some (Some e, rt1)"
      "buildConfiguredQueues fs (rt\<lparr>rt_started := True\<rparr>) = (None, rt1)"
  | (launched) e rt2 rt3 where "Start W fs sched rt = Some (Some e, rt3)" "prepared rt rt2"
      "start_workers W sched (registeredQueues rt2) rt2 = Some (Some e, rt3)"
  | (served) e rt2 rt3 rt4 where "Start W fs sched rt = Some (e, rt4)" "prepared rt rt2"
      "start_workers W sched (registeredQueues rt2) rt2 = Some (None, rt3)"
      "start_server W sched rt3 = (e, rt4)" "registeredQueues rt2 \<noteq> []"
proof -
  obtain b rt1 where b: "buildConfiguredQueues fs (rt\<lparr>rt_started := True\<rparr>) = (b, rt1)" by fastforce
  show thesis
  proof (cases b)
    case (Some e)
    then show thesis using built b assms(2) by (simp add: Start_def)
  next
    case None
    define rt2 where "rt2 = warnPoolSize (registeredQueues rt1) rt1"
    have p: "prepared rt rt2"
      unfolding prepared_def by (rule Start_prepared [OF assms b [unfolded None] rt2_def])
    have n2: "registeredQueues rt2 = registeredQueues rt1" by (simp add: rt2_def)
    have "registry_ok (rt_registry rt2) (rt_order rt2)"
      "set (registeredQueues rt2) \<subseteq> set (rt_order rt2)"
      using p by (simp_all add: prepared_def rt_inv_def registeredQueues_set)
    then obtain e rt3 where sw: "start_workers W sched (registeredQueues rt2) rt2 = Some (e, rt3)"
      using start_workers_run [of rt2 "registeredQueues rt2" W sched] by blast
    have eq: "Start W fs sched rt =
        (if registeredQueues rt1 = []
         then Some (Some (Errorf ''mkqd: no queues registered; declare queues in the config or call Handle'' []), rt1)
         else case e of Some e' \<Rightarrow> Some (Some e', rt3) | None \<Rightarrow> Some (start_server W sched rt3))"
      using assms(2) b None sw n2 unfolding Start_def rt2_def by (simp add: Let_def split: option.splits)
    obtain e4 rt4 where "start_server W sched rt3 = (e4, rt4)" by fastforce
    then show thesis
      using eq p sw n2 none [OF _ b [unfolded None]] launched served
      by (cases "registeredQueues rt1 = []"; cases e) simp_all
  qed
qed

lemma launched_inv:
  assumes p: "prepared rt rt2"
    and sw: "start_workers W sched (registeredQueues rt2) rt2 = Some (e, rt3)"
  shows "rt_inv rt3 \<and> rt_started rt3"
proof -
  have "rt_inv rt2" "rt_started rt2" "rt_workers rt2 = []" using p by (simp_all add: prepared_def)
  moreover from this have "rt_inv rt3"
    by (intro start_workers_inv [OF _ _ _ _ sw]) (simp_all add: registeredQueues_set registeredQueues_distinct)
  ultimately show ?thesis
    using start_workers_run [of rt2 "registeredQueues rt2" W sched] sw
    by (auto simp: rt_inv_def registeredQueues_set)
qed

lemma Start_total_inv:
  assumes "rt_inv rt"
  shows "\<exists>e rt'. Start W fs sched rt = Some (e, rt') \<and> rt_inv rt' \<and> rt_started rt'"
proof (cases "rt_started rt")
  case True
  then show ?thesis using assms by (simp add: Start_def)
next
  case False
  have bi: "rt_inv rt1 \<and> rt_started rt1"
    if "buildConfiguredQueues fs (rt\<lparr>rt_started := True\<rparr>) = (e, rt1)" for e rt1
    using buildConfiguredQueues_inv [OF that] assms
      shell_sel(7) [OF conjunct1 [OF build_queues_frame [OF that [unfolded buildConfiguredQueues_def]]]]
    by simp
  note si = launched_inv
  show ?thesis
    using assms False
  proof (cases rule: Start_stages [where W = W and fs = fs and sched = sched])
    case (served e rt2 rt3 rt4)
    note i3 = si [OF served(2,3)]
    have "rt_inv rt4 \<and> rt_started rt4" using served(4)
      by (cases rule: start_server_cases) (use i3 abortWorkers_inv in auto)
    then show ?thesis using served(1) by blast
  qed (use bi si in blast)+
qed

lemma launched_ok:
  assumes p: "prepared rt rt2"
    and sw: "start_workers W sched (registeredQueues rt2) rt2 = Some (None, rt3)"
  shows "rt_workers rt3 = map (\<lambda>n. (n, projr (launch W rt3 n))) (registeredQueues rt3) \<and>
    rt_order rt3 = rt_order rt2 \<and> rt_cfg rt3 = rt_cfg rt2 \<and> rt_srv rt3 = rt_srv rt2 \<and>
    rt_stopped rt3 = rt_stopped rt2 \<and> list_all (\<lambda>n. \<not> isl (launch W rt3 n)) (registeredQueues rt3) \<and>
    (\<exists>tr. rt_trace rt3 = rt_trace rt @ tr \<and>
       process_events tr = map (\<lambda>n. EvProcess n (launch_options rt3 n)) (registeredQueues rt3))"
proof -
  have ok: "registry_ok (rt_registry rt2) (rt_order rt2)" "set (registeredQueues rt2) \<subseteq> set (rt_order rt2)"
    and w0: "rt_workers rt2 = []"
    using p by (simp_all add: prepared_def rt_inv_def registeredQueues_set)
  obtain tr0 where t0: "rt_trace rt2 = rt_trace rt @ tr0" "process_events tr0 = []"
    using p by (auto simp: prepared_def)
  let ?ok = "\<lambda>n. \<not> isl (launch W rt2 n)"
  obtain tr where run: "rt_cfg rt3 = rt_cfg rt2" "rt_registry rt3 = rt_registry rt2"
      "rt_order rt3 = rt_order rt2" "rt_stopped rt3 = rt_stopped rt2" "rt_srv rt3 = rt_srv rt2"
      "rt_workers rt3 = map (\<lambda>n. (n, projr (launch W rt2 n))) (registeredQueues rt2)"
      "list_all ?ok (registeredQueues rt2)" "rt_trace rt3 = rt_trace rt2 @ tr"
      "process_events tr = map (\<lambda>n. EvProcess n (launch_options rt2 n))
         (takeWhile ?ok (registeredQueues rt2) @ take 1 (dropWhile ?ok (registeredQueues rt2)))"
    using start_workers_run [OF ok, of W sched] sw w0 by (auto simp: Let_def)
  have "launch_options rt3 = launch_options rt2" "launch W rt3 = launch W rt2"
    using launch_cong [of rt3 rt2 W] run by simp_all
  moreover have "registeredQueues rt3 = registeredQueues rt2" using run by (simp add: registeredQueues_def)
  moreover have tw: "takeWhile ?ok (registeredQueues rt2) = registeredQueues rt2"
    "dropWhile ?ok (registeredQueues rt2) = []" using run(7) by (simp_all add: list_all_iff)
  have "process_events tr = map (\<lambda>n. EvProcess n (launch_options rt2 n)) (registeredQueues rt2)"
    using run(9) by (simp add: tw)
  ultimately show ?thesis using run(1-8) t0 by simp
qed

lemma launched_failed:
  assumes p: "prepared rt rt2"
    and sw: "start_workers W sched (registeredQueues rt2) rt2 = Some (Some e, rt3)"
  shows "rt_workers rt3 = [] \<and> rt_srv rt3 = rt_srv rt \<and> rt_stopped rt3 = rt_stopped rt \<and>
    (\<exists>tr. rt_trace rt3 = rt_trace rt @ tr \<and>
       (\<forall>q os w. EvProcess q os \<in> set tr \<longrightarrow> launch W rt3 q = Inr w \<longrightarrow>
          EvStop w (WithTimeout Background defaultUnwindGrace) \<in> set (rt_trace rt3)))"
proof -
  have ok: "registry_ok (rt_registry rt2) (rt_order rt2)" "set (registeredQueues rt2) \<subseteq> set (rt_order rt2)"
    and w0: "rt_workers rt2 = []" and g: "rt_unwind_grace rt2 = defaultUnwindGrace"
    using p by (simp_all add: prepared_def rt_inv_def registeredQueues_set)
  let ?names = "registeredQueues rt2" and ?ok = "\<lambda>n. \<not> isl (launch W rt2 n)"
  obtain tr0 where t0: "rt_trace rt2 = rt_trace rt @ tr0" "process_events tr0 = []"
    using p by (auto simp: prepared_def)
  obtain tr where run: "rt_cfg rt3 = rt_cfg rt2" "rt_registry rt3 = rt_registry rt2"
      "rt_stopped rt3 = rt_stopped rt2" "rt_srv rt3 = rt_srv rt2" "rt_workers rt3 = []"
      "rt_trace rt3 = rt_trace rt2 @ tr"
      "process_events tr = map (\<lambda>n. EvProcess n (launch_options rt2 n))
         (takeWhile ?ok ?names @ take 1 (dropWhile ?ok ?names))"
    and stops: "\<And>n. n \<in> set (takeWhile ?ok ?names) \<Longrightarrow>
       EvStop (projr (launch W rt2 n)) (WithTimeout Background defaultUnwindGrace) \<in> set (rt_trace rt3)"
    using start_workers_run [OF ok, of W sched] sw w0 g by (fastforce simp: Let_def)
  have lc: "launch W rt3 = launch W rt2" using launch_cong [of rt3 rt2 W] run by simp
  have "EvStop w (WithTimeout Background defaultUnwindGrace) \<in> set (rt_trace rt3)"
    if "EvProcess q os \<in> set (tr0 @ tr)" "launch W rt3 q = Inr w" for q os w
  proof -
    have "EvProcess q os \<in> set (process_events tr)"
      using that(1) t0(2) process_events_mem [of q os tr0] process_events_mem [of q os tr] by auto
    then have "q \<in> set (takeWhile ?ok ?names) \<or> q \<in> set (take 1 (dropWhile ?ok ?names))"
      using run(7) by auto
    moreover have "q \<notin> set (take 1 (dropWhile ?ok ?names))"
    proof
      assume q: "q \<in> set (take 1 (dropWhile ?ok ?names))"
      then obtain xs where "dropWhile ?ok ?names = q # xs"
        by (cases "dropWhile ?ok ?names") auto
      then have "\<not> ?ok q" unfolding dropWhile_eq_Cons_conv by blast
      then show False using that(2) lc by simp
    qed
    ultimately show ?thesis using stops [of q] that(2) lc by simp
  qed
  moreover have "rt_trace rt3 = rt_trace rt @ (tr0 @ tr)" using run t0 by simp
  moreover have "rt_srv rt3 = rt_srv rt" "rt_stopped rt3 = rt_stopped rt"
    using run p by (simp_all add: prepared_def)
  ultimately show ?thesis using run(5) by blast
qed

lemma aborted_after_launch:
  assumes p: "prepared rt rt2"
    and sw: "start_workers W sched (registeredQueues rt2) rt2 = Some (None, rt3)"
    and rt4: "rt4 = abortWorkers W sched rt3"
  shows "\<exists>tr. rt_trace rt4 = rt_trace rt @ tr \<and>
       (\<forall>q os w. EvProcess q os \<in> set tr \<longrightarrow> launch W rt4 q = Inr w \<longrightarrow>
          EvStop w (WithTimeout Background (rt_unwind_grace rt3)) \<in> set (rt_trace rt4))"
proof -
  note ok = launched_ok [OF p sw]
  obtain tr where tr: "rt_trace rt3 = rt_trace rt @ tr"
    "process_events tr = map (\<lambda>n. EvProcess n (launch_options rt3 n)) (registeredQueues rt3)"
    using ok by blast
  obtain tr' where tr': "rt_trace rt4 = rt_trace rt3 @ tr'" "process_events tr' = []"
    using abortWorkers_trace [of W sched rt3] rt4 by blast
  have lc: "launch W rt4 = launch W rt3" using launch_cong [of rt4 rt3 W] rt4 by simp
  have "EvStop w (WithTimeout Background (rt_unwind_grace rt3)) \<in> set (rt_trace rt4)"
    if "EvProcess q os \<in> set (tr @ tr')" "launch W rt4 q = Inr w" for q os w
  proof -
    have "EvProcess q os \<in> set (process_events tr)"
      using that(1) tr'(2) process_events_mem [of q os tr] process_events_mem [of q os tr'] by auto
    then have "q \<in> set (registeredQueues rt3)" using tr(2) by auto
    then have "(q, w) \<in> set (rt_workers rt3)" using ok that(2) lc by force
    then show ?thesis using abortWorkers_stops rt4 by simp
  qed
  then show ?thesis using tr(1) tr'(1) by auto
qed

text \<open>Workers run after \<open>Start\<close> exactly when it succeeded.\<close>

lemma Start_outcome:
  assumes "rt_inv rt" and "\<not> rt_started rt" and "Start W fs sched rt = Some (e, rt')"
  shows "rt_stopped rt' = rt_stopped rt \<and> (e = None \<longleftrightarrow> rt_workers rt' \<noteq> [])"
proof -
  have w0: "rt_workers rt = []" using assms(1,2) by (auto simp: rt_inv_def)
  have early: "rt_workers rt' = [] \<and> rt_stopped rt' = rt_stopped rt"
    if "buildConfiguredQueues fs (rt\<lparr>rt_started := True\<rparr>) = (e', rt')" for e'
    using w0 shell_sel [OF conjunct1 [OF build_queues_frame [OF that [unfolded buildConfiguredQueues_def]]]]
    by simp
  show ?thesis using assms(1,2)
  proof (cases rule: Start_stages [where W = W and fs = fs and sched = sched])
    case (launched e rt2 rt3)
    then show ?thesis using launched_failed [OF launched(2,3)] assms(3) by simp
  next
    case (served e2 rt2 rt3 rt4)
    note ok = launched_ok [OF served(2,3)]
    have "registeredQueues rt3 \<noteq> []" using ok served(5) by (simp add: registeredQueues_def)
    then have "rt_workers rt3 \<noteq> []" "rt_stopped rt3 = rt_stopped rt" using ok served(2) by (simp_all add: prepared_def)
    then show ?thesis using served(1,4) assms(3)
      by (cases rule: start_server_cases [OF served(4)]) simp_all
  qed (use assms(3) early in simp_all)
qed

section \<open>Stopping\<close>

definition drain_threads :: "'v world \<Rightarrow> go_ctx \<Rightarrow> 'v runtime \<Rightarrow> event list list" where
  "drain_threads W ctx rt = map (\<lambda>rw. fst (drainWorker W (rt_unwind_grace rt) ctx rw)) (rt_workers rt)"

lemma stopWorkers_eq:
  "stopWorkers W sched ctx rt =
     (errors_join (map (\<lambda>rw. snd (drainWorker W (rt_unwind_grace rt) ctx rw)) (rt_workers rt)),
      emit (interleave sched (drain_threads W ctx rt)) (rt\<lparr>rt_workers := []\<rparr>))"
proof -
  have "interleave sched [] = ([] :: event list)" by (induction sched) simp_all
  then show ?thesis
    by (cases "rt_workers rt = []")
      (simp_all add: stopWorkers_def Let_def drain_threads_def comp_def emit_def errors_join_def)
qed

lemma close_server_sel:
  assumes "close_server W ctx rt = (e, rt')"
  shows "\<exists>es. rt' = emit es rt \<and> set es \<subseteq> {EvServerShutdown ctx, EvServerClose}"
proof (cases "rt_srv rt")
  case None
  then have "rt' = emit [] rt" using assms by (simp add: close_server_def emit_def)
  then show ?thesis by (intro exI [of _ "[]"]) simp
next
  case (Some a)
  then have "rt' = emit (snd (healthServer_Close W ctx)) rt"
    using assms by (auto simp: close_server_def split: prod.splits)
  then show ?thesis
    by (intro exI [of _ "snd (healthServer_Close W ctx)"])
      (auto simp: healthServer_Close_def split: option.splits if_splits)
qed

lemma Shutdown_run:
  assumes "rt_inv rt" and "\<not> rt_once rt"
  shows "\<exists>err pre post. Shutdown W sched ctx rt = (err,
      emit (pre @ interleave sched (drain_threads W ctx rt) @ [EvClientClose, EvRedisClose] @ post)
        (rt\<lparr>rt_workers := [], rt_stopped := True, rt_stop_err := err, rt_once := True\<rparr>)) \<and>
    set pre \<subseteq> {EvServerShutdown ctx, EvServerClose} \<and>
    set post \<subseteq> {EvLog (LogInfo, ''mkqd stopped'')}"
proof -
  obtain e1 rt1 where c: "close_server W ctx rt = (e1, rt1)" by fastforce
  then obtain es where es: "rt1 = emit es rt" "set es \<subseteq> {EvServerShutdown ctx, EvServerClose}"
    using close_server_sel by blast
  have th: "drain_threads W ctx rt1 = drain_threads W ctx rt" by (simp add: es drain_threads_def)
  obtain x y where xy: "rt_client rt = Some x" "rt_rdb rt = Some y" using assms(1) by (auto simp: rt_inv_def)
  define err where "err = fst (Shutdown W sched ctx rt)"
  have "Shutdown W sched ctx rt = (err,
      emit (es @ interleave sched (drain_threads W ctx rt) @ [EvClientClose, EvRedisClose] @
              (if err = None then [EvLog (LogInfo, ''mkqd stopped'')] else []))
        (rt\<lparr>rt_workers := [], rt_stopped := True, rt_stop_err := err, rt_once := True\<rparr>))"
    unfolding err_def using assms(2) c th es(1) xy
    by (auto simp: Shutdown_def stopWorkers_eq close_clients_def Let_def emit_def)
  then show ?thesis using es(2) by fastforce
qed

lemma Shutdown_inv: "rt_inv rt \<Longrightarrow> rt_inv (snd (Shutdown W sched ctx rt))"
proof (cases "rt_once rt")
  case True
  then show "rt_inv rt \<Longrightarrow> ?thesis" by (simp add: Shutdown_def)
next
  case False
  assume "rt_inv rt"
  with Shutdown_run [OF this False, of W sched ctx] show ?thesis by (auto simp: rt_inv_def)
qed

lemma Check_inv: "Check W fs ctx rt = (e, rt') \<Longrightarrow> rt_inv rt \<Longrightarrow> rt_inv rt'"
  by (auto simp: Check_def split: option.splits dest: buildConfiguredQueues_inv)

section \<open>Reachable states\<close>

text \<open>The calls an embedding program can make, in any order and any number.\<close>

inductive rt_step :: "'v world \<Rightarrow> 'v executor executor_factory factories \<Rightarrow> 'v runtime \<Rightarrow> 'v runtime \<Rightarrow> bool"
  for W fs where
  step_handle: "Handle q h opts rt = Inr rt' \<Longrightarrow> rt_step W fs rt rt'"
| step_handle_executor: "HandleExecutor q ex opts rt = Inr rt' \<Longrightarrow> rt_step W fs rt rt'"
| step_check: "Check W fs ctx rt = (e, rt') \<Longrightarrow> rt_step W fs rt rt'"
| step_start: "Start W fs sched rt = Some (e, rt') \<Longrightarrow> rt_step W fs rt rt'"
| step_shutdown: "Shutdown W sched ctx rt = (e, rt') \<Longrightarrow> rt_step W fs rt rt'"

inductive reachable :: "'v world \<Rightarrow> 'v executor executor_factory factories \<Rightarrow> 'v runtime \<Rightarrow> bool"
  for W fs where
  reach_new: "New W cfg = Inr rt \<Longrightarrow> reachable W fs rt"
| reach_step: "reachable W fs rt \<Longrightarrow> rt_step W fs rt rt' \<Longrightarrow> reachable W fs rt'"

lemma rt_step_inv: "rt_step W fs rt rt' \<Longrightarrow> rt_inv rt \<Longrightarrow> rt_inv rt'"
proof (induction rule: rt_step.induct)
  case (step_start sched rt e rt')
  then show ?case using Start_total_inv [of rt W fs sched] by auto
next
  case (step_shutdown sched ctx rt e rt')
  then show ?case using Shutdown_inv [of rt W sched ctx] by simp
qed (auto intro: Handle_inv HandleExecutor_inv Check_inv)

lemma reachable_inv: "reachable W fs rt \<Longrightarrow> rt_inv rt"
  by (induction rule: reachable.induct) (auto dest: New_inv rt_step_inv)

section \<open>Properties\<close>

text \<open>
  C1: Whatever sequence of registrations, checks, starts and shutdowns an embedding program
  makes on a runtime built by \<open>New\<close>, and whatever the queue library answers: the registry and
  the registration order name the same queues, every entry is filed under its own non-empty
  name with a handler to launch, at most one worker runs per queue, workers and the listener
  exist only after \<open>Start\<close>, and the configuration stays valid.  So \<open>Start\<close> never calls a nil
  starter: it returns.
\<close>
theorem runtime_invariant:
  assumes "reachable W fs rt"
  shows "rt_inv rt \<and> (\<exists>e rt'. Start W fs sched rt = Some (e, rt'))"
  using reachable_inv [OF assms] Start_total_inv by blast

text \<open>
  C3: A successful \<open>Start\<close> launches exactly one worker per queue, for the queues registered in
  code and those of the configuration file, in registration order, each with the options its
  resolved tuning gives; a \<open>Check\<close> beforehand, which files the configured queues a first
  time, does not make a queue start twice.
\<close>
theorem start_launches_each_queue_once:
  assumes "reachable W fs rt" and "\<not> rt_started rt" and "Start W fs sched rt = Some (None, rt')"
  shows "map fst (rt_workers rt') = registeredQueues rt' \<and> distinct (map fst (rt_workers rt')) \<and>
    set (map fst (rt_workers rt')) = set (rt_order rt) \<union> set (map qc_name (cf_queues (rt_cfg rt))) \<and>
    process_events (rt_trace rt') = process_events (rt_trace rt) @
      map (\<lambda>n. EvProcess n (workerOptionsFor (resolveTuning rt' (registry_get rt' n)))) (registeredQueues rt')"
  using reachable_inv [OF assms(1)] assms(2)
proof (cases rule: Start_stages [where W = W and fs = fs and sched = sched])
  case (served e rt2 rt3 rt4)
  then have e: "e = None" "rt4 = rt'" using assms(3) by simp_all
  note ok = launched_ok [OF served(2,3)]
  obtain tr where tr: "rt_trace rt3 = rt_trace rt @ tr"
    "process_events tr = map (\<lambda>n. EvProcess n (launch_options rt3 n)) (registeredQueues rt3)"
    using ok by blast
  show ?thesis using served(4)
  proof (cases rule: start_server_cases)
    case 1
    have rq: "registeredQueues rt' = registeredQueues rt3" using 1(4) e by (simp add: registeredQueues_def)
    have lo: "launch_options rt' = launch_options rt3" using launch_cong [of rt' rt3 W] 1 e by simp
    have "process_events (rt_trace rt') = process_events (rt_trace rt) @
        map (\<lambda>n. EvProcess n (launch_options rt' n)) (registeredQueues rt')"
      using 1(8,9) e tr rq lo
      by (metis append_Nil2 process_events_simps(2))
    moreover have "map fst (rt_workers rt') = registeredQueues rt'"
      using ok 1(2) e rq by (simp add: comp_def)
    moreover have "set (rt_order rt3) = set (rt_order rt) \<union> set (map qc_name (cf_queues (rt_cfg rt)))"
      using ok served(2) by (simp add: prepared_def)
    ultimately show ?thesis
      using registeredQueues_distinct [of rt'] registeredQueues_set [of rt3] rq
      by (simp add: launch_options_def)
  qed (use e in simp)
qed (use assms(3) in simp_all)

text \<open>
  C4: A \<open>Start\<close> that fails, because an executor cannot be built, a worker cannot be launched
  or the listener cannot bind, leaves no worker behind: the list is empty, no listener is up,
  and every worker launched by the failed call has been told to stop, with a deadline of its
  own, in whatever order the rollback goroutines ran.
\<close>
theorem failed_start_rolls_back:
  assumes "reachable W fs rt" and "\<not> rt_started rt" and "Start W fs sched rt = Some (Some e, rt')"
  shows "rt_workers rt' = [] \<and> rt_srv rt' = None \<and>
    (\<exists>tr. rt_trace rt' = rt_trace rt @ tr \<and>
       (\<forall>q os w. EvProcess q os \<in> set tr \<longrightarrow> launch W rt' q = Inr w \<longrightarrow>
          EvStop w (WithTimeout Background defaultUnwindGrace) \<in> set (rt_trace rt')))"
proof -
  have inv: "rt_inv rt" by (rule reachable_inv [OF assms(1)])
  then have w0: "rt_workers rt = []" "rt_srv rt = None" using assms(2) by (auto simp: rt_inv_def)
  have early: ?thesis if b: "buildConfiguredQueues fs (rt\<lparr>rt_started := True\<rparr>) = (e', rt')" for e'
  proof -
    note bq = b [unfolded buildConfiguredQueues_def]
    obtain tr where "rt_trace rt' = rt_trace rt @ tr" "process_events tr = []"
      using build_queues_no_process [OF bq] by auto
    then show ?thesis using w0 shell_sel [OF conjunct1 [OF build_queues_frame [OF bq]]]
        process_events_mem [of _ _ tr] by (auto intro!: exI [of _ tr])
  qed
  show ?thesis using inv assms(2)
  proof (cases rule: Start_stages [where W = W and fs = fs and sched = sched])
    case (launched e rt2 rt3)
    then show ?thesis using launched_failed [OF launched(2,3)] assms(3) w0 by simp
  next
    case (served e2 rt2 rt3 rt4)
    then have rt': "rt' = abortWorkers W sched rt3"
      using assms(3) by (cases rule: start_server_cases [OF served(4)]) simp_all
    have "rt_unwind_grace rt3 = defaultUnwindGrace"
      using launched_inv [OF served(2,3)] by (simp add: rt_inv_def)
    then show ?thesis using aborted_after_launch [OF served(2,3) rt'] rt' launched_ok [OF served(2,3)]
        served(2) w0 by (simp add: prepared_def)
  qed (use assms(3) early in simp_all)
qed

text \<open>
  C38: After a failed \<open>Start\<close> no worker is up, and yet \<open>isServing\<close> answers true until \<open>Shutdown\<close>
  has run to its end: it reports that \<open>Start\<close> was called, not that workers are up.
\<close>
theorem failed_start_reports_serving:
  assumes "reachable W fs rt" and "\<not> rt_started rt" and "\<not> rt_stopped rt"
    and "Start W fs sched rt = Some (Some e, rt')"
  shows "rt_workers rt' = [] \<and> isServing rt'"
proof -
  have inv: "rt_inv rt" by (rule reachable_inv [OF assms(1)])
  have "rt_started rt'" using Start_total_inv [OF inv, of W fs sched] assms(4) by auto
  then show ?thesis using Start_outcome [OF inv assms(2,4)] assms(3) by (simp add: isServing_def)
qed

lemma drain_thread_cases:
  "fst (drainWorker W g ctx rw) =
     EvDrain (snd rw) ctx #
     (if m_drain W (snd rw) ctx = None then []
      else [EvLog (LogWarn, ''drain budget expired; cancelling in-flight handlers''),
            EvStop (snd rw) (WithTimeout (WithoutCancel ctx) g)])"
  by (auto simp: drainWorker_def Let_def split: option.splits)

definition drain_events :: "event list \<Rightarrow> event list" where
  "drain_events tr = filter (\<lambda>e. case e of EvDrain _ _ \<Rightarrow> True | _ \<Rightarrow> False) tr"

lemma drain_events_threads:
  "mset (drain_events (interleave sched (drain_threads W ctx rt))) =
     mset (map (\<lambda>rw. EvDrain (snd rw) ctx) (rt_workers rt))"
proof -
  have "drain_events (concat (drain_threads W ctx rt)) = map (\<lambda>rw. EvDrain (snd rw) ctx) (rt_workers rt)"
    unfolding drain_threads_def drain_events_def
    by (induction "rt_workers rt" arbitrary: rt) (simp_all add: drain_thread_cases filter_concat comp_def)
  then show ?thesis
    unfolding drain_events_def mset_filter interleave_mset by (simp add: mset_filter [symmetric])
qed

lemma drain_then_stop:
  assumes "rw \<in> set (rt_workers rt)" and "m_drain W (snd rw) ctx \<noteq> None"
  shows "subseq [EvDrain (snd rw) ctx, EvStop (snd rw) (WithTimeout (WithoutCancel ctx) (rt_unwind_grace rt))]
           (interleave sched (drain_threads W ctx rt))"
proof -
  let ?t = "fst (drainWorker W (rt_unwind_grace rt) ctx rw)"
  have "?t \<in> set (drain_threads W ctx rt)" using assms(1) by (simp add: drain_threads_def)
  then have "subseq ?t (interleave sched (drain_threads W ctx rt))" by (rule interleave_subseq)
  moreover have "subseq [EvDrain (snd rw) ctx, EvStop (snd rw) (WithTimeout (WithoutCancel ctx) (rt_unwind_grace rt))] ?t"
    using assms(2) by (simp add: drain_thread_cases)
  ultimately show ?thesis using subseq_order.order_trans by blast
qed

text \<open>
  C2: The first \<open>Shutdown\<close> closes the listener, then drains every running worker exactly once,
  and closes the Redis clients only after that, however the drains interleave.  A worker whose
  drain runs out of budget is stopped between its own drain and the close, under a context
  that is cut off from the expired one and has its own grace period; no worker is left.
\<close>
theorem shutdown_drains_before_close:
  assumes "reachable W fs rt" and "\<not> rt_once rt"
  shows "\<exists>err rt' pre mid post. Shutdown W sched ctx rt = (err, rt') \<and>
    rt_trace rt' = rt_trace rt @ pre @ mid @ [EvClientClose, EvRedisClose] @ post \<and>
    set pre \<subseteq> {EvServerShutdown ctx, EvServerClose} \<and> set post \<subseteq> {EvLog (LogInfo, ''mkqd stopped'')} \<and>
    mset (drain_events mid) = mset (map (\<lambda>rw. EvDrain (snd rw) ctx) (rt_workers rt)) \<and>
    list_all (\<lambda>rw. m_drain W (snd rw) ctx = None \<or>
      subseq [EvDrain (snd rw) ctx, EvStop (snd rw) (WithTimeout (WithoutCancel ctx) defaultUnwindGrace)] mid)
      (rt_workers rt) \<and>
    rt_workers rt' = [] \<and> rt_stopped rt' \<and> rt_stop_err rt' = err"
proof -
  have inv: "rt_inv rt" by (rule reachable_inv [OF assms(1)])
  then have g: "rt_unwind_grace rt = defaultUnwindGrace" by (simp add: rt_inv_def)
  from Shutdown_run [OF inv assms(2), of W sched ctx] obtain err pre post where
    sh: "Shutdown W sched ctx rt = (err,
      emit (pre @ interleave sched (drain_threads W ctx rt) @ [EvClientClose, EvRedisClose] @ post)
        (rt\<lparr>rt_workers := [], rt_stopped := True, rt_stop_err := err, rt_once := True\<rparr>))"
    and pp: "set pre \<subseteq> {EvServerShutdown ctx, EvServerClose}" "set post \<subseteq> {EvLog (LogInfo, ''mkqd stopped'')}"
    by blast
  have "list_all (\<lambda>rw. m_drain W (snd rw) ctx = None \<or>
      subseq [EvDrain (snd rw) ctx, EvStop (snd rw) (WithTimeout (WithoutCancel ctx) defaultUnwindGrace)]
        (interleave sched (drain_threads W ctx rt))) (rt_workers rt)"
    unfolding list_all_iff using drain_then_stop [of _ rt W ctx sched] g by metis
  then show ?thesis using sh pp drain_events_threads [of sched W ctx rt]
    by (intro exI [of _ err] exI [of _ pre] exI [of _ post]
        exI [of _ "interleave sched (drain_threads W ctx rt)"] exI conjI) auto
qed

section \<open>One close per runtime\<close>

definition close_events :: "event list \<Rightarrow> event list" where
  "close_events tr = filter (\<lambda>e. e = EvClientClose \<or> e = EvRedisClose) tr"

definition quiet :: "'v runtime \<Rightarrow> 'v runtime \<Rightarrow> bool" where
  "quiet rt rt' \<longleftrightarrow> close_events (rt_trace rt') = close_events (rt_trace rt) \<and>
     rt_once rt' = rt_once rt \<and> rt_stop_err rt' = rt_stop_err rt"

lemma quiet_trans: "quiet a b \<Longrightarrow> quiet b c \<Longrightarrow> quiet a c"
  by (simp add: quiet_def)

lemma quiet_refl [simp]: "quiet a a"
  by (simp add: quiet_def)

lemma quiet_emit: "set es \<inter> {EvClientClose, EvRedisClose} = {} \<Longrightarrow> quiet rt (emit es rt)"
  by (auto simp: quiet_def close_events_def filter_empty_conv)

lemma quiet_abort: "quiet rt (abortWorkers W sched rt)"
  by (auto simp: abortWorkers_def quiet_def close_events_def filter_empty_conv interleave_set
      abort_worker_def split: if_splits)

lemma quiet_build: "build_queues fs qcs rt = (e, rt') \<Longrightarrow> quiet rt rt'"
proof (induction qcs arbitrary: rt)
  case (Cons qc qcs)
  obtain e1 rt1 where b: "build_queue fs qc rt = (e1, rt1)" by fastforce
  have "quiet rt rt1" using b
    by (auto simp: build_queue_def add_configured_def quiet_def close_events_def
        split: if_splits option.splits sum.splits)
  then show ?case using Cons b quiet_trans by (cases e1) auto
qed simp

lemma quiet_warn: "quiet rt (warnPoolSize names rt)"
  using warnPoolSize_cases [of names rt] by (auto simp: quiet_emit)

lemma quiet_start_workers: "start_workers W sched names rt = Some (e, rt') \<Longrightarrow> quiet rt rt'"
proof (induction names arbitrary: rt)
  case (Cons name names)
  define r where "r = registry_get rt name"
  define opts where "opts = workerOptionsFor (resolveTuning rt r)"
  obtain h where h: "rg_start r = Some h"
    using Cons.prems by (auto simp: Let_def r_def split: option.splits)
  have q: "quiet rt (emit [EvProcess (rg_queue r) opts] rt)" by (rule quiet_emit) simp
  show ?case
  proof (cases "m_process W (rg_queue r) h opts")
    case (Inl e')
    then have "rt' = abortWorkers W sched (emit [EvProcess (rg_queue r) opts] rt)"
      using Cons.prems h by (simp add: Let_def r_def opts_def)
    then show ?thesis using quiet_trans [OF q quiet_abort] by simp
  next
    case (Inr w)
    let ?rt = "emit [EvLog (LogInfo, ''queue started'')]
      ((emit [EvProcess (rg_queue r) opts] rt)\<lparr>rt_workers := rt_workers rt @ [(name, w)]\<rparr>)"
    have "start_workers W sched names ?rt = Some (e, rt')"
      using Cons.prems h Inr by (simp add: Let_def r_def opts_def)
    moreover have "quiet rt ?rt" by (simp add: quiet_def close_events_def)
    ultimately show ?thesis using Cons.IH quiet_trans by blast
  qed
qed simp

lemma quiet_start_server: "start_server W sched rt = (e, rt') \<Longrightarrow> quiet rt rt'"
  by (auto simp: start_server_def quiet_abort quiet_def close_events_def split: if_splits sum.splits)
    (simp_all add: quiet_abort [unfolded quiet_def close_events_def])

lemma quiet_Start:
  assumes "Start W fs sched rt = Some (e, rt')"
  shows "quiet rt rt'"
proof (cases "rt_started rt")
  case True
  then show ?thesis using assms by (simp add: Start_def)
next
  case False
  obtain b rt1 where b: "buildConfiguredQueues fs (rt\<lparr>rt_started := True\<rparr>) = (b, rt1)" by fastforce
  have "quiet rt (rt\<lparr>rt_started := True\<rparr>)" by (simp add: quiet_def)
  then have q1: "quiet rt rt1" using quiet_build [OF b [unfolded buildConfiguredQueues_def]] quiet_trans by blast
  show ?thesis
  proof (cases "b = None \<and> registeredQueues rt1 \<noteq> []")
    case True
    then obtain e2 rt2 where sw: "start_workers W sched (registeredQueues rt1) (warnPoolSize (registeredQueues rt1) rt1) = Some (e2, rt2)"
      using assms False b by (auto simp: Start_def Let_def split: option.splits)
    have q2: "quiet rt rt2" using q1 quiet_warn quiet_start_workers [OF sw] quiet_trans by blast
    show ?thesis
    proof (cases e2)
      case None
      then have "start_server W sched rt2 = (e, rt')" using assms False b True sw by (simp add: Start_def Let_def)
      then show ?thesis using q2 quiet_start_server quiet_trans by blast
    qed (use assms False b True sw q2 in \<open>simp add: Start_def Let_def\<close>)
  next
    case none: False
    then show ?thesis using assms False b q1 by (cases b) (auto simp: Start_def Let_def)
  qed
qed

lemma quiet_register: "register r rt = Inr rt' \<Longrightarrow> quiet rt rt'"
  by (auto simp: register_def quiet_def split: if_splits)

lemma quiet_Check: "Check W fs ctx rt = (e, rt') \<Longrightarrow> quiet rt rt'"
  by (auto simp: Check_def buildConfiguredQueues_def split: option.splits intro: quiet_build)

definition closed_once :: "'v runtime \<Rightarrow> bool" where
  "closed_once rt \<longleftrightarrow>
     close_events (rt_trace rt) = (if rt_once rt then [EvClientClose, EvRedisClose] else [])"

lemma quiet_closed_once: "quiet rt rt' \<Longrightarrow> closed_once rt \<Longrightarrow> closed_once rt'"
  by (simp add: quiet_def closed_once_def)

lemma close_events_threads: "close_events (interleave sched (drain_threads W ctx rt)) = []"
  by (auto simp: close_events_def filter_empty_conv interleave_set drain_threads_def drain_thread_cases
      split: if_splits)

lemma Shutdown_closed_once:
  assumes "rt_inv rt" and "closed_once rt" and sh: "Shutdown W sched ctx rt = (e, rt')"
  shows "closed_once rt'"
proof (cases "rt_once rt")
  case True
  then show ?thesis using assms by (simp add: Shutdown_def)
next
  case False
  from Shutdown_run [OF assms(1) False, of W sched ctx] sh obtain pre post where
    "rt_once rt'" "rt_trace rt' = rt_trace rt @ pre @ interleave sched (drain_threads W ctx rt) @
       [EvClientClose, EvRedisClose] @ post"
    and pp: "set pre \<subseteq> {EvServerShutdown ctx, EvServerClose}" "set post \<subseteq> {EvLog (LogInfo, ''mkqd stopped'')}"
    by auto
  moreover have "close_events pre = []" "close_events post = []"
    using pp by (auto simp: close_events_def filter_empty_conv)
  ultimately show ?thesis
    using assms(2) False close_events_threads [of sched W ctx rt] by (simp add: closed_once_def close_events_def)
qed

lemma reachable_closed_once: "reachable W fs rt \<Longrightarrow> closed_once rt"
proof (induction rule: reachable.induct)
  case (reach_new cfg rt)
  then show ?case
    by (auto simp: New_def Let_def closed_once_def close_events_def split: option.splits sum.splits)
next
  case (reach_step rt rt')
  from reach_step.hyps(2) show ?case
  proof (cases rule: rt_step.cases)
    case (step_shutdown sched ctx e)
    then show ?thesis using Shutdown_closed_once reachable_inv reach_step by blast
  qed (use reach_step.IH quiet_closed_once quiet_register quiet_Check quiet_Start in
      \<open>(fastforce simp: Handle_def HandleExecutor_def split: option.splits)+\<close>)
qed

text \<open>
  C24: \<open>Shutdown\<close> is idempotent: over any life of a runtime the two Redis clients are closed at
  most once, client before probe, and once a shutdown has run every further one returns its
  error and changes nothing, whatever its context.
\<close>
theorem shutdown_idempotent:
  assumes "reachable W fs rt"
  shows "close_events (rt_trace rt) = (if rt_once rt then [EvClientClose, EvRedisClose] else []) \<and>
    (Shutdown W sched ctx rt = (err, rt') \<longrightarrow> Shutdown W sched' ctx' rt' = (err, rt'))"
proof -
  have "rt_once rt' \<and> rt_stop_err rt' = err" if "Shutdown W sched ctx rt = (err, rt')"
  proof (cases "rt_once rt")
    case True
    then show ?thesis using that by (auto simp: Shutdown_def)
  next
    case False
    then show ?thesis using that Shutdown_run [OF reachable_inv [OF assms] False, of W sched ctx] by auto
  qed
  then show ?thesis using reachable_closed_once [OF assms] by (auto simp: closed_once_def Shutdown_def)
qed

text \<open>
  C22: Building the configured queues never touches a queue that code has registered: its
  handler and its options stay, whatever the file says about its executor; every other queue
  of the file ends up with an executor or the whole build fails.  Operators can still tune a queue of the program: the tuning of its block in
  the file applies on top of the options given in code.
\<close>
theorem code_handler_wins:
  assumes "reachable W fs rt" and "buildConfiguredQueues fs rt = (e, rt')"
  shows "(\<forall>q r. rt_registry rt q = Some r \<and> rg_from_code r \<longrightarrow>
            rt_registry rt' q = Some r \<and>
            resolveTuning rt' r = resolve_queue_tuning (rt_cfg rt) q (rg_tune r)) \<and>
    (e = None \<longrightarrow> list_all (\<lambda>qc. rt_registry rt' (qc_name qc) \<noteq> None) (cf_queues (rt_cfg rt)))"
proof -
  have inv: "rt_inv rt" by (rule reachable_inv [OF assms(1)])
  have bq: "build_queues fs (cf_queues (rt_cfg rt)) rt = (e, rt')"
    using assms(2) by (simp add: buildConfiguredQueues_def)
  note fr = build_queues_frame [OF bq]
  have "rt_registry rt' q = Some r \<and> resolveTuning rt' r = resolve_queue_tuning (rt_cfg rt) q (rg_tune r)"
    if "rt_registry rt q = Some r" "rg_from_code r" for q r
  proof -
    have "rg_queue r = q" using inv that(1) by (simp add: rt_inv_def registry_ok_def)
    moreover have "code_registered rt q" using that by (simp add: code_registered_def)
    ultimately show ?thesis
      using fr that(1) shell_sel(1) [OF conjunct1 [OF fr]] by (simp add: resolveTuning_def)
  qed
  moreover have "rt_registry rt' (qc_name qc) \<noteq> None" if "e = None" "qc \<in> set (cf_queues (rt_cfg rt))" for qc
  proof -
    have ok: "registry_ok (rt_registry rt') (rt_order rt')"
      using buildConfiguredQueues_inv [OF assms(2) inv] by (simp add: rt_inv_def)
    show ?thesis
    proof (cases "code_registered rt (qc_name qc)")
      case True
      then show ?thesis using fr by (auto simp: code_registered_def split: option.splits)
    next
      case False
      then have "qc_name qc \<in> set (rt_order rt')"
        using build_queues_order [OF bq [unfolded that(1)]] that(2) by auto
      then show ?thesis using registry_ok_get [OF ok] by auto
    qed
  qed
  ultimately show ?thesis by (auto simp: list_all_iff)
qed

lemma loaded_timeout_positive:
  "rt_inv rt \<Longrightarrow> 0 < sint (cf_shutdown_timeout (rt_cfg rt))"
  using applyDefaults_nonzero [of "rt_cfg rt"]
  by (auto simp: rt_inv_def config_ok_def signed_eq_0_iff order.strict_iff_order)

text \<open>
  C23: \<open>Run\<close>, once its \<open>Start\<close> has succeeded, returns with no worker left, and gives in-flight
  jobs their full budget: every drain it makes runs under a context that is not done when it
  is made, even though the signal has cancelled the context \<open>Run\<close> was given, and so does
  every stop that follows a drain.
\<close>
theorem run_grants_budget:
  assumes "reachable W fs rt" and "\<not> rt_started rt" and "\<not> rt_once rt"
    and "Start W fs sched1 rt = Some (None, rt1)"
  shows "\<exists>err rt' tr. Run W fs sched1 sched2 ctx rt = Some (err, rt') \<and> rt_workers rt' = [] \<and>
    rt_trace rt' = rt_trace rt1 @ tr \<and>
    mset (drain_events tr) =
      mset (map (\<lambda>rw. EvDrain (snd rw) (WithTimeout (WithoutCancel ctx) (cf_shutdown_timeout (rt_cfg rt1))))
        (rt_workers rt1)) \<and>
    (\<forall>w c. EvDrain w c \<in> set tr \<or> EvStop w c \<in> set tr \<longrightarrow> \<not> ctx_done dn c)"
proof -
  let ?ctx = "WithTimeout (WithoutCancel ctx) (cf_shutdown_timeout (rt_cfg rt1))"
  let ?lg = "[EvLog (LogInfo, ''mkqd started''),
              EvLog (LogInfo, ''shutting down; in-flight handlers are allowed to finish'')]"
  have inv: "rt_inv rt1" using Start_total_inv [OF reachable_inv [OF assms(1)], of W fs sched1] assms(4) by simp
  have once: "\<not> rt_once rt1" using quiet_Start [OF assms(4)] assms(3) by (simp add: quiet_def)
  have "rt_inv (emit ?lg rt1)" "\<not> rt_once (emit ?lg rt1)" using inv once by simp_all
  from Shutdown_run [OF this, of W sched2 ?ctx] obtain err pre post where
    sh: "Shutdown W sched2 ?ctx (emit ?lg rt1) = (err,
      emit (pre @ interleave sched2 (drain_threads W ?ctx rt1) @ [EvClientClose, EvRedisClose] @ post)
        ((emit ?lg rt1)\<lparr>rt_workers := [], rt_stopped := True, rt_stop_err := err, rt_once := True\<rparr>))"
    and pp: "set pre \<subseteq> {EvServerShutdown ?ctx, EvServerClose}" "set post \<subseteq> {EvLog (LogInfo, ''mkqd stopped'')}"
    by (auto simp: drain_threads_def)
  let ?mid = "interleave sched2 (drain_threads W ?ctx rt1)"
  let ?tr = "?lg @ pre @ ?mid @ [EvClientClose, EvRedisClose] @ post"
  have live: "\<not> ctx_done dn ?ctx" "\<not> ctx_done dn (WithTimeout (WithoutCancel ?ctx) (rt_unwind_grace rt1))"
    using loaded_timeout_positive [OF inv] inv by (simp_all add: rt_inv_def defaultUnwindGrace_def)
  define rt' where "rt' = snd (Shutdown W sched2 ?ctx (emit ?lg rt1))"
  have "Run W fs sched1 sched2 ctx rt = Some (err, rt')" "rt_workers rt' = []"
    "rt_trace rt' = rt_trace rt1 @ ?tr"
    using sh assms(4) by (simp_all add: Run_def rt'_def)
  moreover have "\<forall>w c. EvDrain w c \<in> set ?tr \<or> EvStop w c \<in> set ?tr \<longrightarrow> \<not> ctx_done dn c"
    using pp live
    by (auto simp: interleave_set drain_threads_def drain_thread_cases split: if_splits)
  moreover have "drain_events pre = []" "drain_events post = []"
    using pp by (auto simp: drain_events_def filter_empty_conv)
  then have "mset (drain_events ?tr) = mset (map (\<lambda>rw. EvDrain (snd rw) ?ctx) (rt_workers rt1))"
    using drain_events_threads [of sched2 W ?ctx rt1] by (simp add: drain_events_def)
  ultimately show ?thesis by blast
qed

section \<open>Concrete runs\<close>

definition sample_world :: "string \<Rightarrow> bool \<Rightarrow> string option world" where
  "sample_world bad slow =
     \<lparr>m_new_client = (\<lambda>_ _ _. None),
      m_process = (\<lambda>q h os. if q = bad then Inl (Errorf ''boom'' []) else Inr (length q)),
      m_drain = (\<lambda>w c. if slow then Some (Sentinel DeadlineExceeded) else None),
      m_stop = (\<lambda>w c. None), m_client_close = None, m_rdb_close = None, m_rdb_ping = (\<lambda>_. None),
      m_listen = (\<lambda>a. Inr a), m_srv_shutdown = (\<lambda>_. None), m_srv_close = None\<rparr>"

definition sample_factories :: "string option executor executor_factory factories" where
  "sample_factories = [(''log'', \<lambda>bc ec. Inr (\<lambda>j. Inr None))]"

definition sample_config :: config where
  "sample_config =
     sample_redis\<lparr>cf_queues :=
       [(sample_queue ''a'' (Some 4))\<lparr>qc_executor := Some \<lparr>ec_type = ''log'', ec_node = None\<rparr>\<rparr>,
        (sample_queue ''bb'' None)\<lparr>qc_executor := Some \<lparr>ec_type = ''log'', ec_node = None\<rparr>\<rparr>]\<rparr>"

definition sample_rt :: "string \<Rightarrow> bool \<Rightarrow> string option runtime" where
  "sample_rt bad slow = projr (New (sample_world bad slow) sample_config)"

lemma sample_New: "New (sample_world bad slow) sample_config = Inr (sample_rt bad slow)"
proof -
  have "Validate (applyDefaults sample_config) = None" "\<not> isl (newLogger (cf_log (applyDefaults sample_config)))"
    by code_simp+
  then have "\<exists>rt. New (sample_world bad slow) sample_config = Inr rt"
    by (auto simp: New_def Let_def sample_world_def isl_def split: sum.splits)
  then show ?thesis by (auto simp: sample_rt_def)
qed

lemma sample_reachable: "reachable (sample_world bad slow) sample_factories (sample_rt bad slow)"
  by (rule reach_new [OF sample_New])

lemma sample_fresh:
  "\<not> rt_started (sample_rt bad slow)" "\<not> rt_once (sample_rt bad slow)" "\<not> rt_stopped (sample_rt bad slow)"
  using New_fields [OF sample_New [of bad slow]] by simp_all

lemma sample_start:
  "\<exists>rt'. Start (sample_world [] True) sample_factories [] (sample_rt [] True) = Some (None, rt')"
proof -
  have "map_option fst (Start (sample_world [] True) sample_factories [] (sample_rt [] True)) = Some None"
    by code_simp
  then show ?thesis by auto
qed

lemma sample_start_fails:
  "\<exists>e rt'. Start (sample_world ''bb'' True) sample_factories [] (sample_rt ''bb'' True) = Some (Some e, rt')"
proof -
  have "map_option (\<lambda>r. fst r = None) (Start (sample_world ''bb'' True) sample_factories [] (sample_rt ''bb'' True)) = Some False"
    by code_simp
  then show ?thesis by auto
qed

theorem runtime_invariant_witness: "rt_inv (sample_rt [] True)"
  using runtime_invariant [OF sample_reachable] by simp

theorem start_launches_each_queue_once_witness:
  "\<exists>rt'. Start (sample_world [] True) sample_factories [] (sample_rt [] True) = Some (None, rt') \<and>
     distinct (map fst (rt_workers rt')) \<and> ''bb'' \<in> set (map fst (rt_workers rt'))"
proof -
  obtain rt' where s: "Start (sample_world [] True) sample_factories [] (sample_rt [] True) = Some (None, rt')"
    using sample_start by blast
  have "rt_cfg (sample_rt [] True) = applyDefaults sample_config"
    using New_fields [OF sample_New] by blast
  then have "''bb'' \<in> set (map qc_name (cf_queues (rt_cfg (sample_rt [] True))))"
    by (simp add: applyDefaults_def sample_config_def sample_queue_def)
  then show ?thesis
    using s start_launches_each_queue_once [OF sample_reachable sample_fresh(1) s] by auto
qed

theorem failed_start_rolls_back_witness:
  "\<exists>e rt'. Start (sample_world ''bb'' True) sample_factories [] (sample_rt ''bb'' True) = Some (Some e, rt') \<and>
     rt_workers rt' = []"
proof -
  obtain e rt' where s: "Start (sample_world ''bb'' True) sample_factories [] (sample_rt ''bb'' True) = Some (Some e, rt')"
    using sample_start_fails by blast
  then show ?thesis using failed_start_rolls_back [OF sample_reachable sample_fresh(1) s] by blast
qed

theorem failed_start_reports_serving_witness:
  "\<exists>e rt'. Start (sample_world ''bb'' True) sample_factories [] (sample_rt ''bb'' True) = Some (Some e, rt') \<and>
     isServing rt'"
proof -
  obtain e rt' where s: "Start (sample_world ''bb'' True) sample_factories [] (sample_rt ''bb'' True) = Some (Some e, rt')"
    using sample_start_fails by blast
  then show ?thesis using failed_start_reports_serving [OF sample_reachable sample_fresh(1) sample_fresh(3) s] by blast
qed

theorem shutdown_drains_before_close_witness:
  "\<exists>rt err rt'. rt_workers rt \<noteq> [] \<and> Shutdown (sample_world [] True) [1, 0] (CallerCtx 0) rt = (err, rt') \<and>
     rt_workers rt' = []"
proof -
  obtain rt where s: "Start (sample_world [] True) sample_factories [] (sample_rt [] True) = Some (None, rt)"
    using sample_start by blast
  have r: "reachable (sample_world [] True) sample_factories rt"
    using sample_reachable s by (blast intro: reach_step step_start)
  have o: "\<not> rt_once rt" using quiet_Start [OF s] sample_fresh(2) by (simp add: quiet_def)
  have "rt_workers rt \<noteq> []"
  proof -
    have "map_option (\<lambda>r. rt_workers (snd r) = []) (Start (sample_world [] True) sample_factories [] (sample_rt [] True)) = Some False"
      by code_simp
    then show ?thesis using s by simp
  qed
  then show ?thesis using shutdown_drains_before_close [OF r o, of "[1, 0]" "CallerCtx 0"] by blast
qed

theorem shutdown_idempotent_witness:
  "\<exists>err rt'. Shutdown (sample_world [] True) [] Background (sample_rt [] True) = (err, rt') \<and>
     Shutdown (sample_world [] True) [] (CallerCtx 1) rt' = (err, rt')"
proof -
  obtain err rt' where s: "Shutdown (sample_world [] True) [] Background (sample_rt [] True) = (err, rt')"
    by fastforce
  then show ?thesis
    using shutdown_idempotent [OF sample_reachable, of "[]" True "[]" Background err rt' "[]" "CallerCtx 1"] by blast
qed

theorem code_handler_wins_witness:
  "\<exists>rt e rt'. rt_registry rt ''a'' \<noteq> None \<and> buildConfiguredQueues sample_factories rt = (e, rt') \<and>
     rt_registry rt' ''a'' = rt_registry rt ''a''"
proof -
  obtain rt where h: "Handle ''a'' (Some (\<lambda>_. Inr None)) [] (sample_rt [] True) = Inr rt"
    using New_fields [OF sample_New [of "[]" True]] by (simp add: Handle_def register_def)
  have r: "reachable (sample_world [] True) sample_factories rt"
    using sample_reachable h by (blast intro: reach_step step_handle)
  obtain r where reg: "rt_registry rt ''a'' = Some r" "rg_from_code r"
    using h by (auto simp: Handle_def register_def split: if_splits)
  obtain e rt' where b: "buildConfiguredQueues sample_factories rt = (e, rt')" by fastforce
  show ?thesis using code_handler_wins [OF r b] reg b by auto
qed

theorem run_grants_budget_witness:
  "\<exists>err rt'. Run (sample_world [] True) sample_factories [] [1] (CallerCtx 0) (sample_rt [] True) = Some (err, rt') \<and>
     rt_workers rt' = []"
proof -
  obtain rt where s: "Start (sample_world [] True) sample_factories [] (sample_rt [] True) = Some (None, rt)"
    using sample_start by blast
  show ?thesis
    using run_grants_budget [OF sample_reachable sample_fresh(1) sample_fresh(2) s, of "[1]" "CallerCtx 0" "\<lambda>_. True"]
    by blast
qed

end
