(* ===== verification/Health.thy ===== *)
theory Health
  imports Runtime
begin

text \<open>
  Model of the endpoints of \<open>server.go\<close>: the handlers of \<open>/healthz\<close>, \<open>/readyz\<close> and \<open>/metrics\<close>
  behind the patterns the mux is given.  A pattern \<open>GET /p\<close> of \<open>net/http\<close> also serves HEAD;
  another method on a known path is refused with 405, an unknown path with 404.  The path is the
  one the mux matches, already cleaned: a request for an unclean path is redirected first.
\<close>

section \<open>Handlers\<close>

record plain_response =
  pr_status :: int
  pr_content_type :: string
  pr_body :: string

definition writePlain :: "int \<Rightarrow> string \<Rightarrow> plain_response" where
  "writePlain code body =
     \<lparr>pr_status = code, pr_content_type = ''text/plain; charset=utf-8'', pr_body = body @ [CHR 0x0A]\<rparr>"

definition healthz :: plain_response where
  "healthz = writePlain 200 ''ok''"

definition readyz :: "'v world \<Rightarrow> (go_error \<Rightarrow> string) \<Rightarrow> go_ctx \<Rightarrow> 'v runtime \<Rightarrow> plain_response" where
  "readyz W error_text ctx rt =
     (if \<not> isServing rt then writePlain 503 ''not serving''
      else case ping W (WithTimeout ctx pingTimeout) rt of
             Some err \<Rightarrow> writePlain 503 (''redis unavailable: '' @ error_text err)
           | None \<Rightarrow> writePlain 200 ''ready'')"

datatype mux_result = Served plain_response | MetricsHandler | MethodNotAllowed | NotFound

definition serve :: "'v world \<Rightarrow> (go_error \<Rightarrow> string) \<Rightarrow> go_ctx \<Rightarrow> 'v runtime \<Rightarrow> string \<Rightarrow> string \<Rightarrow> mux_result" where
  "serve W error_text ctx rt meth path =
     (let get = (\<lambda>r. if meth = ''GET'' \<or> meth = ''HEAD'' then r else MethodNotAllowed)
      in if path = ''/healthz'' then get (Served healthz)
         else if path = ''/readyz'' then get (Served (readyz W error_text ctx rt))
         else if path = ''/metrics'' \<and> sc_metrics (cf_server (rt_cfg rt)) \<and> rt_reg rt then get MetricsHandler
         else NotFound)"

section \<open>Readiness\<close>

text \<open>While the listener is up and no shutdown has completed, workers are running.\<close>

definition listening_ok :: "'v runtime \<Rightarrow> bool" where
  "listening_ok rt \<longleftrightarrow> (rt_srv rt \<noteq> None \<longrightarrow> \<not> rt_once rt \<longrightarrow> rt_workers rt \<noteq> [])"

lemma Start_listening:
  assumes "rt_inv rt" "listening_ok rt" "Start W fs sched rt = Some (e, rt')"
  shows "listening_ok rt'"
proof (cases "rt_started rt")
  case True
  then show ?thesis using assms by (simp add: Start_def)
next
  case False
  then have s0: "rt_srv rt = None" using assms(1) by (auto simp: rt_inv_def)
  have early: "listening_ok rt'"
    if "buildConfiguredQueues fs (rt\<lparr>rt_started := True\<rparr>) = (e', rt')" for e'
    using s0 shell_sel [OF conjunct1 [OF build_queues_frame [OF that [unfolded buildConfiguredQueues_def]]]]
    by (simp add: listening_ok_def)
  show ?thesis using assms(1) False
  proof (cases rule: Start_stages [where W = W and fs = fs and sched = sched])
    case (launched e rt2 rt3)
    then show ?thesis using launched_failed [OF launched(2,3)] s0 assms(3) by (simp add: listening_ok_def)
  next
    case (served e2 rt2 rt3 rt4)
    note ok = launched_ok [OF served(2,3)]
    have "registeredQueues rt3 \<noteq> []" using ok served(5) by (simp add: registeredQueues_def)
    then have w: "rt_workers rt3 \<noteq> []" using ok by simp
    have "rt_srv rt3 = None" using ok served(2) s0 by (simp add: prepared_def)
    then show ?thesis using served(1,4) assms(3) w
      by (cases rule: start_server_cases [OF served(4)]) (simp_all add: listening_ok_def)
  qed (use assms(3) early in simp_all)
qed

lemma reachable_listening: "reachable W fs rt \<Longrightarrow> listening_ok rt"
proof (induction rule: reachable.induct)
  case (reach_new cfg rt)
  then show ?case using New_inv [OF reach_new] by (auto simp: listening_ok_def rt_inv_def)
next
  case (reach_step rt rt')
  from reach_step.hyps(2) show ?case
  proof (cases rule: rt_step.cases)
    case (step_check ctx e)
    then have "shell rt' = shell rt"
      by (auto simp: Check_def buildConfiguredQueues_def split: option.splits dest: build_queues_frame)
    then show ?thesis using reach_step.IH shell_sel [of rt' rt] by (simp add: listening_ok_def)
  next
    case (step_start sched e)
    then show ?thesis using Start_listening reachable_inv reach_step by blast
  next
    case (step_shutdown sched ctx e)
    then show ?thesis
    proof (cases "rt_once rt")
      case False
      then show ?thesis using Shutdown_run [OF reachable_inv [OF reach_step.hyps(1)] False, of W sched ctx] step_shutdown
        by (auto simp: listening_ok_def)
    qed (use reach_step.IH in \<open>simp add: Shutdown_def\<close>)
  qed (use reach_step.IH in
      \<open>auto simp: Handle_def HandleExecutor_def register_def listening_ok_def split: option.splits if_splits\<close>)
qed

text \<open>
  C35: In every reachable state in which the listener is up and no shutdown has completed,
  \<open>GET /readyz\<close> answers 200 exactly when Redis answers the bounded ping, and then workers are
  running; otherwise it answers 503.  \<open>/healthz\<close> answers 200 whatever the state, and other
  methods are refused.
\<close>
theorem readyz_reflects_redis:
  assumes "reachable W fs rt" and "rt_srv rt \<noteq> None" and "\<not> rt_once rt"
  shows "serve W error_text ctx rt ''GET'' ''/readyz'' = Served (readyz W error_text ctx rt) \<and>
    pr_status (readyz W error_text ctx rt) =
      (if m_rdb_ping W (WithTimeout ctx pingTimeout) = None then 200 else 503) \<and>
    rt_workers rt \<noteq> [] \<and>
    serve W error_text ctx rt ''GET'' ''/healthz'' = Served (writePlain 200 ''ok'') \<and>
    serve W error_text ctx rt ''POST'' ''/readyz'' = MethodNotAllowed"
proof -
  have "rt_workers rt \<noteq> []" using reachable_listening [OF assms(1)] assms(2,3) by (simp add: listening_ok_def)
  moreover have "isServing rt" "rt_rdb rt \<noteq> None"
    using reachable_inv [OF assms(1)] assms(2,3) by (auto simp: rt_inv_def isServing_def)
  ultimately show ?thesis
    by (auto simp: serve_def readyz_def healthz_def writePlain_def ping_def Let_def split: option.splits)
qed

theorem readyz_reflects_redis_witness:
  "\<exists>rt. Start (sample_world [] True) sample_factories [] (sample_rt [] True) = Some (None, rt) \<and>
     pr_status (readyz (sample_world [] True) (\<lambda>_. ''down'') Background rt) = 200"
proof -
  obtain rt where s: "Start (sample_world [] True) sample_factories [] (sample_rt [] True) = Some (None, rt)"
    using sample_start by blast
  have r: "reachable (sample_world [] True) sample_factories rt"
    using sample_reachable s by (blast intro: reach_step step_start)
  have o: "\<not> rt_once rt" using quiet_Start [OF s] sample_fresh(2) by (simp add: quiet_def)
  have "map_option (\<lambda>r. rt_srv (snd r) = None) (Start (sample_world [] True) sample_factories [] (sample_rt [] True)) = Some False"
    by code_simp
  then have "rt_srv rt \<noteq> None" using s by simp
  from readyz_reflects_redis [OF r this o, of "\<lambda>_. ''down''" Background] show ?thesis
    using s by (simp add: sample_world_def)
qed

end
