(* ===== verification/Go_Http.thy ===== *)
theory Go_Http
  imports Go_Prelude
begin

text \<open>
  The part of net/http the sources use: field-name tokens, the canonical form of a
  header key, the header map with \<open>Get\<close> and \<open>Set\<close>, outgoing requests and incoming
  responses.  A response body is the bytes the peer sends followed by end of file or
  by a read error.  The lemmas say when two header keys collide, which is what the
  rules about reserved headers rest on.
\<close>

section \<open>Header keys and the header map\<close>

definition token_punct :: string where
  "token_punct = ''!#$%&'' @ [CHR 0x27] @ ''*+-.^_'' @ [CHR 0x60] @ ''|~''"

definition is_token_byte :: "char \<Rightarrow> bool" where
  "is_token_byte c \<longleftrightarrow>
     97 \<le> byte c \<and> byte c \<le> 122 \<or> 65 \<le> byte c \<and> byte c \<le> 90
     \<or> 48 \<le> byte c \<and> byte c \<le> 57 \<or> c \<in> set token_punct"

fun canon_go :: "bool \<Rightarrow> string \<Rightarrow> string" where
  "canon_go upper [] = []"
| "canon_go upper (c # cs) =
     (let c' = (if upper then upper_byte c else lower_byte c)
      in c' # canon_go (c' = CHR ''-'') cs)"

text \<open>\<open>textproto.CanonicalMIMEHeaderKey\<close>: a key with a byte outside the token alphabet is
  left as it is.\<close>

definition canonical_key :: "string \<Rightarrow> string" where
  "canonical_key s = (if list_all is_token_byte s then canon_go True s else s)"

type_synonym header = "string \<rightharpoonup> string list"

definition header_get :: "header \<Rightarrow> string \<Rightarrow> string" where
  "header_get h k = (case h (canonical_key k) of Some (v # _) \<Rightarrow> v | _ \<Rightarrow> [])"

definition header_set :: "header \<Rightarrow> string \<Rightarrow> string \<Rightarrow> header" where
  "header_set h k v = h(canonical_key k \<mapsto> [v])"

section \<open>Requests and responses\<close>

record request =
  r_method :: string
  r_url :: url
  r_host :: string
  r_header :: header

definition set_header :: "string \<Rightarrow> string \<Rightarrow> request \<Rightarrow> request" where
  "set_header k v req = req\<lparr>r_header := header_set (r_header req) k v\<rparr>"

definition remove_empty_port :: "string \<Rightarrow> string" where
  "remove_empty_port h = (if h \<noteq> [] \<and> last h = CHR '':'' then butlast h else h)"

text \<open>\<open>http.NewRequestWithContext\<close> with the constant method POST.\<close>

definition new_post_request :: "golib \<Rightarrow> string \<Rightarrow> request result" where
  "new_post_request L target =
     (case url_parse L target of
        Inl e \<Rightarrow> Inl e
      | Inr u \<Rightarrow>
          let h = remove_empty_port (u_host u)
          in Inr \<lparr>r_method = ''POST'', r_url = u\<lparr>u_host := h\<rparr>, r_host = h,
                  r_header = Map.empty\<rparr>)"

record response =
  status_code :: int
  status_text :: string
  resp_header :: header
  body_data :: string
  body_err :: "go_error option"

section \<open>Bytes: facts\<close>

lemma token_punct_bytes:
  "c \<in> set token_punct \<longleftrightarrow>
     byte c \<in> {33, 35, 36, 37, 38, 39, 42, 43, 45, 46, 94, 95, 96, 124, 126}"
proof -
  have "set (map byte token_punct) =
      {33, 35, 36, 37, 38, 39, 42, 43, 45, 46, 94, 95, 96, 124, 126}"
    by (simp add: token_punct_def)
  moreover have "c \<in> set token_punct \<longleftrightarrow> byte c \<in> set (map byte token_punct)"
    by auto
  ultimately show ?thesis by simp
qed

lemma is_token_byte_range: "is_token_byte c \<Longrightarrow> 33 \<le> byte c \<and> byte c < 127"
  by (auto simp: is_token_byte_def token_punct_bytes)

lemma byte_lower: "byte (lower_byte c) = (if 65 \<le> byte c \<and> byte c \<le> 90 then byte c + 32 else byte c)"
  by (auto simp: lower_byte_def)

lemma byte_upper: "byte (upper_byte c) = (if 97 \<le> byte c \<and> byte c \<le> 122 then byte c - 32 else byte c)"
  by (auto simp: upper_byte_def)

lemma lower_lower [simp]: "lower_byte (lower_byte c) = lower_byte c"
  by (simp add: byte_eq_iff [symmetric] byte_lower del: byte_eq_iff of_char_eq_iff)

lemma lower_upper [simp]: "lower_byte (upper_byte c) = lower_byte c"
  by (auto simp add: byte_eq_iff [symmetric] byte_lower byte_upper simp del: byte_eq_iff of_char_eq_iff)

lemma upper_lower [simp]: "upper_byte (lower_byte c) = upper_byte c"
  by (simp add: byte_eq_iff [symmetric] byte_lower byte_upper del: byte_eq_iff of_char_eq_iff)

lemma dash_lower [simp]: "lower_byte c = CHR ''-'' \<longleftrightarrow> c = CHR ''-''"
  by (simp add: byte_eq_iff [symmetric] byte_lower del: byte_eq_iff of_char_eq_iff)

lemma dash_upper [simp]: "upper_byte c = CHR ''-'' \<longleftrightarrow> c = CHR ''-''"
  by (auto simp add: byte_eq_iff [symmetric] byte_upper simp del: byte_eq_iff of_char_eq_iff)

section \<open>Header keys: facts\<close>

lemma token_is_ascii: "list_all is_token_byte s \<Longrightarrow> is_ascii s"
  by (auto simp: is_ascii_def list_all_iff dest!: is_token_byte_range)

lemma to_lower_token: "list_all is_token_byte s \<Longrightarrow> to_lower L s = map lower_byte s"
  by (simp add: to_lower_def token_is_ascii)

lemma lower_canon_go [simp]: "map lower_byte (canon_go u s) = map lower_byte s"
  by (induction s arbitrary: u) (auto simp: Let_def)

lemma canon_go_lower: "canon_go u (map lower_byte s) = canon_go u s"
  by (induction s arbitrary: u) (auto simp: Let_def)

lemma canonical_key_eq_iff:
  assumes "list_all is_token_byte a" and "list_all is_token_byte b"
  shows "canonical_key a = canonical_key b \<longleftrightarrow> map lower_byte a = map lower_byte b"
proof
  assume "canonical_key a = canonical_key b"
  then have "map lower_byte (canon_go True a) = map lower_byte (canon_go True b)"
    using assms by (simp add: canonical_key_def)
  then show "map lower_byte a = map lower_byte b" by simp
next
  assume "map lower_byte a = map lower_byte b"
  then have "canon_go True a = canon_go True b"
    using canon_go_lower [of True a] canon_go_lower [of True b] by simp
  then show "canonical_key a = canonical_key b"
    using assms by (simp add: canonical_key_def)
qed

lemma header_get_set [header_simps]:
  "header_get (header_set h k v) k' =
     (if canonical_key k = canonical_key k' then v else header_get h k')"
  by (simp add: header_get_def header_set_def)

lemma header_get_empty [simp]: "header_get Map.empty k = []"
  by (simp add: header_get_def)

lemma set_header_simps [header_simps]:
  "r_method (set_header k v r) = r_method r"
  "r_url (set_header k v r) = r_url r"
  "r_host (set_header k v r) = r_host r"
  "r_header (set_header k v r) = header_set (r_header r) k v"
  by (simp_all add: set_header_def)

end
