(* ===== verification/Safedial.thy ===== *)
theory Safedial
  imports Go_Prelude
begin

unbundle bit_operations_syntax

text \<open>
  Model of \<open>internal/safedial/safedial.go\<close>, the guard against destinations outside the
  public internet, over the parts of net and net/netip it calls.  An address is a
  32-bit or a 128-bit word, the latter with its zone (empty for none).  The theorems
  compare the guard with a reference table of address intervals, show that no IPv6
  wrapper lets a private IPv4 address through, and pin down what a zone does.
\<close>

section \<open>net/netip\<close>

datatype addr = AddrInvalid | Addr4 "32 word" | Addr6 "128 word" string

datatype prefix = Prefix4 "32 word" nat | Prefix6 "128 word" nat

fun is4in6 :: "addr \<Rightarrow> bool" where
  "is4in6 (Addr6 a z) = (drop_bit 32 a = 0xFFFF)"
| "is4in6 _ = False"

fun unmap :: "addr \<Rightarrow> addr" where
  "unmap (Addr6 a z) = (if is4in6 (Addr6 a z) then Addr4 (ucast a) else Addr6 a z)"
| "unmap ip = ip"

text \<open>\<open>Prefix.Contains\<close>: the families must agree, and an address with a zone is in no
  prefix.\<close>

fun prefix_contains :: "prefix \<Rightarrow> addr \<Rightarrow> bool" where
  "prefix_contains (Prefix4 p n) (Addr4 a) = (drop_bit (32 - n) (a XOR p) = 0)"
| "prefix_contains (Prefix6 p n) (Addr6 a z) =
     (z = [] \<and> (a XOR p) AND NOT (mask (128 - n)) = 0)"
| "prefix_contains _ _ = False"

definition v4_byte :: "nat \<Rightarrow> 32 word \<Rightarrow> 8 word" where
  "v4_byte i a = ucast (drop_bit (24 - 8 * i) a)"

definition v6_byte0 :: "128 word \<Rightarrow> 8 word" where
  "v6_byte0 a = ucast (drop_bit 120 a)"

definition v6_u16_0 :: "128 word \<Rightarrow> 16 word" where
  "v6_u16_0 a = ucast (drop_bit 112 a)"

fun is_unspecified :: "addr \<Rightarrow> bool" where
  "is_unspecified ip = (ip = Addr4 0 \<or> ip = Addr6 0 [])"

fun is_loopback :: "addr \<Rightarrow> bool" where
  "is_loopback (Addr4 a) = (v4_byte 0 a = 127)"
| "is_loopback (Addr6 a z) =
     (if is4in6 (Addr6 a z) then v4_byte 0 (ucast a) = 127 else a = 1)"
| "is_loopback AddrInvalid = False"

fun is_private :: "addr \<Rightarrow> bool" where
  "is_private (Addr4 a) =
     (v4_byte 0 a = 10
      \<or> v4_byte 0 a = 172 \<and> v4_byte 1 a AND 0xF0 = 16
      \<or> v4_byte 0 a = 192 \<and> v4_byte 1 a = 168)"
| "is_private (Addr6 a z) =
     (if is4in6 (Addr6 a z)
      then v4_byte 0 (ucast a) = 10
        \<or> v4_byte 0 (ucast a) = 172 \<and> v4_byte 1 (ucast a) AND 0xF0 = 16
        \<or> v4_byte 0 (ucast a) = 192 \<and> v4_byte 1 (ucast a) = 168
      else v6_byte0 a AND 0xFE = 0xFC)"
| "is_private AddrInvalid = False"

fun is_link_local_unicast :: "addr \<Rightarrow> bool" where
  "is_link_local_unicast (Addr4 a) = (v4_byte 0 a = 169 \<and> v4_byte 1 a = 254)"
| "is_link_local_unicast (Addr6 a z) =
     (if is4in6 (Addr6 a z) then v4_byte 0 (ucast a) = 169 \<and> v4_byte 1 (ucast a) = 254
      else v6_u16_0 a AND 0xFFC0 = 0xFE80)"
| "is_link_local_unicast AddrInvalid = False"

fun is_link_local_multicast :: "addr \<Rightarrow> bool" where
  "is_link_local_multicast (Addr4 a) =
     (v4_byte 0 a = 224 \<and> v4_byte 1 a = 0 \<and> v4_byte 2 a = 0)"
| "is_link_local_multicast (Addr6 a z) =
     (if is4in6 (Addr6 a z)
      then v4_byte 0 (ucast a) = 224 \<and> v4_byte 1 (ucast a) = 0 \<and> v4_byte 2 (ucast a) = 0
      else v6_u16_0 a AND 0xFF0F = 0xFF02)"
| "is_link_local_multicast AddrInvalid = False"

fun is_interface_local_multicast :: "addr \<Rightarrow> bool" where
  "is_interface_local_multicast (Addr6 a z) =
     (\<not> is4in6 (Addr6 a z) \<and> v6_u16_0 a AND 0xFF0F = 0xFF01)"
| "is_interface_local_multicast _ = False"

fun is_multicast :: "addr \<Rightarrow> bool" where
  "is_multicast (Addr4 a) = (v4_byte 0 a AND 0xF0 = 0xE0)"
| "is_multicast (Addr6 a z) =
     (if is4in6 (Addr6 a z) then v4_byte 0 (ucast a) AND 0xF0 = 0xE0
      else drop_bit 120 a = 0xFF)"
| "is_multicast AddrInvalid = False"

section \<open>net.SplitHostPort\<close>

fun index_byte :: "string \<Rightarrow> char \<Rightarrow> nat option" where
  "index_byte [] c = None"
| "index_byte (x # xs) c = (if x = c then Some 0 else map_option Suc (index_byte xs c))"

definition last_index_byte :: "string \<Rightarrow> char \<Rightarrow> nat option" where
  "last_index_byte s c = map_option (\<lambda>i. length s - 1 - i) (index_byte (rev s) c)"

definition addr_err :: "string \<Rightarrow> string \<Rightarrow> go_error" where
  "addr_err s why = Errorf ''address %s: %s'' [ArgS s, ArgS why]"

text \<open>The result of the bracket analysis: the host and the offsets from which stray
  brackets are looked for.\<close>

definition split_host :: "string \<Rightarrow> nat \<Rightarrow> (string \<times> nat \<times> nat) result" where
  "split_host hp i =
     (if hd hp = CHR ''['' then
        (case index_byte hp (CHR '']'') of
           None \<Rightarrow> Inl (addr_err hp ''missing ']' in address'')
         | Some e \<Rightarrow>
             if e + 1 = length hp then Inl (addr_err hp ''missing port in address'')
             else if e + 1 = i then Inr (take (e - 1) (drop 1 hp), 1, e + 1)
             else if hp ! (e + 1) = CHR '':'' then Inl (addr_err hp ''too many colons in address'')
             else Inl (addr_err hp ''missing port in address''))
      else if index_byte (take i hp) (CHR '':'') \<noteq> None
           then Inl (addr_err hp ''too many colons in address'')
      else Inr (take i hp, 0, 0))"

definition SplitHostPort :: "string \<Rightarrow> (string \<times> string) result" where
  "SplitHostPort hp =
     (case last_index_byte hp (CHR '':'') of
        None \<Rightarrow> Inl (addr_err hp ''missing port in address'')
      | Some i \<Rightarrow>
          (case split_host hp i of
             Inl e \<Rightarrow> Inl e
           | Inr (host, j, k) \<Rightarrow>
               if index_byte (drop j hp) (CHR ''['') \<noteq> None
               then Inl (addr_err hp ''unexpected '[' in address'')
               else if index_byte (drop k hp) (CHR '']'') \<noteq> None
               then Inl (addr_err hp ''unexpected ']' in address'')
               else Inr (host, drop (i + 1) hp)))"

section \<open>The operations of safedial.go\<close>

definition v4EmbeddingPrefixes :: "prefix list" where
  "v4EmbeddingPrefixes =
    [Prefix6 0x0064FF9B000000000000000000000000 96,
     Prefix6 0x0064FF9B000100000000000000000000 48,
     Prefix6 0 96]"

definition blockedPrefixes :: "prefix list" where
  "blockedPrefixes =
    [Prefix4 0x00000000 8,
     Prefix4 0x64400000 10,
     Prefix4 0xC0000000 24,
     Prefix4 0xC0586300 24,
     Prefix4 0xC0000200 24,
     Prefix4 0xC6120000 15,
     Prefix4 0xC6336400 24,
     Prefix4 0xCB007100 24,
     Prefix4 0xF0000000 4,
     Prefix6 0x01000000000000000000000000000000 64,
     Prefix6 0x20010000000000000000000000000000 32,
     Prefix6 0x20010020000000000000000000000000 28,
     Prefix6 0x20010DB8000000000000000000000000 32,
     Prefix6 0x20020000000000000000000000000000 16]"

text \<open>\<open>ip.As16()\<close> restricted to its last four bytes.\<close>

fun low32 :: "addr \<Rightarrow> 32 word" where
  "low32 (Addr4 a) = a"
| "low32 (Addr6 a z) = ucast a"
| "low32 AddrInvalid = 0"

fun is_addr6 :: "addr \<Rightarrow> bool" where
  "is_addr6 (Addr6 a z) = True"
| "is_addr6 _ = False"

lemma embedding_is_addr6:
  "list_ex (\<lambda>p. prefix_contains p (unmap ip)) v4EmbeddingPrefixes \<Longrightarrow> is_addr6 ip"
  by (cases ip) (auto simp: v4EmbeddingPrefixes_def)

function IsPublic :: "addr \<Rightarrow> bool" where
  "IsPublic ip0 =
     (if ip0 = AddrInvalid then False
      else let ip = unmap ip0
           in if list_ex (\<lambda>p. prefix_contains p ip) v4EmbeddingPrefixes
              then IsPublic (Addr4 (low32 ip))
              else if is_unspecified ip \<or> is_loopback ip \<or> is_private ip
                   \<or> is_link_local_unicast ip \<or> is_link_local_multicast ip
                   \<or> is_interface_local_multicast ip \<or> is_multicast ip
              then False
              else \<not> list_ex (\<lambda>p. prefix_contains p ip) blockedPrefixes)"
  by pat_completeness auto
termination
  by (relation "measure (\<lambda>ip. if is_addr6 ip then 1 else 0)")
     (auto dest: embedding_is_addr6)

declare IsPublic.simps [simp del]

text \<open>In the last message the source prints the parsed address, the model the text it was parsed from.\<close>

definition CheckAddr :: "(string \<Rightarrow> addr option) \<Rightarrow> string \<Rightarrow> go_error option" where
  "CheckAddr parse_addr address =
     (case SplitHostPort address of
        Inl e \<Rightarrow> Some (Wrapf ''%w: cannot parse address %q: %v'' [ArgS address, ArgE e] (Sentinel ErrBlocked))
      | Inr (host, port) \<Rightarrow>
          (case parse_addr host of
             None \<Rightarrow> Some (Wrapf ''%w: %q is not an IP address'' [ArgS host] (Sentinel ErrBlocked))
           | Some ip \<Rightarrow>
               if \<not> IsPublic ip then Some (Wrapf ''%w: %s'' [ArgS host] (Sentinel ErrBlocked))
               else None))"

record dialer =
  d_timeout :: duration
  d_keep_alive :: duration
  d_control :: bool

definition NewDialer :: "bool \<Rightarrow> dialer" where
  "NewDialer allowPrivate =
     \<lparr>d_timeout = 10000000000, d_keep_alive = 30000000000, d_control = \<not> allowPrivate\<rparr>"

text \<open>What the dialer decides about an address it is about to connect to.\<close>

definition dial_control :: "(string \<Rightarrow> addr option) \<Rightarrow> dialer \<Rightarrow> string \<Rightarrow> go_error option" where
  "dial_control parse_addr d address =
     (if d_control d then CheckAddr parse_addr address else None)"

section \<open>Reference tables\<close>

text \<open>The special-purpose address ranges as closed intervals, independent of how the guard
  recognises them.\<close>

definition v4_special :: "(nat \<times> nat) list" where
  "v4_special =
    [(0x00000000, 0x00FFFFFF), (0x0A000000, 0x0AFFFFFF), (0x64400000, 0x647FFFFF),
     (0x7F000000, 0x7FFFFFFF), (0xA9FE0000, 0xA9FEFFFF), (0xAC100000, 0xAC1FFFFF),
     (0xC0000000, 0xC00000FF), (0xC0000200, 0xC00002FF), (0xC0586300, 0xC05863FF),
     (0xC0A80000, 0xC0A8FFFF), (0xC6120000, 0xC613FFFF), (0xC6336400, 0xC63364FF),
     (0xCB007100, 0xCB0071FF), (0xE0000000, 0xFFFFFFFF)]"

definition v6_special :: "(nat \<times> nat) list" where
  "v6_special =
    [(0x01000000000000000000000000000000, 0x0100000000000000FFFFFFFFFFFFFFFF),
     (0x20010000000000000000000000000000, 0x20010000FFFFFFFFFFFFFFFFFFFFFFFF),
     (0x20010020000000000000000000000000, 0x2001002FFFFFFFFFFFFFFFFFFFFFFFFF),
     (0x20010DB8000000000000000000000000, 0x20010DB8FFFFFFFFFFFFFFFFFFFFFFFF),
     (0x20020000000000000000000000000000, 0x2002FFFFFFFFFFFFFFFFFFFFFFFFFFFF),
     (0xFC000000000000000000000000000000, 0xFDFFFFFFFFFFFFFFFFFFFFFFFFFFFFFF),
     (0xFE800000000000000000000000000000, 0xFEBFFFFFFFFFFFFFFFFFFFFFFFFFFFFF),
     (0xFF000000000000000000000000000000, 0xFFFFFFFFFFFFFFFFFFFFFFFFFFFFFFFF)]"

text \<open>The four IPv6 forms that name an IPv4 address: mapped, the two NAT64 ranges and the
  deprecated compatible form.\<close>

definition v4_wrappers :: "(nat \<times> nat) list" where
  "v4_wrappers =
    [(0xFFFF00000000, 0xFFFFFFFFFFFF),
     (0x0064FF9B000000000000000000000000, 0x0064FF9B0000000000000000FFFFFFFF),
     (0x0064FF9B000100000000000000000000, 0x0064FF9B0001FFFFFFFFFFFFFFFFFFFF),
     (0, 0xFFFFFFFF)]"

definition in_ranges :: "(nat \<times> nat) list \<Rightarrow> nat \<Rightarrow> bool" where
  "in_ranges rs x \<longleftrightarrow> list_ex (\<lambda>(lo, hi). lo \<le> x \<and> x \<le> hi) rs"

section \<open>Prefixes and bit masks as intervals\<close>

lemma div_eq_interval:
  fixes x m q :: nat
  assumes "0 < m"
  shows "x div m = q \<longleftrightarrow> q * m \<le> x \<and> x < (q + 1) * m"
proof
  assume "x div m = q"
  then show "q * m \<le> x \<and> x < (q + 1) * m"
    using assms div_times_less_eq_dividend [of x m] dividend_less_div_times [OF assms, of x]
    by (auto simp: algebra_simps)
next
  assume "q * m \<le> x \<and> x < (q + 1) * m"
  then show "x div m = q"
    by (intro div_nat_eqI) (auto simp: algebra_simps)
qed

lemma xor_eq_zero_iff:
  fixes a b :: "'a::len word"
  shows "a XOR b = 0 \<longleftrightarrow> a = b"
  by (auto simp: bit_eq_iff bit_simps)

lemma unat_drop_bit: "unat (drop_bit k a) = unat a div 2 ^ k"
  by (rule trans [OF unat_drop_bit_eq drop_bit_eq_div])

lemma drop_bit_xor_iff:
  fixes a p :: "'a::len word"
  shows "drop_bit k (a XOR p) = 0 \<longleftrightarrow> unat a div 2 ^ k = unat p div 2 ^ k"
proof -
  have "drop_bit k (a XOR p) = 0 \<longleftrightarrow> drop_bit k a = drop_bit k p"
    by (simp add: drop_bit_xor xor_eq_zero_iff)
  also have "\<dots> \<longleftrightarrow> unat (drop_bit k a) = unat (drop_bit k p)"
    by (simp add: word_unat_eq_iff)
  finally show ?thesis by (simp only: unat_drop_bit)
qed

lemma and_not_mask_zero_iff:
  fixes x :: "'a::len word"
  shows "x AND NOT (mask k) = 0 \<longleftrightarrow> drop_bit k x = 0"
proof
  assume h: "x AND NOT (mask k) = 0"
  show "drop_bit k x = 0"
  proof (rule bit_word_eqI)
    fix n assume "n < LENGTH('a)"
    have "bit (x AND NOT (mask k)) (k + n) = False" using h by simp
    then show "bit (drop_bit k x) n = bit 0 n"
      by (auto simp: bit_simps dest: bit_imp_le_length)
  qed
next
  assume h: "drop_bit k x = 0"
  show "x AND NOT (mask k) = 0"
  proof (rule bit_word_eqI)
    fix n assume "n < LENGTH('a)"
    have "bit (drop_bit k x) (n - k) = False" using h by simp
    then show "bit (x AND NOT (mask k)) n = bit 0 n"
      by (cases "n < k") (auto simp: bit_simps)
  qed
qed

lemma and_high_iff:
  fixes x c :: "'a::len word"
  assumes "c AND NOT (mask k) = c"
  shows "x AND NOT (mask k) = c \<longleftrightarrow> unat x div 2 ^ k = unat c div 2 ^ k"
proof -
  have "(x XOR c) AND NOT (mask k) = (x AND NOT (mask k)) XOR (c AND NOT (mask k))"
    by (rule bit_word_eqI) (auto simp: bit_simps)
  then have "x AND NOT (mask k) = c \<longleftrightarrow> (x XOR c) AND NOT (mask k) = 0"
    using assms by (simp add: xor_eq_zero_iff)
  then show ?thesis by (simp only: and_not_mask_zero_iff drop_bit_xor_iff)
qed

section \<open>The IPv4 predicates as intervals\<close>

lemma unat_v4_byte: "unat (v4_byte i a) = unat a div 2 ^ (24 - 8 * i) mod 256"
  by (simp add: v4_byte_def unsigned_ucast_eq unat_drop_bit take_bit_eq_mod)

lemma unat_v4_byte0: "unat (v4_byte 0 a) = unat a div 2 ^ 24"
proof -
  have "unat a < 2 ^ 32" using unsigned_less [of a] by simp
  then have "unat a div 2 ^ 24 < 256" by (simp add: less_mult_imp_div_less)
  then show ?thesis by (simp add: unat_v4_byte)
qed

lemma div_mod_pair:
  fixes x p q m :: nat
  assumes "q < m"
  shows "x div m = p \<and> x mod m = q \<longleftrightarrow> x = p * m + q"
  using assms by auto

lemma v4_byte01_iff:
  "v4_byte 0 a = b0 \<and> v4_byte 1 a = b1 \<longleftrightarrow> unat a div 2 ^ 16 = unat b0 * 256 + unat b1"
proof -
  have "unat b1 < 256" using unsigned_less [of b1] by simp
  from div_mod_pair [OF this, of "unat a div 2 ^ 16" "unat b0"] show ?thesis
    by (simp add: word_unat_eq_iff unat_v4_byte0 unat_v4_byte [of "Suc 0"] div_mult2_eq [symmetric])
qed

lemma v4_byte0_nibble_iff: "v4_byte 0 a AND 0xF0 = 0xE0 \<longleftrightarrow> unat a div 2 ^ 28 = 14"
proof -
  have "(0xF0 :: 8 word) = NOT (mask 4)" by (simp add: mask_eq_exp_minus_1)
  then show ?thesis
    using and_high_iff [of "0xE0 :: 8 word" 4 "v4_byte 0 a"]
    by (simp add: unat_v4_byte0 div_mult2_eq [symmetric])
qed

lemma v4_byte01_nibble_iff:
  "v4_byte 0 a = 172 \<and> v4_byte 1 a AND 0xF0 = 16 \<longleftrightarrow> unat a div 2 ^ 20 = 0xAC1"
proof -
  have "(0xF0 :: 8 word) = NOT (mask 4)" by (simp add: mask_eq_exp_minus_1)
  then have n: "v4_byte 1 a AND 0xF0 = 16 \<longleftrightarrow> unat (v4_byte 1 a) div 16 = 1"
    using and_high_iff [of "16 :: 8 word" 4 "v4_byte 1 a"] by simp
  define x where "x = unat a div 2 ^ 16"
  have "unat a div 2 ^ 24 = x div 256" "unat a div 2 ^ 20 = x div 16"
    by (simp_all add: x_def div_mult2_eq [symmetric])
  moreover have "unat (v4_byte 1 a) = x mod 256" by (simp add: x_def unat_v4_byte)
  moreover have "x mod 256 div 16 = x div 16 mod 16"
    using mod_mult2_eq [of x 16 16] by simp
  moreover have "x div 256 = x div 16 div 16" by (simp add: div_mult2_eq [symmetric])
  moreover have "v4_byte 0 a = 172 \<longleftrightarrow> unat a div 2 ^ 24 = 172"
    by (simp add: word_unat_eq_iff unat_v4_byte0)
  ultimately show ?thesis
    using div_mod_pair [of 1 16 "x div 16" 172] by (simp only: n) simp
qed

lemma v4_link_local_multicast: "v4_byte 0 a = 224 \<Longrightarrow> unat a div 2 ^ 28 = 14"
  by (subst v4_byte0_nibble_iff [symmetric]) simp

lemma prefix4_iff:
  "prefix_contains (Prefix4 p n) (Addr4 a) \<longleftrightarrow> unat a div 2 ^ (32 - n) = unat p div 2 ^ (32 - n)"
  by (simp only: prefix_contains.simps drop_bit_xor_iff)

lemma no_v4_embedding: "\<not> list_ex (\<lambda>p. prefix_contains p (Addr4 a)) v4EmbeddingPrefixes"
  by (simp add: v4EmbeddingPrefixes_def)

lemma v4_predicates:
  "is_loopback (Addr4 a) \<or> is_private (Addr4 a) \<or> is_link_local_unicast (Addr4 a)
     \<or> is_link_local_multicast (Addr4 a) \<or> is_multicast (Addr4 a) \<longleftrightarrow>
   unat a div 2 ^ 24 = 127 \<or> unat a div 2 ^ 24 = 10 \<or> unat a div 2 ^ 20 = 0xAC1
     \<or> unat a div 2 ^ 16 = 0xC0A8 \<or> unat a div 2 ^ 16 = 0xA9FE \<or> unat a div 2 ^ 28 = 14"
proof -
  have "v4_byte 0 a = 127 \<longleftrightarrow> unat a div 2 ^ 24 = 127" "v4_byte 0 a = 10 \<longleftrightarrow> unat a div 2 ^ 24 = 10"
    by (simp_all add: word_unat_eq_iff unat_v4_byte0)
  moreover have "v4_byte 0 a = 192 \<and> v4_byte 1 a = 168 \<longleftrightarrow> unat a div 2 ^ 16 = 0xC0A8"
    "v4_byte 0 a = 169 \<and> v4_byte 1 a = 254 \<longleftrightarrow> unat a div 2 ^ 16 = 0xA9FE"
    by (simp_all only: v4_byte01_iff) simp_all
  ultimately show ?thesis
    using v4_link_local_multicast [of a]
    by (auto simp only: is_loopback.simps is_private.simps is_link_local_unicast.simps
        is_link_local_multicast.simps is_multicast.simps v4_byte0_nibble_iff v4_byte01_nibble_iff)
qed

lemma v4_blocked:
  "list_ex (\<lambda>p. prefix_contains p (Addr4 a)) blockedPrefixes \<longleftrightarrow>
   unat a div 2 ^ 24 = 0 \<or> unat a div 2 ^ 22 = 0x191 \<or> unat a div 2 ^ 8 = 0xC00000
     \<or> unat a div 2 ^ 8 = 0xC05863 \<or> unat a div 2 ^ 8 = 0xC00002 \<or> unat a div 2 ^ 17 = 0x6309
     \<or> unat a div 2 ^ 8 = 0xC63364 \<or> unat a div 2 ^ 8 = 0xCB0071 \<or> unat a div 2 ^ 28 = 15"
  by (simp add: blockedPrefixes_def prefix4_iff del: prefix_contains.simps(1))

lemma unat_32: "unat (a :: 32 word) < 2 ^ 32"
  by (rule order_less_le_trans [OF unsigned_less]) simp

lemma div_eq_closed_interval:
  fixes x m q :: nat
  assumes "0 < m"
  shows "x div m = q \<longleftrightarrow> q * m \<le> x \<and> x \<le> q * m + (m - 1)"
  using assms div_eq_interval [OF assms, of x q] by auto

text \<open>An address that wraps nothing is public when no predicate and no blocked prefix
  claims it; the two groups of tests can then be rewritten separately.\<close>

lemma IsPublic_plain:
  assumes "ip \<noteq> AddrInvalid" and "unmap ip = ip"
    and "\<not> list_ex (\<lambda>p. prefix_contains p ip) v4EmbeddingPrefixes"
  shows "IsPublic ip \<longleftrightarrow>
     \<not> (is_unspecified ip \<or> is_loopback ip \<or> is_private ip \<or> is_link_local_unicast ip
        \<or> is_link_local_multicast ip \<or> is_interface_local_multicast ip \<or> is_multicast ip)
     \<and> \<not> list_ex (\<lambda>p. prefix_contains p ip) blockedPrefixes"
  using assms by (simp only: IsPublic.simps [of ip] Let_def if_False) simp

lemma public_tests_combine:
  assumes "(lb \<or> pr \<or> llu \<or> llm \<or> mc) \<longleftrightarrow> X" and "B \<longleftrightarrow> Y" and "u \<Longrightarrow> Y" and "i \<Longrightarrow> X"
  shows "(\<not> (u \<or> lb \<or> pr \<or> llu \<or> llm \<or> i \<or> mc) \<and> \<not> B) \<longleftrightarrow> \<not> (X \<or> Y)"
  using assms by blast

lemma IsPublic_v4: "IsPublic (Addr4 a) \<longleftrightarrow> \<not> in_ranges v4_special (unat a)"
proof -
  have lt: "unat a \<le> 0xFFFFFFFF" using unat_32 [of a] by simp
  have "IsPublic (Addr4 a) \<longleftrightarrow> \<not> ((unat a div 2 ^ 24 = 127 \<or> unat a div 2 ^ 24 = 10
     \<or> unat a div 2 ^ 20 = 0xAC1 \<or> unat a div 2 ^ 16 = 0xC0A8 \<or> unat a div 2 ^ 16 = 0xA9FE
     \<or> unat a div 2 ^ 28 = 14) \<or> (unat a div 2 ^ 24 = 0 \<or> unat a div 2 ^ 22 = 0x191
     \<or> unat a div 2 ^ 8 = 0xC00000 \<or> unat a div 2 ^ 8 = 0xC05863 \<or> unat a div 2 ^ 8 = 0xC00002
     \<or> unat a div 2 ^ 17 = 0x6309 \<or> unat a div 2 ^ 8 = 0xC63364 \<or> unat a div 2 ^ 8 = 0xCB0071
     \<or> unat a div 2 ^ 28 = 15))"
    by (subst IsPublic_plain, simp, simp, rule no_v4_embedding)
       (rule public_tests_combine [OF v4_predicates v4_blocked], simp_all)
  also have "\<dots> \<longleftrightarrow> \<not> in_ranges v4_special (unat a)"
  proof -
    have "3758096384 \<le> unat a \<longleftrightarrow> 3758096384 \<le> unat a \<and> unat a \<le> 4026531839 \<or> 4026531840 \<le> unat a"
      by auto
    then show ?thesis
      using lt by (simp add: div_eq_closed_interval in_ranges_def v4_special_def) argo
  qed
  finally show ?thesis .
qed

section \<open>The IPv6 predicates as intervals\<close>

lemma unat_128: "unat (a :: 128 word) < 2 ^ 128"
  by (rule order_less_le_trans [OF unsigned_less]) simp

lemma unat_v6_u16_0: "unat (v6_u16_0 a) = unat a div 2 ^ 112"
proof -
  have "unat a div 2 ^ 112 < 2 ^ 16"
    using unat_128 [of a] by (simp add: less_mult_imp_div_less)
  then show ?thesis
    by (simp add: v6_u16_0_def unsigned_ucast_eq unat_drop_bit take_bit_nat_eq_self)
qed

lemma unat_v6_byte0: "unat (v6_byte0 a) = unat a div 2 ^ 120"
proof -
  have "unat a div 2 ^ 120 < 2 ^ 8"
    using unat_128 [of a] by (simp add: less_mult_imp_div_less)
  then show ?thesis
    by (simp add: v6_byte0_def unsigned_ucast_eq unat_drop_bit take_bit_nat_eq_self)
qed

lemma v6_private_iff: "v6_byte0 a AND 0xFE = 0xFC \<longleftrightarrow> unat a div 2 ^ 121 = 0x7E"
proof -
  have m: "(0xFE :: 8 word) = NOT (mask 1)" by (simp add: mask_eq_exp_minus_1)
  have c: "(0xFC :: 8 word) AND NOT (mask 1) = 0xFC" by (simp add: mask_eq_exp_minus_1)
  show ?thesis
    unfolding m and_high_iff [OF c] by (simp add: unat_v6_byte0 div_mult2_eq [symmetric])
qed

lemma v6_link_local_iff: "v6_u16_0 a AND 0xFFC0 = 0xFE80 \<longleftrightarrow> unat a div 2 ^ 118 = 0x3FA"
proof -
  have "(0xFFC0 :: 16 word) = NOT (mask 6)" by (simp add: mask_eq_exp_minus_1)
  then show ?thesis
    using and_high_iff [of "0xFE80 :: 16 word" 6 "v6_u16_0 a"]
    by (simp add: unat_v6_u16_0 div_mult2_eq [symmetric])
qed

lemma v6_multicast_iff: "drop_bit 120 a = (0xFF :: 128 word) \<longleftrightarrow> unat a div 2 ^ 120 = 0xFF"
  by (simp add: word_unat_eq_iff unat_drop_bit)

text \<open>The two scoped multicast tests only ever hold inside the multicast range.\<close>

lemma v6_scoped_multicast:
  fixes s :: "16 word"
  assumes "v6_u16_0 a AND 0xFF0F = s" and "drop_bit 8 s = 0xFF"
  shows "unat a div 2 ^ 120 = 0xFF"
proof -
  have "drop_bit 8 (v6_u16_0 a) = drop_bit 8 (v6_u16_0 a AND 0xFF0F)"
  proof (rule bit_word_eqI)
    fix n assume "n < LENGTH(16)"
    then have "n \<in> {0, 1, 2, 3, 4, 5, 6, 7, 8, 9, 10, 11, 12, 13, 14, 15}" by simp arith
    then show "bit (drop_bit 8 (v6_u16_0 a)) n = bit (drop_bit 8 (v6_u16_0 a AND 0xFF0F)) n"
      by (auto simp: bit_simps dest: bit_imp_le_length)
  qed
  then have "unat (drop_bit 8 (v6_u16_0 a)) = 0xFF" using assms by simp
  then show ?thesis by (simp add: unat_drop_bit unat_v6_u16_0 div_mult2_eq [symmetric])
qed

lemma prefix6_iff:
  "prefix_contains (Prefix6 p n) (Addr6 a []) \<longleftrightarrow>
     unat a div 2 ^ (128 - n) = unat p div 2 ^ (128 - n)"
  by (simp only: prefix_contains.simps and_not_mask_zero_iff drop_bit_xor_iff simp_thms)

lemma prefix6_zoned: "z \<noteq> [] \<Longrightarrow> \<not> prefix_contains p (Addr6 a z)"
  by (cases p) auto

lemma is4in6_iff: "is4in6 (Addr6 a z) \<longleftrightarrow> unat a div 2 ^ 32 = 0xFFFF"
  by (simp add: word_unat_eq_iff unat_drop_bit)

lemma v6_embedding:
  "list_ex (\<lambda>p. prefix_contains p (Addr6 a [])) v4EmbeddingPrefixes \<longleftrightarrow>
     unat a div 2 ^ 32 = 0x0064FF9B0000000000000000 \<or> unat a div 2 ^ 80 = 0x0064FF9B0001
     \<or> unat a div 2 ^ 32 = 0"
  by (simp add: v4EmbeddingPrefixes_def prefix6_iff del: prefix_contains.simps(2))

lemma v4_wrappers_iff:
  "in_ranges v4_wrappers (unat (a :: 128 word)) \<longleftrightarrow>
     is4in6 (Addr6 a []) \<or> list_ex (\<lambda>p. prefix_contains p (Addr6 a [])) v4EmbeddingPrefixes"
  by (simp only: is4in6_iff v6_embedding)
     (simp add: div_eq_closed_interval in_ranges_def v4_wrappers_def)

lemma v6_blocked:
  "list_ex (\<lambda>p. prefix_contains p (Addr6 a [])) blockedPrefixes \<longleftrightarrow>
     unat a div 2 ^ 64 = 0x0100000000000000 \<or> unat a div 2 ^ 96 = 0x20010000
     \<or> unat a div 2 ^ 100 = 0x2001002 \<or> unat a div 2 ^ 96 = 0x20010DB8
     \<or> unat a div 2 ^ 112 = 0x2002"
  by (simp add: blockedPrefixes_def prefix6_iff del: prefix_contains.simps(2))

lemma v6_multicast_scopes:
  "v6_u16_0 a AND 0xFF0F = 0xFF01 \<Longrightarrow> unat a div 2 ^ 120 = 0xFF"
  "v6_u16_0 a AND 0xFF0F = 0xFF02 \<Longrightarrow> unat a div 2 ^ 120 = 0xFF"
  by (erule v6_scoped_multicast, simp)+

lemma v6_predicates:
  assumes "\<not> is4in6 (Addr6 a z)" and "a \<noteq> 1"
  shows "is_loopback (Addr6 a z) \<or> is_private (Addr6 a z) \<or> is_link_local_unicast (Addr6 a z)
     \<or> is_link_local_multicast (Addr6 a z) \<or> is_multicast (Addr6 a z) \<longleftrightarrow>
   unat a div 2 ^ 121 = 0x7E \<or> unat a div 2 ^ 118 = 0x3FA \<or> unat a div 2 ^ 120 = 0xFF"
  using assms v6_multicast_scopes [of a]
  by (simp only: is_loopback.simps is_private.simps is_link_local_unicast.simps
      is_link_local_multicast.simps is_multicast.simps v6_private_iff v6_link_local_iff
      v6_multicast_iff if_False simp_thms) blast

lemma IsPublic_unmap: "IsPublic (unmap ip) = IsPublic ip"
proof -
  have "unmap (unmap ip) = unmap ip" and "unmap ip = AddrInvalid \<longleftrightarrow> ip = AddrInvalid"
    by (cases ip; simp)+
  then show ?thesis by (simp only: IsPublic.simps [of ip] IsPublic.simps [of "unmap ip"])
qed

lemma IsPublic_embedded:
  assumes "list_ex (\<lambda>p. prefix_contains p (unmap ip)) v4EmbeddingPrefixes"
  shows "IsPublic ip = IsPublic (Addr4 (low32 (unmap ip)))"
proof -
  have "ip \<noteq> AddrInvalid" using embedding_is_addr6 [OF assms] by auto
  then show ?thesis using assms by (subst IsPublic.simps) (simp only: Let_def if_True if_False)
qed

lemma IsPublic_wrapped:
  assumes "in_ranges v4_wrappers (unat a)"
  shows "IsPublic (Addr6 a []) = IsPublic (Addr4 (ucast a))"
proof (cases "is4in6 (Addr6 a [])")
  case True
  then show ?thesis using IsPublic_unmap [of "Addr6 a []"] by (simp only: unmap.simps if_True)
next
  case False
  then have "unmap (Addr6 a []) = Addr6 a []" by (simp only: unmap.simps if_False)
  then show ?thesis
    using False assms IsPublic_embedded [of "Addr6 a []"]
    by (simp only: v4_wrappers_iff simp_thms low32.simps)
qed

lemma IsPublic_v6_plain:
  assumes "\<not> in_ranges v4_wrappers (unat a)"
  shows "IsPublic (Addr6 a []) \<longleftrightarrow> \<not> in_ranges v6_special (unat a)"
proof -
  from assms have n4: "\<not> is4in6 (Addr6 a [])"
    and ne: "\<not> list_ex (\<lambda>p. prefix_contains p (Addr6 a [])) v4EmbeddingPrefixes"
    unfolding v4_wrappers_iff by blast+
  have small: "a \<noteq> 0" "a \<noteq> 1" using ne by (auto simp only: v6_embedding)
      (simp_all add: v6_embedding)
  have um: "unmap (Addr6 a []) = Addr6 a []" using n4 by (simp only: unmap.simps if_False)
  have lt: "unat a \<le> 2 ^ 128 - 1" using unat_128 [of a] by simp
  have "IsPublic (Addr6 a []) \<longleftrightarrow> \<not> ((unat a div 2 ^ 121 = 0x7E \<or> unat a div 2 ^ 118 = 0x3FA
      \<or> unat a div 2 ^ 120 = 0xFF) \<or> (unat a div 2 ^ 64 = 0x0100000000000000
      \<or> unat a div 2 ^ 96 = 0x20010000 \<or> unat a div 2 ^ 100 = 0x2001002
      \<or> unat a div 2 ^ 96 = 0x20010DB8 \<or> unat a div 2 ^ 112 = 0x2002))"
  proof (rule trans [OF IsPublic_plain [OF _ um ne]
        public_tests_combine [OF v6_predicates [OF n4 small(2)] v6_blocked]])
    show "Addr6 a [] \<noteq> AddrInvalid" by simp
  next
    assume "is_unspecified (Addr6 a [])"
    then show "unat a div 2 ^ 64 = 0x0100000000000000 \<or> unat a div 2 ^ 96 = 0x20010000
      \<or> unat a div 2 ^ 100 = 0x2001002 \<or> unat a div 2 ^ 96 = 0x20010DB8
      \<or> unat a div 2 ^ 112 = 0x2002" using small by simp
  next
    assume "is_interface_local_multicast (Addr6 a [])"
    then show "unat a div 2 ^ 121 = 0x7E \<or> unat a div 2 ^ 118 = 0x3FA \<or> unat a div 2 ^ 120 = 0xFF"
      using v6_multicast_scopes(1) [of a]
      by (simp only: is_interface_local_multicast.simps simp_thms)
  qed
  also have "\<dots> \<longleftrightarrow> \<not> in_ranges v6_special (unat a)"
    using lt by (simp add: div_eq_closed_interval in_ranges_def v6_special_def) argo
  finally show ?thesis .
qed

section \<open>The guard on resolved addresses\<close>

lemma CheckAddr_none_iff:
  "CheckAddr parse_addr address = None \<longleftrightarrow>
     (\<exists>host port ip. SplitHostPort address = Inr (host, port) \<and> parse_addr host = Some ip
        \<and> IsPublic ip)"
  by (auto simp: CheckAddr_def split: sum.splits option.splits if_splits)

lemma CheckAddr_blocked:
  assumes "CheckAddr parse_addr address = Some e"
  shows "errors_is e ErrBlocked"
  using assms by (auto simp: CheckAddr_def split: sum.splits option.splits if_splits)

section \<open>Properties\<close>

text \<open>
  C6: On IPv4 addresses the guard, a mixture of byte tests, nibble masks and fourteen
  prefixes, is exactly the complement of a table of fourteen address intervals (this
  network, private, carrier-grade NAT, loopback, link-local, documentation, benchmarking,
  relay, multicast and reserved space).
\<close>

theorem guard_v4_exact: "IsPublic (Addr4 a) \<longleftrightarrow> \<not> in_ranges v4_special (unat a)"
  by (rule IsPublic_v4)

text \<open>
  C7: On IPv6 addresses without a zone the guard is exactly: when the address is one of
  the four forms that name an IPv4 address (mapped, well-known NAT64, local-use NAT64,
  compatible), the verdict on its low 32 bits as an IPv4 address; otherwise the
  complement of a table of eight intervals.
\<close>

theorem guard_v6_exact:
  "IsPublic (Addr6 a []) \<longleftrightarrow>
     (if in_ranges v4_wrappers (unat a) then \<not> in_ranges v4_special (unat a mod 2 ^ 32)
      else \<not> in_ranges v6_special (unat a))"
proof -
  have "unat (ucast a :: 32 word) = unat a mod 2 ^ 32"
    by (simp add: unsigned_ucast_eq take_bit_eq_mod)
  then show ?thesis
    using IsPublic_wrapped [of a] IsPublic_v6_plain [of a] IsPublic_v4 [of "ucast a"] by simp
qed

lemma IsPublic_zoned:
  assumes "z \<noteq> []" and "\<not> is4in6 (Addr6 a z)"
  shows "IsPublic (Addr6 a z) \<longleftrightarrow>
     a \<noteq> 1 \<and> \<not> (unat a div 2 ^ 121 = 0x7E \<or> unat a div 2 ^ 118 = 0x3FA \<or> unat a div 2 ^ 120 = 0xFF)"
proof -
  have none: "\<not> list_ex (\<lambda>p. prefix_contains p (Addr6 a z)) ps" for ps
    using prefix6_zoned [OF assms(1)] by (auto simp: list_ex_iff)
  have plain: "IsPublic (Addr6 a z) \<longleftrightarrow>
     \<not> (is_loopback (Addr6 a z) \<or> is_private (Addr6 a z) \<or> is_link_local_unicast (Addr6 a z)
        \<or> is_link_local_multicast (Addr6 a z) \<or> is_interface_local_multicast (Addr6 a z)
        \<or> is_multicast (Addr6 a z))"
    using assms none by (subst IsPublic_plain) (auto simp del: is4in6.simps)
  show ?thesis
  proof (cases "a = 1")
    case True
    then show ?thesis using assms(2) plain by (simp del: is4in6.simps)
  next
    case False
    then show ?thesis
      using v6_predicates [OF assms(2) False] v6_multicast_scopes(1) [of a] assms(2)
      by (simp only: plain is_interface_local_multicast.simps) blast
  qed
qed

text \<open>
  C37: With a zone the prefix tables no longer apply.  An IPv4-mapped address loses its zone with
  the mapping and gets the verdict of its IPv4 address.  For every other zoned IPv6 address
  no prefix contains it and the unspecified address with a zone is not equal to the unspecified
  address, so that only the loopback address and the unique-local, link-local and multicast
  ranges are rejected: all else, among them \<open>::\<close>, the NAT64 forms of private IPv4
  addresses, 6to4, Teredo and documentation space, counts as public.
\<close>

theorem guard_zoned_addresses:
  assumes "z \<noteq> []"
  shows "IsPublic (Addr6 a z) \<longleftrightarrow>
     (if unat a div 2 ^ 32 = 0xFFFF then \<not> in_ranges v4_special (unat a mod 2 ^ 32)
      else a \<noteq> 1 \<and> \<not> (unat a div 2 ^ 121 = 0x7E \<or> unat a div 2 ^ 118 = 0x3FA \<or> unat a div 2 ^ 120 = 0xFF))"
proof (cases "is4in6 (Addr6 a z)")
  case True
  have "unat (ucast a :: 32 word) = unat a mod 2 ^ 32" by (simp add: unsigned_ucast_eq take_bit_eq_mod)
  then show ?thesis
    using True is4in6_iff [of a z] IsPublic_unmap [of "Addr6 a z"] IsPublic_v4 [of "ucast a"]
    by (simp del: is4in6.simps)
next
  case False
  then show ?thesis using IsPublic_zoned [OF assms False] is4in6_iff [of a z] by (simp del: is4in6.simps)
qed

text \<open>
  The check of a resolved \<open>ip:port\<close> fails closed.  It accepts only what splits into
  host and port, parses as an IP address and is public; every rejection, also of text
  that is no address at all, is an \<open>ErrBlocked\<close> that callers recognise as permanent.
  The dialer built with private networks allowed checks nothing, the other one is this
  check.
\<close>

theorem check_addr_fails_closed:
  "(CheckAddr parse_addr address = None \<longleftrightarrow>
      (\<exists>host port ip. SplitHostPort address = Inr (host, port) \<and> parse_addr host = Some ip
         \<and> IsPublic ip))
   \<and> pred_option (\<lambda>e. errors_is e ErrBlocked) (CheckAddr parse_addr address)
   \<and> dial_control parse_addr (NewDialer b) address =
       (if b then None else CheckAddr parse_addr address)"
  using CheckAddr_none_iff [of parse_addr address] CheckAddr_blocked [of parse_addr address]
  by (auto simp: pred_option_def dial_control_def NewDialer_def option.pred_set
      simp del: errors_is.simps)

section \<open>Witnesses\<close>

theorem guard_zoned_addresses_witness:
  "IsPublic (Addr6 0 ''lo'') \<and> \<not> IsPublic (Addr6 0 [])
   \<and> IsPublic (Addr6 0x0064FF9B0000000000000000A9FEA9FE ''eth0'')
   \<and> \<not> IsPublic (Addr6 0x0064FF9B0000000000000000A9FEA9FE [])
   \<and> \<not> IsPublic (Addr6 0xFFFF0A000001 ''eth0'')"
proof -
  have "IsPublic (Addr6 0 ''lo'')" "IsPublic (Addr6 0x0064FF9B0000000000000000A9FEA9FE ''eth0'')"
    "\<not> IsPublic (Addr6 0xFFFF0A000001 ''eth0'')"
    by (subst guard_zoned_addresses, simp_all add: in_ranges_def v4_special_def)+
  moreover have "\<not> IsPublic (Addr6 0 [])" "\<not> IsPublic (Addr6 0x0064FF9B0000000000000000A9FEA9FE [])"
    by (subst IsPublic_wrapped,
        simp_all add: in_ranges_def v4_wrappers_def v4_special_def IsPublic_v4)+
  ultimately show ?thesis by blast
qed

end
