(* ===== verification/Httpsend.thy ===== *)
theory Httpsend
  imports Go_Http Go_Strconv Safedial
begin

text \<open>
  Model of \<open>internal/httpsend/httpsend.go\<close>: the HTTP client every executor sends with,
  the bounded body read, the rune-safe truncation and the request authentication.
  \<open>client_do\<close> is the part of net/http below it: candidate addresses are dialled in
  order, each one passing the dialer's control hook before a connection is attempted,
  and the network itself is the parameter \<open>net\<close>.
\<close>

section \<open>The operations of httpsend.go\<close>

definition HeaderTimestamp :: string where "HeaderTimestamp = ''X-Mkqd-Timestamp''"
definition HeaderSignature :: string where "HeaderSignature = ''X-Mkqd-Signature''"

definition DefaultMaxResponseBytes :: int where "DefaultMaxResponseBytes = 65536"
definition drainLimit :: nat where "drainLimit = 8192"

record http_client =
  c_dialer :: dialer
  c_max_idle_conns :: nat
  c_max_idle_conns_per_host :: nat
  c_idle_conn_timeout :: duration
  c_proxy_from_env :: bool
  c_follow_redirects :: bool

definition NewClient :: "bool \<Rightarrow> http_client" where
  "NewClient allowPrivate =
     \<lparr>c_dialer = NewDialer allowPrivate, c_max_idle_conns = 256, c_max_idle_conns_per_host = 64,
      c_idle_conn_timeout = 90000000000, c_proxy_from_env = allowPrivate,
      c_follow_redirects = False\<rparr>"

text \<open>The bytes kept and the number of bytes taken off the wire.  The deferred discard
  runs on every path, and reads nothing more once the body has failed.\<close>

definition ReadBody :: "response \<Rightarrow> int \<Rightarrow> string result \<times> nat" where
  "ReadBody resp mx =
     (let limit = nat (if mx \<le> 0 then DefaultMaxResponseBytes else mx);
          data = body_data resp
      in if limit \<le> length data
         then (Inr (take limit data), min (length data) (limit + drainLimit))
         else case body_err resp of
                None \<Rightarrow> (Inr data, length data)
              | Some e \<Rightarrow> (Inl e, length data))"

definition RuneStart :: "char \<Rightarrow> bool" where
  "RuneStart c \<longleftrightarrow> \<not> (128 \<le> byte c \<and> byte c < 192)"

fun back_to_rune_start :: "string \<Rightarrow> nat \<Rightarrow> nat" where
  "back_to_rune_start s 0 = 0"
| "back_to_rune_start s (Suc k) =
     (if RuneStart (s ! Suc k) then Suc k else back_to_rune_start s k)"

definition Truncate :: "string \<Rightarrow> nat \<Rightarrow> string" where
  "Truncate s limit =
     (if length s \<le> limit then s
      else take (back_to_rune_start s limit) s @ ''... (truncated)'')"

definition mac_message :: "64 word \<Rightarrow> string \<Rightarrow> string" where
  "mac_message unixSeconds body =
     ''v1:'' @ format_int (sint unixSeconds) @ '':'' @ body"

definition SignHMAC :: "golib \<Rightarrow> string \<Rightarrow> 64 word \<Rightarrow> string \<Rightarrow> string" where
  "SignHMAC L secret unixSeconds body =
     ''v1='' @ hex_encode (hmac_sha256 L secret (mac_message unixSeconds body))"

section \<open>The transport below the client\<close>

text \<open>The network: the candidate addresses of a request (those of the proxy when the
  client uses one), whether a connection succeeds, and the exchange on it.\<close>

record network =
  n_parse_addr :: "string \<Rightarrow> addr option"
  n_addrs :: "http_client \<Rightarrow> request \<Rightarrow> string list result"
  n_connect :: "string \<Rightarrow> go_error option"
  n_exchange :: "string \<Rightarrow> request \<Rightarrow> string \<Rightarrow> response result"

text \<open>Dialling in order: the first address that passes the control hook and connects, the
  first error otherwise, together with the addresses a connection was attempted to.\<close>

fun dial_serial :: "network \<Rightarrow> dialer \<Rightarrow> go_error option \<Rightarrow> string list \<Rightarrow> string result \<times> string list" where
  "dial_serial net d firstErr [] =
     (case firstErr of
        None \<Rightarrow> (Inl (Errorf ''missing address'' []), [])
      | Some e \<Rightarrow> (Inl (Wrapf ''dial tcp: %w'' [] e), []))"
| "dial_serial net d firstErr (a # as) =
     (case dial_control (n_parse_addr net) d a of
        Some e \<Rightarrow> dial_serial net d (case firstErr of None \<Rightarrow> Some e | Some f \<Rightarrow> Some f) as
      | None \<Rightarrow>
          (case n_connect net a of
             None \<Rightarrow> (Inr a, [a])
           | Some e \<Rightarrow>
               (case dial_serial net d (case firstErr of None \<Rightarrow> Some e | Some f \<Rightarrow> Some f) as of
                  (r, tried) \<Rightarrow> (r, a # tried))))"

definition client_do :: "network \<Rightarrow> http_client \<Rightarrow> request \<Rightarrow> string \<Rightarrow> response result \<times> string list" where
  "client_do net c req body =
     (case n_addrs net c req of
        Inl e \<Rightarrow> (Inl (Wrapf ''Post %q: %w'' [] e), [])
      | Inr as \<Rightarrow>
          (case dial_serial net (c_dialer c) None as of
             (Inl e, tried) \<Rightarrow> (Inl (Wrapf ''Post %q: %w'' [] e), tried)
           | (Inr a, tried) \<Rightarrow>
               (case n_exchange net a req body of
                  Inl e \<Rightarrow> (Inl (Wrapf ''Post %q: %w'' [] e), tried)
                | Inr resp \<Rightarrow> (Inr resp, tried))))"

section \<open>Well-formed UTF-8\<close>

text \<open>The width of the rune a string starts with, 0 when it does not start with one.\<close>

definition cont :: "char \<Rightarrow> bool" where
  "cont c \<longleftrightarrow> 128 \<le> byte c \<and> byte c < 192"

fun rune_width :: "string \<Rightarrow> nat" where
  "rune_width [] = 0"
| "rune_width (c # cs) =
     (if byte c < 128 then 1
      else if 194 \<le> byte c \<and> byte c < 224 then
        (case cs of c1 # _ \<Rightarrow> if cont c1 then 2 else 0 | _ \<Rightarrow> 0)
      else if 224 \<le> byte c \<and> byte c < 240 then
        (case cs of c1 # c2 # _ \<Rightarrow>
           if cont c1 \<and> cont c2 \<and> (byte c = 224 \<longrightarrow> 160 \<le> byte c1) \<and> (byte c = 237 \<longrightarrow> byte c1 < 160)
           then 3 else 0 | _ \<Rightarrow> 0)
      else if 240 \<le> byte c \<and> byte c < 245 then
        (case cs of c1 # c2 # c3 # _ \<Rightarrow>
           if cont c1 \<and> cont c2 \<and> cont c3 \<and> (byte c = 240 \<longrightarrow> 144 \<le> byte c1)
              \<and> (byte c = 244 \<longrightarrow> byte c1 < 144)
           then 4 else 0 | _ \<Rightarrow> 0)
      else 0)"

inductive utf8 :: "string \<Rightarrow> bool" where
  utf8_empty: "utf8 []"
| utf8_rune: "0 < rune_width s \<Longrightarrow> utf8 (drop (rune_width s) s) \<Longrightarrow> utf8 s"

lemma cont_not_start: "cont c \<longleftrightarrow> \<not> RuneStart c"
  by (simp add: cont_def RuneStart_def)

text \<open>A rune is its first byte and then continuation bytes only, and whether a string
  starts with it depends on those bytes alone.\<close>

lemma rune_width_cases:
  assumes "0 < rune_width s"
  obtains (one) c t where "s = c # t" "RuneStart c" "rune_width s = 1"
      "\<And>u. rune_width (c # u) = 1"
  | (two) c c1 t where "s = c # c1 # t" "RuneStart c" "cont c1" "rune_width s = 2"
      "\<And>u. rune_width (c # c1 # u) = 2"
  | (three) c c1 c2 t where "s = c # c1 # c2 # t" "RuneStart c" "cont c1" "cont c2" "rune_width s = 3"
      "\<And>u. rune_width (c # c1 # c2 # u) = 3"
  | (four) c c1 c2 c3 t where "s = c # c1 # c2 # c3 # t" "RuneStart c" "cont c1" "cont c2" "cont c3"
      "rune_width s = 4" "\<And>u. rune_width (c # c1 # c2 # c3 # u) = 4"
proof -
  from assms obtain c cs where s: "s = c # cs" by (cases s) auto
  consider "byte c < 128" | "194 \<le> byte c" "byte c < 224" | "224 \<le> byte c" "byte c < 240"
    | "240 \<le> byte c" "byte c < 245"
    using assms s by (auto split: if_splits)
  then show ?thesis
  proof cases
    case 1
    then show ?thesis using s by (intro one [of c cs]) (auto simp: RuneStart_def)
  next
    case 2
    then obtain c1 t where "cs = c1 # t" "cont c1"
      using assms s by (auto split: list.splits if_splits)
    then show ?thesis using 2 s by (intro two [of c c1 t]) (auto simp: RuneStart_def)
  next
    case 3
    then obtain c1 c2 t where "cs = c1 # c2 # t"
      and "cont c1 \<and> cont c2 \<and> (byte c = 224 \<longrightarrow> 160 \<le> byte c1) \<and> (byte c = 237 \<longrightarrow> byte c1 < 160)"
      using assms s by (auto split: list.splits if_splits)
    then show ?thesis using 3 s by (intro three [of c c1 c2 t]) (simp_all add: RuneStart_def)
  next
    case 4
    then obtain c1 c2 c3 t where "cs = c1 # c2 # c3 # t"
      and "cont c1 \<and> cont c2 \<and> cont c3 \<and> (byte c = 240 \<longrightarrow> 144 \<le> byte c1)
        \<and> (byte c = 244 \<longrightarrow> byte c1 < 144)"
      using assms s by (auto split: list.splits if_splits)
    then show ?thesis using 4 s by (intro four [of c c1 c2 c3 t]) (simp_all add: RuneStart_def)
  qed
qed

declare rune_width.simps [simp del]

lemma rune_width_Nil [simp]: "rune_width [] = 0"
  by (simp add: rune_width.simps)

lemma rune_width_le: "rune_width s \<le> length s \<and> rune_width s \<le> 4"
proof (cases "0 < rune_width s")
  case True
  then show ?thesis by (cases rule: rune_width_cases) auto
qed simp

lemma rune_interior:
  assumes "0 < i" and "i < rune_width s"
  shows "\<not> RuneStart (s ! i)"
proof -
  from assms have "0 < rune_width s" by simp
  then show ?thesis
    using assms
    by (cases rule: rune_width_cases)
       (auto simp: cont_not_start less_Suc_eq numeral_eq_Suc nth_Cons split: nat.splits)
qed

lemma rune_width_take:
  assumes "0 < rune_width s"
  shows "rune_width (take (rune_width s) s @ t) = rune_width s"
  using assms by (cases rule: rune_width_cases) simp_all

lemma utf8_append: "utf8 s \<Longrightarrow> utf8 t \<Longrightarrow> utf8 (s @ t)"
proof (induction rule: utf8.induct)
  case utf8_empty
  then show ?case by simp
next
  case (utf8_rune s)
  let ?w = "rune_width s"
  have le: "?w \<le> length s" using rune_width_le by blast
  have "take ?w s @ (drop ?w s @ t) = s @ t" by (metis append_assoc append_take_drop_id)
  then have w: "rune_width (s @ t) = ?w"
    using rune_width_take [OF utf8_rune.hyps(1), of "drop ?w s @ t"] by (simp only:)
  have "utf8 (drop ?w s @ t)" using utf8_rune by blast
  then show ?case
    using utf8_rune.hyps(1) le w by (intro utf8.utf8_rune [of "s @ t"]) simp_all
qed

lemma utf8_take_at_start:
  assumes "utf8 s" and "k < length s" and "RuneStart (s ! k)"
  shows "utf8 (take k s)"
  using assms
proof (induction arbitrary: k rule: utf8.induct)
  case utf8_empty
  then show ?case by simp
next
  case (utf8_rune s)
  let ?w = "rune_width s"
  show ?case
  proof (cases "k < ?w")
    case True
    then have "k = 0" using rune_interior [of k s] utf8_rune.prems(2) by auto
    then show ?thesis by (simp add: utf8_empty)
  next
    case False
    then have sp: "take k s = take ?w s @ take (k - ?w) (drop ?w s)"
      by (metis le_add_diff_inverse linorder_not_less take_add)
    have "utf8 (take (k - ?w) (drop ?w s))"
      using False utf8_rune.prems by (intro utf8_rune.IH) auto
    moreover have "utf8 (take ?w s)"
    proof (rule utf8.utf8_rune)
      have "rune_width (take ?w s) = ?w"
        using rune_width_take [OF utf8_rune.hyps(1), of "[]"] by simp
      then show "0 < rune_width (take ?w s)" "utf8 (drop (rune_width (take ?w s)) (take ?w s))"
        using utf8_rune.hyps(1) by (simp_all add: utf8_empty)
    qed
    ultimately show ?thesis unfolding sp by (intro utf8_append)
  qed
qed

section \<open>Truncation\<close>

lemma back_to_rune_start_le: "back_to_rune_start s k \<le> k"
  by (induction k) auto

lemma back_to_rune_start_start:
  "back_to_rune_start s k = 0 \<or> RuneStart (s ! back_to_rune_start s k)"
  by (induction k) auto

lemma back_to_rune_start_ge: "j \<le> k \<Longrightarrow> RuneStart (s ! j) \<Longrightarrow> j \<le> back_to_rune_start s k"
  by (induction k) (auto simp: le_Suc_eq)

text \<open>In well-formed UTF-8 a rune start is never more than three bytes back.\<close>

lemma utf8_start_near:
  assumes "utf8 s" and "k < length s"
  shows "\<exists>j \<le> k. k \<le> j + 3 \<and> RuneStart (s ! j)"
  using assms
proof (induction arbitrary: k rule: utf8.induct)
  case utf8_empty
  then show ?case by simp
next
  case (utf8_rune s)
  let ?w = "rune_width s"
  show ?case
  proof (cases "k < ?w")
    case True
    have "RuneStart (s ! 0)"
      using utf8_rune.hyps(1) by (cases rule: rune_width_cases) auto
    moreover have "k \<le> 0 + 3" using True rune_width_le [of s] by simp
    ultimately show ?thesis by blast
  next
    case False
    then have "k - ?w < length (drop ?w s)" using utf8_rune.prems by auto
    then obtain j where j: "j \<le> k - ?w" "k - ?w \<le> j + 3" "RuneStart (drop ?w s ! j)"
      using utf8_rune.IH by blast
    moreover have "drop ?w s ! j = s ! (?w + j)"
      using rune_width_le [of s] by (simp add: nth_drop)
    ultimately show ?thesis using False by (intro exI [of _ "?w + j"]) auto
  qed
qed

lemma utf8_ascii: "is_ascii s \<Longrightarrow> utf8 s"
proof (induction s)
  case Nil
  then show ?case by (simp add: utf8_empty)
next
  case (Cons c s)
  then have w: "rune_width (c # s) = 1" and s: "utf8 s"
    by (auto simp: is_ascii_def rune_width.simps)
  show ?case by (rule utf8.utf8_rune [of "c # s"]) (simp_all add: w s)
qed

lemma Truncate_length: "length (Truncate s limit) \<le> limit + 15"
  using back_to_rune_start_le [of s limit] by (auto simp: Truncate_def)

lemma Truncate_set: "set (Truncate s limit) \<subseteq> set s \<union> set ''... (truncated)''"
  using set_take_subset [of _ s] by (auto simp: Truncate_def)

section \<open>Dialling\<close>

lemma dial_serial_guarded:
  assumes "a \<in> set (snd (dial_serial net d e as))"
  shows "dial_control (n_parse_addr net) d a = None"
  using assms
  by (induction as arbitrary: e) (auto simp: case_prod_beta split: option.splits)

lemma dial_serial_all_blocked:
  assumes "\<forall>a \<in> set as. \<exists>f. dial_control (n_parse_addr net) d a = Some f \<and> errors_is f ErrBlocked"
    and "as \<noteq> [] \<or> e \<noteq> None" and "\<And>f. e = Some f \<Longrightarrow> errors_is f ErrBlocked"
  shows "\<exists>f. dial_serial net d e as = (Inl f, []) \<and> errors_is f ErrBlocked"
  using assms
proof (induction as arbitrary: e)
  case Nil
  then show ?case by auto
next
  case (Cons a as)
  from Cons.prems(1) obtain f where f: "dial_control (n_parse_addr net) d a = Some f"
    and "errors_is f ErrBlocked" by auto
  then show ?case
    using Cons.prems Cons.IH [of "Some (case e of None \<Rightarrow> f | Some g \<Rightarrow> g)"]
    by (cases e) auto
qed

lemma client_do_guarded:
  assumes "a \<in> set (snd (client_do net c req body))"
  shows "dial_control (n_parse_addr net) (c_dialer c) a = None"
proof (cases "n_addrs net c req")
  case (Inl e)
  then show ?thesis using assms by (simp add: client_do_def)
next
  case (Inr as)
  obtain r tried where "dial_serial net (c_dialer c) None as = (r, tried)" by fastforce
  then show ?thesis
    using Inr assms dial_serial_guarded [of a net "c_dialer c" None as]
    by (auto simp: client_do_def split: sum.splits)
qed

section \<open>Authenticated requests\<close>

lemma mac_message_inject: "mac_message t b = mac_message t' b' \<longleftrightarrow> t = t' \<and> b = b'"
proof
  assume eq: "mac_message t b = mac_message t' b'"
  define p p' where "p = format_int (sint t)" and "p' = format_int (sint t')"
  from eq have eq': "p @ '':'' @ b = p' @ '':'' @ b'"
    by (simp add: mac_message_def p_def p'_def)
  have no: "CHR '':'' \<notin> set (format_int i)" for i
    using format_int_chars [of "CHR '':''" i] by (auto simp: is_digit_def)
  have "takeWhile (\<lambda>c. c \<noteq> CHR '':'') (p @ '':'' @ b) = p"
    "takeWhile (\<lambda>c. c \<noteq> CHR '':'') (p' @ '':'' @ b') = p'"
    using no by (auto simp: p_def p'_def takeWhile_append)
  with eq' have "p = p'" by simp
  with eq' have "b = b'" by simp
  moreover have "t = t'"
    using \<open>p = p'\<close> by (intro signed_word_eqI) (simp add: p_def p'_def format_int_inject)
  ultimately show "t = t' \<and> b = b'" by simp
qed simp

section \<open>Properties\<close>

text \<open>
  C33: Cutting a failure message never breaks it.  On well-formed UTF-8 the result is
  well-formed UTF-8, at most fifteen bytes (the marker) longer than the limit, and what
  is kept is a prefix of the text that is at most three bytes short of the limit.
\<close>

theorem truncate_keeps_utf8:
  assumes "utf8 s"
  shows "utf8 (Truncate s limit) \<and> length (Truncate s limit) \<le> limit + 15
     \<and> (limit < length s \<longrightarrow> (\<exists>cut. cut \<le> limit \<and> limit \<le> cut + 3
           \<and> Truncate s limit = take cut s @ ''... (truncated)''))"
proof (cases "length s \<le> limit")
  case True
  then show ?thesis using assms by (simp add: Truncate_def)
next
  case False
  let ?cut = "back_to_rune_start s limit"
  have eq: "Truncate s limit = take ?cut s @ ''... (truncated)''"
    using False by (simp add: Truncate_def)
  have le: "?cut \<le> limit" by (rule back_to_rune_start_le)
  obtain j where "j \<le> limit" "limit \<le> j + 3" "RuneStart (s ! j)"
    using utf8_start_near [OF assms, of limit] False by auto
  then have near: "limit \<le> ?cut + 3" using back_to_rune_start_ge [of j limit s] by simp
  have "utf8 (take ?cut s)"
  proof (cases "?cut = 0")
    case True
    then show ?thesis by (simp add: utf8_empty)
  next
    case nz: False
    then have "RuneStart (s ! ?cut)" using back_to_rune_start_start [of s limit] by simp
    then show ?thesis using assms le False by (intro utf8_take_at_start) auto
  qed
  moreover have "utf8 ''... (truncated)''" by (intro utf8_ascii) (simp add: is_ascii_def)
  ultimately have "utf8 (Truncate s limit)" by (simp only: eq utf8_append)
  then show ?thesis using eq le near Truncate_length by blast
qed

text \<open>
  The bound on a response holds for what crosses the wire and not only for what is
  kept.  However large the body, at most the configured limit (64 KiB when it is zero
  or negative) plus 8 KiB is read, what is kept is a prefix of the body within the
  limit, and a read error is reported only when the body breaks before the limit.
\<close>

theorem read_body_bounded:
  "case ReadBody resp mx of (r, consumed) \<Rightarrow>
     let limit = nat (if mx \<le> 0 then 65536 else mx)
     in consumed \<le> limit + 8192
        \<and> (\<forall>kept. r = Inr kept \<longrightarrow> kept = take limit (body_data resp))
        \<and> (\<forall>e. r = Inl e \<longrightarrow> body_err resp = Some e \<and> length (body_data resp) < limit)"
  by (auto simp: ReadBody_def Let_def drainLimit_def DefaultMaxResponseBytes_def
      split: option.splits)

text \<open>
  The string that is authenticated determines the timestamp and the body: no
  different pair of a timestamp and a body (of any bytes, colons included) produces the
  same authenticated string, so a signature cannot be moved to another time or body
  without changing what is signed.
\<close>

theorem hmac_message_unambiguous:
  "SignHMAC L secret t b = ''v1='' @ hex_encode (hmac_sha256 L secret (mac_message t b))
   \<and> (mac_message t b = mac_message t' b' \<longleftrightarrow> t = t' \<and> b = b')"
  by (simp add: SignHMAC_def mac_message_inject)

text \<open>
  A client built with the guard on never attempts a connection to an address that is
  not public, whatever the name resolves to and however many candidates it has; it also
  uses no environment proxy and follows no redirect, which would each move the request
  past the check.
\<close>

theorem guarded_client_only_dials_public:
  assumes "a \<in> set (snd (client_do net (NewClient False) req body))"
  shows "(\<exists>host port ip. SplitHostPort a = Inr (host, port) \<and> n_parse_addr net host = Some ip
            \<and> IsPublic ip)
     \<and> \<not> c_proxy_from_env (NewClient False) \<and> \<not> c_follow_redirects (NewClient False)"
proof -
  have "CheckAddr (n_parse_addr net) a = None"
    using client_do_guarded [OF assms] by (simp add: dial_control_def NewClient_def NewDialer_def)
  then show ?thesis by (simp add: CheckAddr_none_iff NewClient_def)
qed

text \<open>
  When a name resolves only to addresses the guard rejects, the request fails with
  an error in which \<open>ErrBlocked\<close> is visible through every layer of wrapping, and no
  connection is attempted at all.
\<close>

theorem blocked_destination_is_visible:
  assumes "n_addrs net (NewClient False) req = Inr as" and "as \<noteq> []"
    and "\<forall>a \<in> set as. CheckAddr (n_parse_addr net) a \<noteq> None"
  shows "\<exists>e. client_do net (NewClient False) req body = (Inl e, []) \<and> errors_is e ErrBlocked"
proof -
  have "\<forall>a \<in> set as. \<exists>f. dial_control (n_parse_addr net) (c_dialer (NewClient False)) a = Some f
      \<and> errors_is f ErrBlocked"
    using assms(3) CheckAddr_blocked by (fastforce simp: dial_control_def NewClient_def NewDialer_def)
  then obtain f where
    "dial_serial net (c_dialer (NewClient False)) None as = (Inl f, [])" "errors_is f ErrBlocked"
    using dial_serial_all_blocked [of as net "c_dialer (NewClient False)" None] assms(2) by auto
  then show ?thesis using assms(1) by (simp add: client_do_def)
qed

section \<open>Witnesses\<close>

text \<open>A network in which every name resolves to the metadata address 169.254.169.254 and
  then to 8.8.8.8.\<close>

definition sample_net :: "string list \<Rightarrow> network" where
  "sample_net as = \<lparr>n_parse_addr = (\<lambda>h. if h = ''169.254.169.254'' then Some (Addr4 0xA9FEA9FE)
       else if h = ''8.8.8.8'' then Some (Addr4 0x08080808) else None),
     n_addrs = (\<lambda>c req. Inr as), n_connect = (\<lambda>a. None),
     n_exchange = (\<lambda>a req body. Inr \<lparr>status_code = 200, status_text = ''200 OK'',
       resp_header = Map.empty, body_data = ''ok'', body_err = None\<rparr>)\<rparr>"

lemma sample_net_simps [simp]:
  "n_addrs (sample_net as) c req = Inr as"
  "n_connect (sample_net as) a = None"
  "n_exchange (sample_net as) a req body = Inr \<lparr>status_code = 200, status_text = ''200 OK'',
     resp_header = Map.empty, body_data = ''ok'', body_err = None\<rparr>"
  by (simp_all add: sample_net_def)

definition sample_request :: request where
  "sample_request = \<lparr>r_method = ''POST'',
     r_url = \<lparr>u_scheme = ''http'', u_host = ''h'', u_request_uri = ''/''\<rparr>,
     r_host = ''h'', r_header = Map.empty\<rparr>"

lemmas split_defs = SplitHostPort_def last_index_byte_def split_host_def

lemma sample_check:
  "CheckAddr (n_parse_addr (sample_net as)) ''169.254.169.254:80'' \<noteq> None"
  "CheckAddr (n_parse_addr (sample_net as)) ''8.8.8.8:80'' = None"
  by (simp_all add: CheckAddr_def split_defs sample_net_def IsPublic_v4 in_ranges_def v4_special_def)

theorem truncate_keeps_utf8_witness:
  "utf8 (Truncate [CHR 0xE3, CHR 0x81, CHR 0x82, CHR 0xE3, CHR 0x81, CHR 0x84] 4)
   \<and> Truncate [CHR 0xE3, CHR 0x81, CHR 0x82, CHR 0xE3, CHR 0x81, CHR 0x84] 4
     = [CHR 0xE3, CHR 0x81, CHR 0x82] @ ''... (truncated)''"
proof -
  have "utf8 [CHR 0xE3, CHR 0x81, CHR 0x82, CHR 0xE3, CHR 0x81, CHR 0x84]"
    by (rule utf8.utf8_rune, simp add: rune_width.simps cont_def,
        simp add: rune_width.simps cont_def, rule utf8.utf8_rune)
       (simp_all add: rune_width.simps cont_def utf8_empty)
  from truncate_keeps_utf8 [OF this, of 4] show ?thesis
    by (simp add: Truncate_def RuneStart_def numeral_eq_Suc)
qed

theorem read_body_bounded_witness:
  "case ReadBody \<lparr>status_code = 200, status_text = [], resp_header = Map.empty,
       body_data = replicate 100 (CHR ''x''), body_err = None\<rparr> 10 of (r, consumed) \<Rightarrow>
     consumed \<le> 10 + 8192"
  using read_body_bounded [where resp = "\<lparr>status_code = 200, status_text = [],
      resp_header = Map.empty, body_data = replicate 100 (CHR ''x''), body_err = None\<rparr>" and mx = 10]
  by (auto simp: Let_def split: prod.splits)

theorem guarded_client_only_dials_public_witness:
  "\<exists>host port ip. SplitHostPort ''8.8.8.8:80'' = Inr (host, port)
     \<and> n_parse_addr (sample_net [''169.254.169.254:80'', ''8.8.8.8:80'']) host = Some ip \<and> IsPublic ip"
proof -
  have "''8.8.8.8:80'' \<in> set (snd (client_do (sample_net [''169.254.169.254:80'', ''8.8.8.8:80''])
      (NewClient False) sample_request []))"
    using sample_check [of "[''169.254.169.254:80'', ''8.8.8.8:80'']"]
    by (auto simp: client_do_def dial_control_def NewClient_def NewDialer_def)
  from guarded_client_only_dials_public [OF this] show ?thesis by blast
qed

theorem blocked_destination_is_visible_witness:
  "\<exists>e. client_do (sample_net [''169.254.169.254:80'']) (NewClient False) sample_request [] = (Inl e, [])
     \<and> errors_is e ErrBlocked"
proof (rule blocked_destination_is_visible)
  show "n_addrs (sample_net [''169.254.169.254:80'']) (NewClient False) sample_request
      = Inr [''169.254.169.254:80'']"
    by simp
  show "\<forall>a \<in> set [''169.254.169.254:80''].
      CheckAddr (n_parse_addr (sample_net [''169.254.169.254:80''])) a \<noteq> None"
    using sample_check(1) by simp
qed simp

end
