(* ===== verification/Go_Flag.thy ===== *)
theory Go_Flag
  imports Go_Strconv
begin

text \<open>
  The part of package flag the command line uses: \<open>FlagSet.Parse\<close> with \<open>ContinueOnError\<close> over string,
  boolean, integer, unsigned and duration flags, and the conversions behind them
  (\<open>strconv.ParseBool\<close>, \<open>ParseInt\<close> and \<open>ParseUint\<close> in base 0 at 64 bits).  A flag set is the list of
  its flags with their current values, in the order of their definition; the constructor of
  the default value is the kind of the flag.  What the package prints on a bad command
  line is not modelled.  \<open>time.ParseDuration\<close> is an argument.
\<close>

section \<open>Conversions\<close>

definition parse_bool :: "string \<Rightarrow> bool option" where
  "parse_bool s =
     (if s \<in> set [''1'', ''t'', ''T'', ''TRUE'', ''true'', ''True''] then Some True
      else if s \<in> set [''0'', ''f'', ''F'', ''FALSE'', ''false'', ''False''] then Some False
      else None)"

text \<open>The value of a digit or letter, \<open>None\<close> for other bytes.\<close>

definition digit36 :: "char \<Rightarrow> nat option" where
  "digit36 c =
     (if is_digit c then Some (digit_val c)
      else let l = byte (lower_byte c) in if 97 \<le> l \<and> l \<le> 122 then Some (l - 97 + 10) else None)"

text \<open>The base and the digits after its prefix, of a non-empty string.\<close>

definition split_base :: "string \<Rightarrow> nat \<times> string" where
  "split_base s =
     (if hd s \<noteq> CHR ''0'' then (10, s)
      else if 3 \<le> length s \<and> lower_byte (s ! 1) = CHR ''b'' then (2, drop 2 s)
      else if 3 \<le> length s \<and> lower_byte (s ! 1) = CHR ''o'' then (8, drop 2 s)
      else if 3 \<le> length s \<and> lower_byte (s ! 1) = CHR ''x'' then (16, drop 2 s)
      else (8, drop 1 s))"

fun digits_base :: "nat \<Rightarrow> 64 word \<Rightarrow> string \<Rightarrow> num_error + 64 word" where
  "digits_base base n [] = Inr n"
| "digits_base base n (c # cs) =
     (if c = CHR ''_'' then digits_base base n cs
      else case digit36 c of
        None \<Rightarrow> Inl ErrSyntax
      | Some d \<Rightarrow>
          if base \<le> d then Inl ErrSyntax
          else if word_of_nat (18446744073709551615 div base + 1) \<le> n then Inl ErrRange
          else let m = n * word_of_nat base; n1 = m + word_of_nat d
               in if n1 < m then Inl ErrRange else digits_base base n1 cs)"

text \<open>\<open>underscoreOK\<close>: the last thing seen is the start, a digit, an underscore or something else.\<close>

datatype seen = SeenStart | SeenDigit | SeenUnderscore | SeenOther

fun underscore_loop :: "bool \<Rightarrow> seen \<Rightarrow> string \<Rightarrow> bool" where
  "underscore_loop hex i [] = (i \<noteq> SeenUnderscore)"
| "underscore_loop hex i (c # cs) =
     (if is_digit c \<or> hex \<and> 97 \<le> byte (lower_byte c) \<and> byte (lower_byte c) \<le> 102
      then underscore_loop hex SeenDigit cs
      else if c = CHR ''_'' then i = SeenDigit \<and> underscore_loop hex SeenUnderscore cs
      else i \<noteq> SeenUnderscore \<and> underscore_loop hex SeenOther cs)"

definition underscore_ok :: "string \<Rightarrow> bool" where
  "underscore_ok s0 =
     (let s = snd (parse_int_sign s0)
      in if 2 \<le> length s \<and> hd s = CHR ''0'' \<and> lower_byte (s ! 1) \<in> {CHR ''b'', CHR ''o'', CHR ''x''}
         then underscore_loop (lower_byte (s ! 1) = CHR ''x'') SeenDigit (drop 2 s)
         else underscore_loop False SeenStart s)"

definition parse_uint0 :: "string \<Rightarrow> num_error + 64 word" where
  "parse_uint0 s =
     (if s = [] then Inl ErrSyntax
      else case split_base s of (base, ds) \<Rightarrow>
        (case digits_base base 0 ds of
           Inl e \<Rightarrow> Inl e
         | Inr n \<Rightarrow> if CHR ''_'' \<in> set ds \<and> \<not> underscore_ok s then Inl ErrSyntax else Inr n))"

definition parse_int0 :: "string \<Rightarrow> num_error + 64 word" where
  "parse_int0 s =
     (if s = [] then Inl ErrSyntax
      else case parse_int_sign s of (neg, ds) \<Rightarrow>
        (case parse_uint0 ds of
           Inl e \<Rightarrow> Inl e
         | Inr un \<Rightarrow>
             if \<not> neg \<and> 0x8000000000000000 \<le> un then Inl ErrRange
             else if neg \<and> 0x8000000000000000 < un then Inl ErrRange
             else Inr (if neg then - un else un)))"

section \<open>Flag sets\<close>

datatype flag_value =
    VString string | VBool bool | VInt go_int | VUint "64 word" | VDuration duration

type_synonym flag_set = "(string \<times> flag_value) list"

definition num_error :: "num_error \<Rightarrow> go_error" where
  "num_error e = (case e of ErrSyntax \<Rightarrow> Errorf ''parse error'' [] | ErrRange \<Rightarrow> Errorf ''value out of range'' [])"

text \<open>\<open>Value.Set\<close>: the flag's old value gives its kind.\<close>

definition flag_Set :: "(string \<Rightarrow> duration result) \<Rightarrow> flag_value \<Rightarrow> string \<Rightarrow> flag_value result" where
  "flag_Set pd old v =
     (case old of
        VString _ \<Rightarrow> Inr (VString v)
      | VBool _ \<Rightarrow> (case parse_bool v of None \<Rightarrow> Inl (Errorf ''parse error'' []) | Some b \<Rightarrow> Inr (VBool b))
      | VInt _ \<Rightarrow> map_sum num_error VInt (parse_int0 v)
      | VUint _ \<Rightarrow> map_sum num_error VUint (parse_uint0 v)
      | VDuration _ \<Rightarrow> (case pd v of Inl e \<Rightarrow> Inl (Errorf ''parse error'' []) | Inr d \<Rightarrow> Inr (VDuration d)))"

definition is_bool_flag :: "flag_value \<Rightarrow> bool" where
  "is_bool_flag v \<longleftrightarrow> (case v of VBool _ \<Rightarrow> True | _ \<Rightarrow> False)"

text \<open>What one argument is: the end of the flags (kept or, for two dashes, consumed), an error,
  or a flag with a value or without.\<close>

datatype flag_arg = NotFlag | Terminator | BadSyntax | FlagArg string "string option"

definition split_flag :: "string \<Rightarrow> flag_arg" where
  "split_flag s =
     (if length s < 2 \<or> hd s \<noteq> CHR ''-'' then NotFlag
      else if s = ''--'' then Terminator
      else let name = (if s ! 1 = CHR ''-'' then drop 2 s else drop 1 s)
           in if name = [] \<or> hd name = CHR ''-'' \<or> hd name = CHR ''='' then BadSyntax
              else case str_cut (tl name) (CHR ''='') of
                     Some (n, v) \<Rightarrow> FlagArg (hd name # n) (Some v)
                   | None \<Rightarrow> FlagArg name None)"

definition flag_update :: "flag_set \<Rightarrow> string \<Rightarrow> flag_value \<Rightarrow> flag_set" where
  "flag_update fv name v = map (\<lambda>(n, w). if n = name then (n, v) else (n, w)) fv"

text \<open>\<open>Parse\<close>: the flags with their values and the remaining arguments.\<close>

fun flag_Parse :: "(string \<Rightarrow> duration result) \<Rightarrow> flag_set \<Rightarrow> string list \<Rightarrow> (flag_set \<times> string list) result" where
  "flag_Parse pd fv [] = Inr (fv, [])"
| "flag_Parse pd fv (s # args) =
     (case split_flag s of
        NotFlag \<Rightarrow> Inr (fv, s # args)
      | Terminator \<Rightarrow> Inr (fv, args)
      | BadSyntax \<Rightarrow> Inl (Errorf ''bad flag syntax: %s'' [ArgS s])
      | FlagArg name val \<Rightarrow>
          (case map_of fv name of
             None \<Rightarrow>
               if name = ''help'' \<or> name = ''h'' then Inl (Sentinel ErrHelp)
               else Inl (Errorf ''flag provided but not defined: -%s'' [ArgS name])
           | Some old \<Rightarrow>
               if is_bool_flag old then
                 (case flag_Set pd old (case val of Some v \<Rightarrow> v | None \<Rightarrow> ''true'') of
                    Inl e \<Rightarrow> Inl (Errorf ''invalid boolean value %q for -%s: %v'' [ArgS (case val of Some v \<Rightarrow> v | None \<Rightarrow> ''true''), ArgS name, ArgE e])
                  | Inr w \<Rightarrow> flag_Parse pd (flag_update fv name w) args)
               else
                 (case val of
                    Some v \<Rightarrow>
                      (case flag_Set pd old v of
                         Inl e \<Rightarrow> Inl (Errorf ''invalid value %q for flag -%s: %v'' [ArgS v, ArgS name, ArgE e])
                       | Inr w \<Rightarrow> flag_Parse pd (flag_update fv name w) args)
                  | None \<Rightarrow>
                      (case args of
                         [] \<Rightarrow> Inl (Errorf ''flag needs an argument: -%s'' [ArgS name])
                       | v # rest \<Rightarrow>
                           (case flag_Set pd old v of
                              Inl e \<Rightarrow> Inl (Errorf ''invalid value %q for flag -%s: %v'' [ArgS v, ArgS name, ArgE e])
                            | Inr w \<Rightarrow> flag_Parse pd (flag_update fv name w) rest)))))"

text \<open>Reading a flag through the pointer its definition returned.\<close>

definition flag_string :: "flag_set \<Rightarrow> string \<Rightarrow> string" where
  "flag_string fv n = (case map_of fv n of Some (VString s) \<Rightarrow> s | _ \<Rightarrow> [])"

definition flag_bool :: "flag_set \<Rightarrow> string \<Rightarrow> bool" where
  "flag_bool fv n = (case map_of fv n of Some (VBool b) \<Rightarrow> b | _ \<Rightarrow> False)"

definition flag_int :: "flag_set \<Rightarrow> string \<Rightarrow> go_int" where
  "flag_int fv n = (case map_of fv n of Some (VInt i) \<Rightarrow> i | _ \<Rightarrow> 0)"

definition flag_uint :: "flag_set \<Rightarrow> string \<Rightarrow> 64 word" where
  "flag_uint fv n = (case map_of fv n of Some (VUint i) \<Rightarrow> i | _ \<Rightarrow> 0)"

definition flag_duration :: "flag_set \<Rightarrow> string \<Rightarrow> duration" where
  "flag_duration fv n = (case map_of fv n of Some (VDuration d) \<Rightarrow> d | _ \<Rightarrow> 0)"

section \<open>Facts\<close>

lemma flag_Parse_positional:
  "split_flag s = NotFlag \<Longrightarrow> flag_Parse pd fv (s # args) = Inr (fv, s # args)"
  by simp

lemma split_flag_plain: "s = [] \<or> hd s \<noteq> CHR ''-'' \<Longrightarrow> split_flag s = NotFlag"
  by (auto simp: split_flag_def)

lemma flag_names_update: "map fst (flag_update fv n v) = map fst fv"
  by (induction fv) (auto simp: flag_update_def)

lemma map_of_flag_update:
  "map_of (flag_update fv n v) m = (if m = n \<and> map_of fv n \<noteq> None then Some v else map_of fv m)"
  by (induction fv) (auto simp: flag_update_def)

end
