(* ===== verification/Inspect.thy ===== *)
theory Inspect
  imports Runtime Httpsend Go_Flag
begin

text \<open>
  Model of \<open>cmd/mkqd/inspect.go\<close>: the inspector every queue command opens, the read-only commands
  and the views they print.  The queue library is the record \<open>mkq\<close>, whose operations read or
  change a store of any type; \<open>q_define\<close> is the write that \<open>mkq.Define\<close> makes.  A command returns
  its error, what it printed, the store afterwards and the runtime it built, closed.  A table
  is printed as its cells: the column widths of tabwriter are not modelled, standard output
  is taken never to fail, and the deadline of a command has no clock.
\<close>

section \<open>The queue library and the environment\<close>

datatype job_bucket =
    JobBucketWait | JobBucketActive | JobBucketDelayed | JobBucketPrioritized
  | JobBucketCompleted | JobBucketFailed | JobBucketPaused

record queue_counts =
  qn_wait :: "64 word"
  qn_active :: "64 word"
  qn_delayed :: "64 word"
  qn_prioritized :: "64 word"
  qn_completed :: "64 word"
  qn_failed :: "64 word"
  qn_paused :: "64 word"

text \<open>Jobs and states as the library returns them; a raw JSON message may be nil.  Times are
  nanoseconds of Unix time, and the zero time of Go is the first of January of year 1.\<close>

record stored_job =
  sj_id :: string
  sj_name :: string
  sj_timestamp :: int
  sj_attempts_made :: go_int
  sj_attempts_started :: go_int
  sj_stalled_counter :: go_int
  sj_processed_by :: string
  sj_data :: "string option"

record job_state =
  st_processed_on :: int
  st_finished_on :: int
  st_return_value :: string
  st_failed_reason :: string
  st_stacktrace :: "string list"
  st_progress :: string
  st_opts :: string
  st_delay :: "64 word"
  st_attempts_at :: "64 word list"

record job_logs =
  lg_count :: "64 word"
  lg_lines :: "string list"

datatype add_option =
    WithJobName string | WithJobID string | WithDelay duration | WithPriority "32 word"
  | WithAttempts go_int | WithLifo bool

record 's mkq =
  q_bucket :: "job_bucket \<Rightarrow> string"
  q_discover :: "'s \<Rightarrow> string list result"
  q_define :: "string \<Rightarrow> 's \<Rightarrow> 's"
  q_is_paused :: "string \<Rightarrow> 's \<Rightarrow> bool result"
  q_counts :: "string \<Rightarrow> 's \<Rightarrow> queue_counts result"
  q_list :: "string \<Rightarrow> string \<Rightarrow> 64 word \<Rightarrow> 64 word \<Rightarrow> bool \<Rightarrow> 's \<Rightarrow>
     (stored_job option \<times> job_state option) list result"
  q_get :: "string \<Rightarrow> string \<Rightarrow> 's \<Rightarrow> (stored_job option \<times> job_state option) result"
  q_logs :: "string \<Rightarrow> string \<Rightarrow> 64 word \<Rightarrow> 64 word \<Rightarrow> 's \<Rightarrow> job_logs result"
  q_add :: "string \<Rightarrow> string \<Rightarrow> add_option list \<Rightarrow> 's \<Rightarrow> string result \<times> 's"
  q_pause :: "string \<Rightarrow> 's \<Rightarrow> go_error option \<times> 's"
  q_resume :: "string \<Rightarrow> 's \<Rightarrow> go_error option \<times> 's"
  q_retry :: "string \<Rightarrow> string \<Rightarrow> string \<Rightarrow> 's \<Rightarrow> go_error option \<times> 's"
  q_promote :: "string \<Rightarrow> string \<Rightarrow> 's \<Rightarrow> go_error option \<times> 's"
  q_remove :: "string \<Rightarrow> string \<Rightarrow> 's \<Rightarrow> go_error option \<times> 's"
  q_drain :: "string \<Rightarrow> bool \<Rightarrow> 's \<Rightarrow> go_error option \<times> 's"

section \<open>Views\<close>

record queue_row =
  qr_name :: string
  qr_configured :: bool
  qr_paused :: bool

record counts_row =
  cr_name :: string
  cr_paused :: bool
  cr_counts :: queue_counts

record state_view =
  sv_processed_on :: "int option"
  sv_finished_on :: "int option"
  sv_return_value :: string
  sv_failed_reason :: string
  sv_stacktrace :: "string list"
  sv_progress :: string
  sv_opts :: string
  sv_delay_millis :: "64 word"
  sv_attempts_at :: "64 word list"

record job_view =
  jv_id :: string
  jv_name :: string
  jv_timestamp :: int
  jv_attempts_made :: go_int
  jv_attempts_started :: go_int
  jv_stalled_counter :: go_int
  jv_processed_by :: string
  jv_data :: string
  jv_state :: state_view

record list_output =
  lo_queue :: string
  lo_bucket :: string
  lo_page :: go_int
  lo_size :: go_int
  lo_jobs :: "job_view list"

record job_output =
  jo_queue :: string
  jo_job :: job_view
  jo_logs :: job_logs

record mutation_result =
  mr_queue :: string
  mr_action :: string
  mr_job_id :: string
  mr_ok :: bool

record drain_result =
  dr_queue :: string
  dr_removed :: "(string \<times> 64 word) list"
  dr_delayed :: bool
  dr_ok :: bool

datatype json_out =
    JQueues "queue_row list" | JCounts "counts_row list" | JList list_output | JJob job_output
  | JMutation mutation_result | JDrain drain_result

text \<open>What a command prints: text, a table, and on the error stream text or the error itself.\<close>

datatype printed = Print string | Table "string list list" | Stderr string | StderrErr go_error

record ('v, 's) cli_env =
  ce_lib :: golib
  ce_world :: "'v world"
  ce_factories :: "'v executor executor_factory factories"
  ce_yaml :: yaml_lib
  ce_getenv :: "string \<rightharpoonup> string"
  ce_read_file :: "string \<Rightarrow> string result"
  ce_sched :: "nat list"
  ce_mkq :: "'s mkq"
  ce_work :: "string list \<Rightarrow> 's \<Rightarrow> 's"
  ce_encode :: "json_out \<Rightarrow> string result"
  ce_indent :: "string \<Rightarrow> string option"
  ce_parse_duration :: "string \<Rightarrow> duration result"
  ce_rfc3339 :: "int \<Rightarrow> string"
  ce_duration :: "duration \<Rightarrow> string"
  ce_join :: "string \<Rightarrow> string \<Rightarrow> string"

type_synonym ('v, 's) command_result = "go_error option \<times> printed list \<times> 's \<times> 'v runtime option"

section \<open>The inspector\<close>

definition inspectTimeout :: duration where "inspectTimeout = 30000000000"

definition buckets :: "'s mkq \<Rightarrow> string list" where
  "buckets M = map (q_bucket M)
     [JobBucketWait, JobBucketActive, JobBucketDelayed, JobBucketPrioritized, JobBucketCompleted,
      JobBucketFailed, JobBucketPaused]"

definition bucketNames :: "'s mkq \<Rightarrow> string list" where
  "bucketNames M = buckets M"

record 'v inspector =
  in_rt :: "'v runtime"
  in_present :: "string list"
  in_conf_names :: "string list"

text \<open>The closure \<open>cleanup\<close>.\<close>

definition cleanup :: "('v, 's) cli_env \<Rightarrow> 'v runtime \<Rightarrow> 'v runtime" where
  "cleanup E rt = snd (Shutdown (ce_world E) (ce_sched E) (WithTimeout Background inspectTimeout) rt)"

text \<open>\<open>openInspector\<close>: on failure, the error and the runtime if one was built, closed.\<close>

definition openInspector ::
    "('v, 's) cli_env \<Rightarrow> string \<Rightarrow> 's \<Rightarrow> (go_error \<times> 'v runtime option) + 'v inspector" where
  "openInspector E path s =
     (case NewFromFile (ce_world E) (ce_yaml E) (ce_getenv E) (ce_read_file E) path of
        Inl e \<Rightarrow> Inl (e, None)
      | Inr rt \<Rightarrow>
          (case q_discover (ce_mkq E) s of
             Inl e \<Rightarrow> Inl (Wrapf ''discover queues: %w'' [] e, Some (cleanup E rt))
           | Inr present \<Rightarrow>
               Inr \<lparr>in_rt = rt, in_present = present, in_conf_names = map qc_name (cf_queues (rt_cfg rt))\<rparr>))"

text \<open>The opening lines of every queue command: open the inspector, run the rest, clean up.\<close>

definition with_inspector ::
    "('v, 's) cli_env \<Rightarrow> string \<Rightarrow> 's \<Rightarrow> ('v inspector \<Rightarrow> 's \<Rightarrow> go_error option \<times> printed list \<times> 's) \<Rightarrow>
     ('v, 's) command_result" where
  "with_inspector E path s body =
     (case openInspector E path s of
        Inl (e, rt) \<Rightarrow> (Some e, [], s, rt)
      | Inr ins \<Rightarrow>
          (case body ins s of (e, out, s') \<Rightarrow> (e, out, s', Some (cleanup E (in_rt ins)))))"

text \<open>\<open>queue\<close>: the handle is the name; \<open>Define\<close> runs only for a name that is present.\<close>

definition inspector_queue ::
    "('v, 's) cli_env \<Rightarrow> 'v inspector \<Rightarrow> string \<Rightarrow> 's \<Rightarrow> string result \<times> 's" where
  "inspector_queue E ins name s =
     (if name \<notin> set (in_present ins)
      then (Inl (Errorf ''queue %q does not exist in Redis (run `mkqd queues` to list them)'' [ArgS name]), s)
      else (Inr name, q_define (ce_mkq E) name s))"

definition resolveQueues :: "'v inspector \<Rightarrow> string list \<Rightarrow> string list" where
  "resolveQueues ins args = (if args = [] then in_present ins else args)"

definition emitJSON :: "('v, 's) cli_env \<Rightarrow> json_out \<Rightarrow> go_error option \<times> printed list" where
  "emitJSON E v = (case ce_encode E v of Inl e \<Rightarrow> (Some e, []) | Inr t \<Rightarrow> (None, [Print t]))"

section \<open>Shared views\<close>

definition zero_time :: int where "zero_time = -62135596800 * nano_second"

definition IsZero :: "int \<Rightarrow> bool" where "IsZero t \<longleftrightarrow> t = zero_time"

definition zero_state_view :: state_view where
  "zero_state_view = \<lparr>sv_processed_on = None, sv_finished_on = None, sv_return_value = [], sv_failed_reason = [],
     sv_stacktrace = [], sv_progress = [], sv_opts = [], sv_delay_millis = 0, sv_attempts_at = []\<rparr>"

definition newJobView :: "stored_job option \<Rightarrow> job_state option \<Rightarrow> job_view" where
  "newJobView jb st =
     (let v = (case jb of
                 None \<Rightarrow> \<lparr>jv_id = [], jv_name = [], jv_timestamp = zero_time, jv_attempts_made = 0,
                   jv_attempts_started = 0, jv_stalled_counter = 0, jv_processed_by = [], jv_data = ''null'',
                   jv_state = zero_state_view\<rparr>
               | Some b \<Rightarrow> \<lparr>jv_id = sj_id b, jv_name = sj_name b, jv_timestamp = sj_timestamp b,
                   jv_attempts_made = sj_attempts_made b, jv_attempts_started = sj_attempts_started b,
                   jv_stalled_counter = sj_stalled_counter b, jv_processed_by = sj_processed_by b,
                   jv_data = (case sj_data b of None \<Rightarrow> ''null'' | Some d \<Rightarrow> d),
                   jv_state = zero_state_view\<rparr>)
      in case st of
           None \<Rightarrow> v
         | Some t \<Rightarrow>
             v\<lparr>jv_state := \<lparr>sv_processed_on = (if IsZero (st_processed_on t) then None else Some (st_processed_on t)),
               sv_finished_on = (if IsZero (st_finished_on t) then None else Some (st_finished_on t)),
               sv_return_value = st_return_value t, sv_failed_reason = st_failed_reason t,
               sv_stacktrace = st_stacktrace t, sv_progress = st_progress t, sv_opts = st_opts t,
               sv_delay_millis = st_delay t, sv_attempts_at = st_attempts_at t\<rparr>\<rparr>)"

text \<open>The conversion of a string to runes, each kept as its encoding; a byte that starts no
  valid sequence becomes the replacement character.\<close>

function runes :: "string \<Rightarrow> string list" where
  "runes s =
     (if s = [] then []
      else if rune_width s = 0 then [CHR 0xEF, CHR 0xBF, CHR 0xBD] # runes (tl s)
      else take (rune_width s) s # runes (drop (rune_width s) s))"
  by pat_completeness auto
termination
  by (relation "measure length") auto

declare runes.simps [simp del]

definition replace_newlines :: "string \<Rightarrow> string" where
  "replace_newlines s = map (\<lambda>c. if c = CHR 0x0A then CHR '' '' else c) s"

definition cli_truncate :: "string \<Rightarrow> nat \<Rightarrow> string" where
  "cli_truncate s0 n =
     (let s = replace_newlines s0; r = runes s
      in if length r \<le> n then s else concat (take n r) @ ''...'')"

definition summarise :: "job_view \<Rightarrow> string" where
  "summarise j =
     (if sv_failed_reason (jv_state j) \<noteq> [] then cli_truncate (sv_failed_reason (jv_state j)) 60
      else if sv_return_value (jv_state j) \<noteq> [] \<and> sv_return_value (jv_state j) \<noteq> ''null''
      then cli_truncate (sv_return_value (jv_state j)) 60
      else [])"

definition indentJSON :: "('v, 's) cli_env \<Rightarrow> string \<Rightarrow> string" where
  "indentJSON E raw =
     (if raw = [] then ''  (empty)''
      else case ce_indent E raw of None \<Rightarrow> ''  '' @ raw | Some t \<Rightarrow> ''  '' @ t)"

definition yesNo :: "bool \<Rightarrow> string" where "yesNo b = (if b then ''yes'' else ''no'')"
definition status :: "bool \<Rightarrow> string" where "status paused = (if paused then ''paused'' else ''running'')"

section \<open>Flags and lines\<close>

definition configFlag :: "('v, 's) cli_env \<Rightarrow> string \<times> flag_value" where
  "configFlag E =
     (''c'', VString (case ce_getenv E ''MKQD_CONFIG'' of
                        None \<Rightarrow> ''mkqd.yaml''
                      | Some def \<Rightarrow> if def = [] then ''mkqd.yaml'' else def))"

definition jsonFlag :: "string \<times> flag_value" where
  "jsonFlag = (''json'', VBool False)"

definition queue_flags :: "('v, 's) cli_env \<Rightarrow> flag_set" where
  "queue_flags E = [configFlag E, jsonFlag]"

definition nl :: string where "nl = [CHR 0x0A]"

abbreviation println :: "string \<Rightarrow> printed" where
  "println t \<equiv> Print (t @ nl)"

text \<open>\<open>Parse\<close> and the return on its error.\<close>

definition with_flags ::
    "('v, 's) cli_env \<Rightarrow> flag_set \<Rightarrow> string list \<Rightarrow> 's \<Rightarrow>
     (flag_set \<Rightarrow> string list \<Rightarrow> ('v, 's) command_result) \<Rightarrow> ('v, 's) command_result" where
  "with_flags E flags args s body =
     (case flag_Parse (ce_parse_duration E) flags args of
        Inl e \<Rightarrow> (Some e, [], s, None)
      | Inr (fv, rest) \<Rightarrow> body fv rest)"

text \<open>The loop over queue names shared by \<open>queues\<close> and \<open>counts\<close>: a handle, then the row.\<close>

fun each_queue ::
    "('v, 's) cli_env \<Rightarrow> 'v inspector \<Rightarrow> (string \<Rightarrow> 's \<Rightarrow> 'r result) \<Rightarrow> string list \<Rightarrow> 's \<Rightarrow> 'r list result \<times> 's" where
  "each_queue E ins read [] s = (Inr [], s)"
| "each_queue E ins read (name # names) s =
     (case inspector_queue E ins name s of
        (Inl e, s1) \<Rightarrow> (Inl e, s1)
      | (Inr q, s1) \<Rightarrow>
          (case read q s1 of
             Inl e \<Rightarrow> (Inl (Wrapf ''queue %q: %w'' [ArgS name] e), s1)
           | Inr row \<Rightarrow>
               (case each_queue E ins read names s1 of
                  (Inl e, s2) \<Rightarrow> (Inl e, s2)
                | (Inr rows, s2) \<Rightarrow> (Inr (row # rows), s2))))"

section \<open>queues\<close>

definition queue_row_of :: "('v, 's) cli_env \<Rightarrow> 'v inspector \<Rightarrow> string \<Rightarrow> 's \<Rightarrow> queue_row result" where
  "queue_row_of E ins name s =
     (case q_is_paused (ce_mkq E) name s of
        Inl e \<Rightarrow> Inl e
      | Inr paused \<Rightarrow> Inr \<lparr>qr_name = name, qr_configured = (name \<in> set (in_conf_names ins)), qr_paused = paused\<rparr>)"

definition print_queues :: "('v, 's) cli_env \<Rightarrow> bool \<Rightarrow> queue_row list \<Rightarrow> go_error option \<times> printed list" where
  "print_queues E asJSON rows =
     (if asJSON then emitJSON E (JQueues rows)
      else if rows = [] then (None, [println ''no queues found under this key prefix''])
      else (None, [Table ([''QUEUE'', ''CONFIGURED'', ''STATUS''] #
              map (\<lambda>r. [qr_name r, yesNo (qr_configured r), status (qr_paused r)]) rows)]))"

definition queues_body :: "('v, 's) cli_env \<Rightarrow> bool \<Rightarrow> 'v inspector \<Rightarrow> 's \<Rightarrow> go_error option \<times> printed list \<times> 's" where
  "queues_body E asJSON ins s0 =
     (case each_queue E ins (queue_row_of E ins) (in_present ins) s0 of
        (Inl e, s1) \<Rightarrow> (Some e, [], s1)
      | (Inr rows, s1) \<Rightarrow> (case print_queues E asJSON rows of (e, out) \<Rightarrow> (e, out, s1)))"

definition cmdQueues :: "('v, 's) cli_env \<Rightarrow> string list \<Rightarrow> 's \<Rightarrow> ('v, 's) command_result" where
  "cmdQueues E args s =
     with_flags E (queue_flags E) args s (\<lambda>fv rest.
       if rest \<noteq> [] then (Some (Errorf ''usage: mkqd queues [-c CONFIG] [--json]'' []), [], s, None)
       else with_inspector E (flag_string fv ''c'') s (queues_body E (flag_bool fv ''json'')))"

section \<open>counts\<close>

definition counts_row_of :: "('v, 's) cli_env \<Rightarrow> string \<Rightarrow> 's \<Rightarrow> counts_row result" where
  "counts_row_of E name s =
     (case q_counts (ce_mkq E) name s of
        Inl e \<Rightarrow> Inl e
      | Inr c \<Rightarrow>
          (case q_is_paused (ce_mkq E) name s of
             Inl e \<Rightarrow> Inl e
           | Inr paused \<Rightarrow> Inr \<lparr>cr_name = name, cr_paused = paused, cr_counts = c\<rparr>))"

definition int_cell :: "64 word \<Rightarrow> string" where "int_cell n = format_int (sint n)"

definition print_counts :: "('v, 's) cli_env \<Rightarrow> bool \<Rightarrow> counts_row list \<Rightarrow> go_error option \<times> printed list" where
  "print_counts E asJSON rows =
     (if asJSON then emitJSON E (JCounts rows)
      else if rows = [] then (None, [println ''no queues found under this key prefix''])
      else (None, Table ([''QUEUE'', ''WAIT'', ''ACTIVE'', ''DELAYED'', ''PRIO'', ''COMPLETED'', ''FAILED'', ''STATUS''] #
              map (\<lambda>r. cr_name r # map int_cell [qn_wait (cr_counts r), qn_active (cr_counts r), qn_delayed (cr_counts r),
                     qn_prioritized (cr_counts r), qn_completed (cr_counts r), qn_failed (cr_counts r)] @
                   [status (cr_paused r)]) rows) #
            (if list_ex cr_paused rows
             then [Print (nl @ ''WAIT on a paused queue is held back, not being worked.'' @ nl)] else [])))"

definition counts_body ::
    "('v, 's) cli_env \<Rightarrow> bool \<Rightarrow> string list \<Rightarrow> 'v inspector \<Rightarrow> 's \<Rightarrow> go_error option \<times> printed list \<times> 's" where
  "counts_body E asJSON args ins s0 =
     (case each_queue E ins (counts_row_of E) (resolveQueues ins args) s0 of
        (Inl e, s1) \<Rightarrow> (Some e, [], s1)
      | (Inr rows, s1) \<Rightarrow> (case print_counts E asJSON rows of (e, out) \<Rightarrow> (e, out, s1)))"

definition cmdCounts :: "('v, 's) cli_env \<Rightarrow> string list \<Rightarrow> 's \<Rightarrow> ('v, 's) command_result" where
  "cmdCounts E args s =
     with_flags E (queue_flags E) args s (\<lambda>fv rest.
       with_inspector E (flag_string fv ''c'') s (counts_body E (flag_bool fv ''json'') rest))"

section \<open>list\<close>

text \<open>The closed interval of a page, in 64-bit arithmetic.\<close>

definition page_range :: "go_int \<Rightarrow> go_int \<Rightarrow> 64 word \<times> 64 word" where
  "page_range page sz = (let start = page * sz in (start, start + sz - 1))"

definition print_list :: "('v, 's) cli_env \<Rightarrow> bool \<Rightarrow> list_output \<Rightarrow> go_error option \<times> printed list" where
  "print_list E asJSON out =
     (if asJSON then emitJSON E (JList out)
      else if lo_jobs out = []
      then (None, [println (''no jobs in '' @ lo_queue out @ ''/'' @ lo_bucket out @ '' at page '' @ int_cell (lo_page out))])
      else (None, [Table ([''ID'', ''NAME'', ''CREATED'', ''ATTEMPTS'', ''DETAIL''] #
              map (\<lambda>j. [jv_id j, jv_name j, ce_rfc3339 E (jv_timestamp j), int_cell (jv_attempts_made j), summarise j])
                (lo_jobs out))]))"

definition list_body ::
    "('v, 's) cli_env \<Rightarrow> flag_set \<Rightarrow> string \<Rightarrow> string \<Rightarrow> 'v inspector \<Rightarrow> 's \<Rightarrow> go_error option \<times> printed list \<times> 's" where
  "list_body E fv name bucket ins s0 =
     (case inspector_queue E ins name s0 of
        (Inl e, s1) \<Rightarrow> (Some e, [], s1)
      | (Inr q, s1) \<Rightarrow>
          (let page = flag_int fv ''page''; sz = flag_int fv ''size'' in
           case page_range page sz of (start, stop) \<Rightarrow>
           case q_list (ce_mkq E) q bucket start stop (flag_bool fv ''asc'') s1 of
             Inl e \<Rightarrow> (Some (Wrapf ''queue %q: %w'' [ArgS name] e), [], s1)
           | Inr listed \<Rightarrow>
               (case print_list E (flag_bool fv ''json'')
                       \<lparr>lo_queue = name, lo_bucket = bucket, lo_page = page, lo_size = sz,
                        lo_jobs = map (\<lambda>(jb, st). newJobView jb st) listed\<rparr> of
                  (e, out) \<Rightarrow> (e, out, s1))))"

definition list_flags :: "('v, 's) cli_env \<Rightarrow> flag_set" where
  "list_flags E =
     [configFlag E, jsonFlag, (''page'', VInt 0), (''size'', VInt 20), (''asc'', VBool True)]"

definition cmdList :: "('v, 's) cli_env \<Rightarrow> string list \<Rightarrow> 's \<Rightarrow> ('v, 's) command_result" where
  "cmdList E args s =
     with_flags E (list_flags E) args s (\<lambda>fv rest.
       let page = flag_int fv ''page''; sz = flag_int fv ''size'' in
       if length rest \<noteq> 2
       then (Some (Errorf ''usage: mkqd list [-c CONFIG] [--json] [-page N] [-size N] [-asc] <queue> <%s>''
                    [ArgS (str_join (bucketNames (ce_mkq E)) ''|'')]), [], s, None)
       else if sint page < 0 then (Some (Errorf ''-page must not be negative'' []), [], s, None)
       else if sint sz < 1 then (Some (Errorf ''-size must be at least 1'' []), [], s, None)
       else let name = rest ! 0; bucket = rest ! 1 in
       if bucket \<notin> set (buckets (ce_mkq E))
       then (Some (Errorf ''unknown bucket %q (want one of: %s)''
                    [ArgS bucket, ArgS (str_join (bucketNames (ce_mkq E)) '', '')]), [], s, None)
       else with_inspector E (flag_string fv ''c'') s (list_body E fv name bucket))"

section \<open>job\<close>

definition printJob :: "('v, 's) cli_env \<Rightarrow> job_output \<Rightarrow> printed list" where
  "printJob E out =
     (let j = jo_job out; st = jv_state j in
      [Table ([[''queue'', jo_queue out], [''id'', jv_id j], [''name'', jv_name j],
               [''created'', ce_rfc3339 E (jv_timestamp j)],
               [''attempts'', ''made='' @ int_cell (jv_attempts_made j) @ '' started='' @ int_cell (jv_attempts_started j) @
                  '' stalled='' @ int_cell (jv_stalled_counter j)]] @
              (if jv_processed_by j \<noteq> [] then [[''processed by'', jv_processed_by j]] else []) @
              (case sv_processed_on st of Some t \<Rightarrow> [[''processed on'', ce_rfc3339 E t]] | None \<Rightarrow> []) @
              (case sv_finished_on st of Some t \<Rightarrow> [[''finished on'', ce_rfc3339 E t]] | None \<Rightarrow> []) @
              (if sv_failed_reason st \<noteq> [] then [[''failed reason'', sv_failed_reason st]] else [])),
       Print (nl @ ''data'' @ nl @ indentJSON E (jv_data j) @ nl)] @
      (if sv_opts st \<noteq> [] then [Print (nl @ ''opts'' @ nl @ indentJSON E (sv_opts st) @ nl)] else []) @
      (if sv_return_value st \<noteq> []
       then [Print (nl @ ''return value'' @ nl @ indentJSON E (sv_return_value st) @ nl)] else []) @
      (if sv_stacktrace st \<noteq> []
       then Print (nl @ ''stacktrace'' @ nl) # map (\<lambda>l. println (''  '' @ l)) (sv_stacktrace st) else []) @
      (if lg_lines (jo_logs out) \<noteq> []
       then Print (nl @ ''logs ('' @ int_cell (lg_count (jo_logs out)) @ '')'' @ nl) #
            map (\<lambda>l. println (''  '' @ l)) (lg_lines (jo_logs out)) else []))"

definition job_body ::
    "('v, 's) cli_env \<Rightarrow> bool \<Rightarrow> string \<Rightarrow> string \<Rightarrow> 'v inspector \<Rightarrow> 's \<Rightarrow> go_error option \<times> printed list \<times> 's" where
  "job_body E asJSON name jobID ins s0 =
     (case inspector_queue E ins name s0 of
        (Inl e, s1) \<Rightarrow> (Some e, [], s1)
      | (Inr q, s1) \<Rightarrow>
          (case q_get (ce_mkq E) q jobID s1 of
             Inl e \<Rightarrow> (Some (Wrapf ''queue %q job %q: %w'' [ArgS name, ArgS jobID] e), [], s1)
           | Inr (jb, st) \<Rightarrow>
               (case q_logs (ce_mkq E) q jobID 0 (-1) s1 of
                  Inl e \<Rightarrow> (Some (Wrapf ''queue %q job %q logs: %w'' [ArgS name, ArgS jobID] e), [], s1)
                | Inr logs \<Rightarrow>
                    (let out = \<lparr>jo_queue = name, jo_job = newJobView jb st, jo_logs = logs\<rparr>
                     in if asJSON then (case emitJSON E (JJob out) of (e, pr) \<Rightarrow> (e, pr, s1))
                        else (None, printJob E out, s1)))))"

definition cmdJob :: "('v, 's) cli_env \<Rightarrow> string list \<Rightarrow> 's \<Rightarrow> ('v, 's) command_result" where
  "cmdJob E args s =
     with_flags E (queue_flags E) args s (\<lambda>fv rest.
       if length rest \<noteq> 2 then (Some (Errorf ''usage: mkqd job [-c CONFIG] [--json] <queue> <jobId>'' []), [], s, None)
       else with_inspector E (flag_string fv ''c'') s (job_body E (flag_bool fv ''json'') (rest ! 0) (rest ! 1)))"

section \<open>What a command leaves behind\<close>

abbreviation store_of :: "('v, 's) command_result \<Rightarrow> 's" where
  "store_of r \<equiv> fst (snd (snd r))"

abbreviation runtime_of :: "('v, 's) command_result \<Rightarrow> 'v runtime option" where
  "runtime_of r \<equiv> snd (snd (snd r))"

text \<open>\<open>Define\<close> registers a queue with mkq: it notes the version in the queue's metadata and adds the
  queue to the set of registered ones, both only where they are missing.  A store that differs
  from another by registrations only, of queues that were discovered in it:\<close>

definition only_registers :: "'s mkq \<Rightarrow> 's \<Rightarrow> 's \<Rightarrow> bool" where
  "only_registers M s s' \<longleftrightarrow>
     s' = s \<or> (\<exists>present qs. q_discover M s = Inr present \<and> set qs \<subseteq> set present \<and> s' = fold (q_define M) qs s)"

text \<open>Every queue that is discovered in the store has been registered.  A queue that BullMQ made and
  mkq never handled has not.\<close>

definition all_registered :: "'s mkq \<Rightarrow> 's \<Rightarrow> bool" where
  "all_registered M s \<longleftrightarrow> (\<forall>present. q_discover M s = Inr present \<longrightarrow> list_all (\<lambda>q. q_define M q s = s) present)"

lemma only_registers_refl [simp]: "only_registers M s s"
  by (simp add: only_registers_def)

lemma only_registers_keeps:
  assumes "only_registers M s s'" and "all_registered M s"
  shows "s' = s"
proof -
  have "fold (q_define M) qs s = s" if "\<forall>q \<in> set qs. q_define M q s = s" for qs
    using that by (induction qs) simp_all
  then show ?thesis using assms by (auto simp: only_registers_def all_registered_def list_all_iff)
qed

lemma only_registers_one:
  assumes "q_discover M s = Inr present" and "q \<in> set present"
  shows "only_registers M s (q_define M q s)"
  using assms by (auto simp: only_registers_def intro!: exI [of _ "[q]"])

lemma openInspector_Inr:
  "openInspector E path s = Inr ins \<Longrightarrow>
     q_discover (ce_mkq E) s = Inr (in_present ins) \<and>
     NewFromFile (ce_world E) (ce_yaml E) (ce_getenv E) (ce_read_file E) path = Inr (in_rt ins)"
  by (auto simp: openInspector_def split: sum.splits)

lemma inspector_queue_registers:
  "q_discover (ce_mkq E) s = Inr (in_present ins) \<Longrightarrow> inspector_queue E ins n s = (r, s') \<Longrightarrow> only_registers (ce_mkq E) s s'"
  by (auto simp: inspector_queue_def intro: only_registers_one split: if_splits)

lemma each_queue_registers:
  "\<exists>qs. set qs \<subseteq> set (in_present ins) \<and> snd (each_queue E ins read names s) = fold (q_define (ce_mkq E)) qs s"
proof (induction names arbitrary: s)
  case Nil
  show ?case by (intro exI [of _ "[]"]) simp
next
  case (Cons n names)
  show ?case
  proof (cases "n \<in> set (in_present ins)")
    case False
    then show ?thesis by (intro exI [of _ "[]"]) (simp add: inspector_queue_def)
  next
    case True
    let ?s = "q_define (ce_mkq E) n s"
    obtain qs where qs: "set qs \<subseteq> set (in_present ins)" "snd (each_queue E ins read names ?s) = fold (q_define (ce_mkq E)) qs ?s"
      using Cons by blast
    show ?thesis
    proof (cases "read n ?s")
      case (Inl e)
      then show ?thesis using True by (intro exI [of _ "[n]"]) (simp add: inspector_queue_def)
    next
      case (Inr row)
      have "snd (each_queue E ins read (n # names) s) = snd (each_queue E ins read names ?s)"
        using True Inr by (simp add: inspector_queue_def split: sum.splits prod.splits)
      then show ?thesis using True qs by (intro exI [of _ "n # qs"]) simp
    qed
  qed
qed

lemma with_flags_registers:
  assumes "\<And>fv rest. only_registers M s (store_of (body fv rest))"
  shows "only_registers M s (store_of (with_flags E flags args s body))"
  using assms by (auto simp: with_flags_def split: sum.splits)

lemma with_inspector_registers:
  assumes "\<And>ins. q_discover (ce_mkq E) s = Inr (in_present ins) \<Longrightarrow> only_registers (ce_mkq E) s (snd (snd (body ins s)))"
  shows "only_registers (ce_mkq E) s (store_of (with_inspector E path s body))"
proof (cases "openInspector E path s")
  case (Inr ins)
  then have "only_registers (ce_mkq E) s (snd (snd (body ins s)))" by (intro assms) (simp add: openInspector_Inr)
  then show ?thesis using Inr by (simp add: with_inspector_def split_beta)
qed (simp add: with_inspector_def split_beta)

lemma each_queue_store:
  assumes "q_discover (ce_mkq E) s = Inr (in_present ins)" and "each_queue E ins read names s = (r, s')"
  shows "only_registers (ce_mkq E) s s'"
  using each_queue_registers [of ins E read names s] assms by (auto simp: only_registers_def)

lemma read_bodies_register:
  assumes "q_discover (ce_mkq E) s = Inr (in_present ins)"
  shows "only_registers (ce_mkq E) s (snd (snd (queues_body E b ins s)))"
    "only_registers (ce_mkq E) s (snd (snd (counts_body E b args ins s)))"
    "only_registers (ce_mkq E) s (snd (snd (list_body E fv name bucket ins s)))"
    "only_registers (ce_mkq E) s (snd (snd (job_body E b name jobID ins s)))"
  using inspector_queue_registers [OF assms] each_queue_store [OF assms]
  by (auto simp: queues_body_def counts_body_def list_body_def job_body_def Let_def split: sum.splits prod.splits)

lemma inspecting_register:
  "only_registers (ce_mkq E) s (store_of (cmdQueues E args s))"
  "only_registers (ce_mkq E) s (store_of (cmdCounts E args s))"
  "only_registers (ce_mkq E) s (store_of (cmdList E args s))"
  "only_registers (ce_mkq E) s (store_of (cmdJob E args s))"
  unfolding cmdQueues_def cmdCounts_def cmdList_def cmdJob_def Let_def
  by (rule with_flags_registers, simp add: with_inspector_registers read_bodies_register)+

section \<open>What a command closes\<close>

text \<open>A runtime that never started and whose clients were closed, once each.\<close>

definition closed_unstarted :: "'v runtime \<Rightarrow> bool" where
  "closed_unstarted rt \<longleftrightarrow> rt_once rt \<and> \<not> rt_started rt \<and> rt_workers rt = [] \<and> rt_srv rt = None \<and>
     filter (\<lambda>e. case e of EvLog _ \<Rightarrow> False | _ \<Rightarrow> True) (rt_trace rt) = [EvClientClose, EvRedisClose]"

definition fresh :: "'v runtime \<Rightarrow> bool" where
  "fresh rt \<longleftrightarrow> \<not> rt_once rt \<and> \<not> rt_started rt \<and> rt_workers rt = [] \<and> rt_srv rt = None \<and>
     rt_client rt \<noteq> None \<and> rt_rdb rt \<noteq> None \<and> filter (\<lambda>e. case e of EvLog _ \<Rightarrow> False | _ \<Rightarrow> True) (rt_trace rt) = []"

lemma NewFromFile_fresh: "NewFromFile W Y env rf path = Inr rt \<Longrightarrow> fresh rt"
  by (auto simp: NewFromFile_def New_def Let_def fresh_def split: sum.splits option.splits)

lemma Shutdown_fresh: "fresh rt \<Longrightarrow> closed_unstarted (snd (Shutdown W sched ctx rt))"
  by (auto simp: Shutdown_def fresh_def closed_unstarted_def close_server_def stopWorkers_def takeWorkers_def
      close_clients_def emit_def Let_def split: prod.splits)

lemma with_inspector_closes:
  "runtime_of (with_inspector E path s body) = Some rt \<Longrightarrow> closed_unstarted rt"
  using NewFromFile_fresh Shutdown_fresh
  by (fastforce simp: with_inspector_def openInspector_def cleanup_def split: sum.splits prod.splits)

lemma with_flags_runtime:
  assumes "\<And>fv rest rt. runtime_of (body fv rest) = Some rt \<Longrightarrow> P rt"
    and "runtime_of (with_flags E flags args s body) = Some rt"
  shows "P rt"
  using assms by (auto simp: with_flags_def split: sum.splits prod.splits)

section \<open>Pages\<close>

text \<open>
  The page arithmetic of \<open>mkqd list\<close> is exact as long as it fits: page \<open>p\<close> of size \<open>n\<close> asks for the
  \<open>n\<close> positions from \<open>p\<close> times \<open>n\<close>, both ends included, and the next page starts right behind it, so
  consecutive pages neither overlap nor leave a gap.
\<close>
theorem list_pages_contiguous:
  assumes "0 \<le> sint page" and "1 \<le> sint sz" and "(sint page + 2) * sint sz < 2 ^ 63"
  shows "sint (fst (page_range page sz)) = sint page * sint sz \<and>
    sint (snd (page_range page sz)) = sint page * sint sz + sint sz - 1 \<and>
    fst (page_range (page + 1) sz) = snd (page_range page sz) + 1"
proof -
  have b: "0 \<le> sint page * sint sz" "sint page * sint sz + 2 * sint sz < 2 ^ 63" "sint page \<le> sint page * sint sz"
    using assms by (simp_all add: distrib_right mult_le_cancel_left1)
  have m: "sint (page * sz) = sint page * sint sz"
    using b assms by (simp add: sint_word_ariths signed_take_bit_int_eq_self_iff)
  have a: "sint (page * sz + sz) = sint page * sint sz + sint sz"
    using b assms m by (simp add: sint_word_ariths(1) signed_take_bit_int_eq_self_iff)
  have "sint (page * sz + sz - 1) = sint page * sint sz + sint sz - 1"
    using b assms a by (simp add: sint_word_ariths(2) signed_take_bit_int_eq_self_iff)
  then show ?thesis using m by (simp add: page_range_def Let_def distrib_right)
qed

section \<open>Shortened cells\<close>

lemma runes_width: "rune_width s = 0 \<Longrightarrow> s \<noteq> [] \<Longrightarrow> runes s = [CHR 0xEF, CHR 0xBF, CHR 0xBD] # runes (tl s)"
  "0 < rune_width s \<Longrightarrow> runes s = take (rune_width s) s # runes (drop (rune_width s) s)"
  by (subst runes.simps; simp)+ (cases s; simp)

lemma runes_Nil [simp]: "runes [] = []"
  by (subst runes.simps) simp

lemma runes_no_newline: "CHR 0x0A \<notin> set s \<Longrightarrow> r \<in> set (runes s) \<Longrightarrow> CHR 0x0A \<notin> set r"
proof (induction s rule: runes.induct)
  case (1 s)
  then show ?case
    by (cases "s = []"; cases "rune_width s = 0")
      (auto simp: runes_width dest: in_set_takeD in_set_dropD list.set_sel(2))
qed

lemma runes_utf8: "utf8 s \<Longrightarrow> concat (runes s) = s \<and> (\<forall>k. utf8 (concat (take k (runes s))))"
proof (induction s rule: utf8.induct)
  case (utf8_rune s)
  note r = runes_width(2) [OF utf8_rune.hyps(1)]
  have "utf8 (concat (take k (runes s)))" for k
  proof (cases k)
    case (Suc m)
    have "utf8 (take (rune_width s) s @ concat (take m (runes (drop (rune_width s) s))))"
      using utf8_rune rune_width_le [of s] by (subst utf8.simps) (simp add: rune_width_take)
    then show ?thesis using Suc r by simp
  qed (simp add: utf8_empty)
  then show ?case using utf8_rune.IH r by simp
qed (simp add: utf8_empty)

lemma rune_width_newlines: "rune_width (replace_newlines s) = rune_width s"
proof -
  define f where "f = (\<lambda>c. if c = CHR 0x0A then CHR '' '' else c)"
  have cont: "cont (f c) = cont c" for c by (auto simp: cont_def f_def)
  have high: "128 \<le> byte c \<Longrightarrow> f c = c" "byte c < 128 \<Longrightarrow> byte (f c) < 128" for c by (auto simp: f_def)
  have keep: "cont c \<Longrightarrow> f c = c" for c by (auto simp: cont_def f_def)
  have map: "replace_newlines t = map f t" for t by (simp add: replace_newlines_def f_def)
  show ?thesis
  proof (cases s)
    case (Cons c cs)
    consider "byte c < 128" | "128 \<le> byte c" by linarith
    then show ?thesis
    proof cases
      case 2
      then show ?thesis using Cons unfolding map
        by (auto simp: rune_width.simps high cont keep split: list.splits)
    qed (use Cons in \<open>simp add: map high rune_width.simps\<close>)
  qed (simp add: map)
qed

lemma utf8_newlines: "utf8 s \<Longrightarrow> utf8 (replace_newlines s)"
proof (induction s rule: utf8.induct)
  case (utf8_rune s)
  have "drop (rune_width s) (replace_newlines s) = replace_newlines (drop (rune_width s) s)"
    by (simp add: replace_newlines_def drop_map)
  then show ?case using utf8_rune by (subst utf8.simps) (simp add: rune_width_newlines)
qed (simp add: replace_newlines_def utf8_empty)

text \<open>
  A cell of a table stays one line and readable: shortening never leaves a line break, keeps
  text of at most \<open>n\<close> characters whole, cuts longer text after exactly \<open>n\<close> characters, and on
  well-formed UTF-8 never cuts inside one.
\<close>
theorem cli_truncate_safe:
  "CHR 0x0A \<notin> set (cli_truncate s n) \<and>
   (if length (runes (replace_newlines s)) \<le> n then cli_truncate s n = replace_newlines s
    else cli_truncate s n = concat (take n (runes (replace_newlines s))) @ ''...'') \<and>
   (utf8 s \<longrightarrow> utf8 (cli_truncate s n) \<and> (\<exists>rest. replace_newlines s = concat (take n (runes (replace_newlines s))) @ rest))"
proof -
  have no: "CHR 0x0A \<notin> set (replace_newlines s)" by (auto simp: replace_newlines_def)
  have "CHR 0x0A \<notin> set (concat (take n (runes (replace_newlines s))))"
    using runes_no_newline [OF no] by (auto dest: in_set_takeD)
  then have 1: "CHR 0x0A \<notin> set (cli_truncate s n)" using no by (simp add: cli_truncate_def Let_def)
  have 2: "utf8 (cli_truncate s n)" if u: "utf8 s"
  proof -
    have "utf8 ''...''" by (intro utf8_ascii) (simp add: is_ascii_def)
    then show ?thesis using runes_utf8 [OF utf8_newlines [OF u]] utf8_newlines [OF u]
      by (simp add: cli_truncate_def Let_def utf8_append del: append.simps)
  qed
  have 3: "\<exists>rest. replace_newlines s = concat (take n (runes (replace_newlines s))) @ rest" if u: "utf8 s"
  proof -
    let ?r = "runes (replace_newlines s)"
    have "replace_newlines s = concat (take n ?r @ drop n ?r)"
      using runes_utf8 [OF utf8_newlines [OF u]] by (simp only: append_take_drop_id)
    then show ?thesis by (metis concat_append)
  qed
  show ?thesis using 1 2 3 by (simp add: cli_truncate_def Let_def)
qed

section \<open>Witnesses\<close>

theorem list_pages_contiguous_witness:
  "page_range 3 20 = (60, 79) \<and> fst (page_range 4 20) = 80"
  using list_pages_contiguous [of 3 20] by (simp add: page_range_def)

theorem cli_truncate_safe_witness:
  "utf8 (cli_truncate [CHR 0xE3, CHR 0x81, CHR 0x82, CHR 0x0A, CHR 0xE3, CHR 0x81, CHR 0x84] 2)"
proof -
  have "utf8 [CHR 0xE3, CHR 0x81, CHR 0x82, CHR 0x0A, CHR 0xE3, CHR 0x81, CHR 0x84]"
    by (rule utf8.utf8_rune, simp add: rune_width.simps cont_def,
        simp add: rune_width.simps cont_def, rule utf8.utf8_rune, simp add: rune_width.simps,
        simp add: rune_width.simps, rule utf8.utf8_rune)
       (simp_all add: rune_width.simps cont_def utf8_empty)
  then show ?thesis using cli_truncate_safe by blast
qed

end
