(* ===== verification/Admin.thy ===== *)
theory Admin
  imports Inspect
begin

text \<open>
  Model of \<open>cmd/mkqd/admin.go\<close>: the commands that change queues, on the inspector and the printing
  of theory Inspect.
\<close>

section \<open>Mutations\<close>

definition createQueue :: "('v, 's) cli_env \<Rightarrow> string \<Rightarrow> 's \<Rightarrow> string \<times> 's" where
  "createQueue E name s = (name, q_define (ce_mkq E) name s)"

definition emitMutation ::
    "('v, 's) cli_env \<Rightarrow> bool \<Rightarrow> mutation_result \<Rightarrow> string \<Rightarrow> go_error option \<times> printed list" where
  "emitMutation E asJSON res human = (if asJSON then emitJSON E (JMutation res) else (None, [println human]))"

text \<open>The options of \<open>Add\<close>, in the order \<open>cmdEnqueue\<close> appends them.\<close>

definition enqueue_options :: "flag_set \<Rightarrow> add_option list" where
  "enqueue_options fv =
     (if flag_string fv ''name'' \<noteq> [] then [WithJobName (flag_string fv ''name'')] else []) @
     (if flag_string fv ''id'' \<noteq> [] then [WithJobID (flag_string fv ''id'')] else []) @
     (if 0 < sint (flag_duration fv ''delay'') then [WithDelay (flag_duration fv ''delay'')] else []) @
     (if 0 < flag_uint fv ''priority'' then [WithPriority (ucast (flag_uint fv ''priority''))] else []) @
     (if 0 < sint (flag_int fv ''attempts'') then [WithAttempts (flag_int fv ''attempts'')] else []) @
     (if flag_bool fv ''lifo'' then [WithLifo True] else [])"

definition enqueue_flags :: "('v, 's) cli_env \<Rightarrow> flag_set" where
  "enqueue_flags E =
     [configFlag E, jsonFlag, (''create'', VBool False), (''name'', VString []), (''id'', VString []),
      (''delay'', VDuration 0), (''priority'', VUint 0), (''attempts'', VInt 0), (''lifo'', VBool False)]"

definition enqueue_body ::
    "('v, 's) cli_env \<Rightarrow> flag_set \<Rightarrow> string \<Rightarrow> string \<Rightarrow> 'v inspector \<Rightarrow> 's \<Rightarrow> go_error option \<times> printed list \<times> 's" where
  "enqueue_body E fv queueName payload ins s0 =
     (case (if queueName \<in> set (in_present ins) then inspector_queue E ins queueName s0
            else if \<not> flag_bool fv ''create''
            then (Inl (Errorf ''queue %q does not exist in Redis (pass --create to make it)'' [ArgS queueName]), s0)
            else (case createQueue E queueName s0 of (q, s1) \<Rightarrow> (Inr q, s1))) of
        (Inl e, s1) \<Rightarrow> (Some e, [], s1)
      | (Inr q, s1) \<Rightarrow>
          (case q_add (ce_mkq E) q payload (enqueue_options fv) s1 of
             (Inl e, s2) \<Rightarrow> (Some (Wrapf ''queue %q: enqueue: %w'' [ArgS queueName] e), [], s2)
           | (Inr jobID, s2) \<Rightarrow>
               (case emitMutation E (flag_bool fv ''json'')
                       \<lparr>mr_queue = queueName, mr_action = ''enqueue'', mr_job_id = jobID, mr_ok = True\<rparr>
                       (''enqueued '' @ queueName @ '' job '' @ jobID) of
                  (e, out) \<Rightarrow> (e, out, s2))))"

definition cmdEnqueue :: "('v, 's) cli_env \<Rightarrow> string list \<Rightarrow> 's \<Rightarrow> ('v, 's) command_result" where
  "cmdEnqueue E args s =
     with_flags E (enqueue_flags E) args s (\<lambda>fv rest.
       if length rest \<noteq> 2
       then (Some (Errorf (''usage: mkqd enqueue [-c CONFIG] [--json] [--create] [flags] <queue> '' @ [CHR 0x27] @
                     ''<json payload>'' @ [CHR 0x27]) []), [], s, None)
       else let queueName = rest ! 0; payload = rest ! 1 in
       if \<not> json_valid (ce_lib E) payload
       then (Some (Errorf ''payload is not valid JSON: %s'' [ArgS (cli_truncate payload 60)]), [], s, None)
       else if 0xFFFFFFFF < flag_uint fv ''priority''
       then (Some (Errorf ''-priority must fit in 32 bits'' []), [], s, None)
       else with_inspector E (flag_string fv ''c'') s (enqueue_body E fv queueName payload))"

text \<open>What follows the lookup of the queue in \<open>pauseResumeCmd\<close> and \<open>withJob\<close>: the change, wrapped
  errors, the report.\<close>

definition mutate_queue ::
    "('v, 's) cli_env \<Rightarrow> bool \<Rightarrow> string \<Rightarrow> (string \<Rightarrow> 's \<Rightarrow> go_error option \<times> 's) \<Rightarrow> (go_error \<Rightarrow> go_error) \<Rightarrow>
     mutation_result \<Rightarrow> string \<Rightarrow> 'v inspector \<Rightarrow> 's \<Rightarrow> go_error option \<times> printed list \<times> 's" where
  "mutate_queue E asJSON queueName fn wrap res human ins s0 =
     (case inspector_queue E ins queueName s0 of
        (Inl e, s1) \<Rightarrow> (Some e, [], s1)
      | (Inr q, s1) \<Rightarrow>
          (case fn q s1 of
             (Some e, s2) \<Rightarrow> (Some (wrap e), [], s2)
           | (None, s2) \<Rightarrow> (case emitMutation E asJSON res human of (e, out) \<Rightarrow> (e, out, s2))))"

definition pauseResumeCmd :: "('v, 's) cli_env \<Rightarrow> string list \<Rightarrow> string \<Rightarrow> 's \<Rightarrow> ('v, 's) command_result" where
  "pauseResumeCmd E args action s =
     with_flags E (queue_flags E) args s (\<lambda>fv rest.
       if length rest \<noteq> 1
       then (Some (Errorf ''usage: mkqd %s [-c CONFIG] [--json] <queue>'' [ArgS action]), [], s, None)
       else let queueName = rest ! 0 in
       with_inspector E (flag_string fv ''c'') s
         (mutate_queue E (flag_bool fv ''json'') queueName
            (if action = ''pause'' then q_pause (ce_mkq E) else q_resume (ce_mkq E))
            (Wrapf ''queue %q: %s: %w'' [ArgS queueName, ArgS action])
            \<lparr>mr_queue = queueName, mr_action = action, mr_job_id = [], mr_ok = True\<rparr>
            (action @ ''d '' @ queueName)))"

definition cmdPause :: "('v, 's) cli_env \<Rightarrow> string list \<Rightarrow> 's \<Rightarrow> ('v, 's) command_result" where
  "cmdPause E args s = pauseResumeCmd E args ''pause'' s"

definition cmdResume :: "('v, 's) cli_env \<Rightarrow> string list \<Rightarrow> 's \<Rightarrow> ('v, 's) command_result" where
  "cmdResume E args s = pauseResumeCmd E args ''resume'' s"

definition withJob ::
    "('v, 's) cli_env \<Rightarrow> flag_set \<Rightarrow> string list \<Rightarrow> string \<Rightarrow> (string \<Rightarrow> string \<Rightarrow> 's \<Rightarrow> go_error option \<times> 's) \<Rightarrow> 's \<Rightarrow>
     ('v, 's) command_result" where
  "withJob E fv rest action fn s =
     (let queueName = rest ! 0; jobID = rest ! 1 in
      with_inspector E (flag_string fv ''c'') s
        (mutate_queue E (flag_bool fv ''json'') queueName (\<lambda>q. fn q jobID)
           (Wrapf ''queue %q job %q: %s: %w'' [ArgS queueName, ArgS jobID, ArgS action])
           \<lparr>mr_queue = queueName, mr_action = action, mr_job_id = jobID, mr_ok = True\<rparr>
           (action @ '' '' @ queueName @ '' job '' @ jobID)))"

definition retry_flags :: "('v, 's) cli_env \<Rightarrow> flag_set" where
  "retry_flags E = [configFlag E, jsonFlag, (''from'', VString (q_bucket (ce_mkq E) JobBucketFailed))]"

definition cmdRetry :: "('v, 's) cli_env \<Rightarrow> string list \<Rightarrow> 's \<Rightarrow> ('v, 's) command_result" where
  "cmdRetry E args s =
     with_flags E (retry_flags E) args s (\<lambda>fv rest.
       if length rest \<noteq> 2
       then (Some (Errorf ''usage: mkqd retry [-c CONFIG] [--json] [-from failed|completed] <queue> <jobId>'' []), [], s, None)
       else let source = flag_string fv ''from'' in
       if source \<noteq> q_bucket (ce_mkq E) JobBucketFailed \<and> source \<noteq> q_bucket (ce_mkq E) JobBucketCompleted
       then (Some (Errorf ''-from must be failed or completed, got %q'' [ArgS source]), [], s, None)
       else withJob E fv rest ''retry'' (\<lambda>q jobID. q_retry (ce_mkq E) q jobID source) s)"

definition cmdPromote :: "('v, 's) cli_env \<Rightarrow> string list \<Rightarrow> 's \<Rightarrow> ('v, 's) command_result" where
  "cmdPromote E args s =
     with_flags E (queue_flags E) args s (\<lambda>fv rest.
       if length rest \<noteq> 2
       then (Some (Errorf ''usage: mkqd promote [-c CONFIG] [--json] <queue> <jobId>'' []), [], s, None)
       else withJob E fv rest ''promote'' (q_promote (ce_mkq E)) s)"

definition cmdRm :: "('v, 's) cli_env \<Rightarrow> string list \<Rightarrow> 's \<Rightarrow> ('v, 's) command_result" where
  "cmdRm E args s =
     with_flags E (queue_flags E) args s (\<lambda>fv rest.
       if length rest \<noteq> 2
       then (Some (Errorf ''usage: mkqd rm [-c CONFIG] [--json] <queue> <jobId>'' []), [], s, None)
       else withJob E fv rest ''rm'' (q_remove (ce_mkq E)) s)"

section \<open>drain\<close>

text \<open>The entries of \<open>removed\<close>, in the order in which the text report reads the map.\<close>

definition drain_removed :: "queue_counts \<Rightarrow> queue_counts \<Rightarrow> (string \<times> 64 word) list" where
  "drain_removed before after =
     filter (\<lambda>(name, delta). 0 < sint delta)
       [(''wait'', qn_wait before - qn_wait after),
        (''prioritized'', qn_prioritized before - qn_prioritized after),
        (''delayed'', qn_delayed before - qn_delayed after)]"

definition print_drain ::
    "('v, 's) cli_env \<Rightarrow> bool \<Rightarrow> string \<Rightarrow> (string \<times> 64 word) list \<Rightarrow> bool \<Rightarrow> go_error option \<times> printed list" where
  "print_drain E asJSON queueName removed withDelayed =
     (if asJSON
      then emitJSON E (JDrain \<lparr>dr_queue = queueName, dr_removed = removed, dr_delayed = withDelayed, dr_ok = True\<rparr>)
      else if removed = [] then (None, [println (''drained '' @ queueName @ '': nothing was queued'')])
      else (None, [Print (''drained '' @ queueName @ '':'')] @
              map (\<lambda>(name, n). Print ('' '' @ name @ ''='' @ int_cell n)) removed @ [Print nl]))"

definition drain_body ::
    "('v, 's) cli_env \<Rightarrow> bool \<Rightarrow> bool \<Rightarrow> string \<Rightarrow> 'v inspector \<Rightarrow> 's \<Rightarrow> go_error option \<times> printed list \<times> 's" where
  "drain_body E asJSON withDelayed queueName ins s0 =
     (case inspector_queue E ins queueName s0 of
        (Inl e, s1) \<Rightarrow> (Some e, [], s1)
      | (Inr q, s1) \<Rightarrow>
          (case q_counts (ce_mkq E) q s1 of
             Inl e \<Rightarrow> (Some (Wrapf ''queue %q: %w'' [ArgS queueName] e), [], s1)
           | Inr before \<Rightarrow>
               (case q_drain (ce_mkq E) q withDelayed s1 of
                  (Some e, s2) \<Rightarrow> (Some (Wrapf ''queue %q: drain: %w'' [ArgS queueName] e), [], s2)
                | (None, s2) \<Rightarrow>
                    (case q_counts (ce_mkq E) q s2 of
                       Inl e \<Rightarrow> (Some (Wrapf ''queue %q: %w'' [ArgS queueName] e), [], s2)
                     | Inr after \<Rightarrow>
                         (case print_drain E asJSON queueName (drain_removed before after) withDelayed of
                            (e, out) \<Rightarrow> (e, out, s2))))))"

definition drain_flags :: "('v, 's) cli_env \<Rightarrow> flag_set" where
  "drain_flags E = [configFlag E, jsonFlag, (''yes'', VBool False), (''delayed'', VBool False)]"

definition cmdDrain :: "('v, 's) cli_env \<Rightarrow> string list \<Rightarrow> 's \<Rightarrow> ('v, 's) command_result" where
  "cmdDrain E args s =
     with_flags E (drain_flags E) args s (\<lambda>fv rest.
       if length rest \<noteq> 1
       then (Some (Errorf ''usage: mkqd drain [-c CONFIG] [--json] [-delayed] --yes <queue>'' []), [], s, None)
       else let queueName = rest ! 0 in
       if \<not> flag_bool fv ''yes''
       then (Some (Errorf (''drain deletes the queued jobs in %q and cannot be undone; '' @
                     ''pass --yes to proceed. This is not the graceful drain `mkqd run` does on shutdown, '' @
                     ''which lets in-flight jobs finish and deletes nothing'') [ArgS queueName]), [], s, None)
       else with_inspector E (flag_string fv ''c'') s
         (drain_body E (flag_bool fv ''json'') (flag_bool fv ''delayed'') queueName))"

section \<open>The effect of a command on the store\<close>

text \<open>The abstract contract: at most one change, of a queue named on the command line.\<close>

datatype mutation =
    MAdd string string "add_option list" | MPause string | MResume string | MRetry string string string
  | MPromote string string | MRemove string string | MDrain string bool

fun apply_mutation :: "'s mkq \<Rightarrow> mutation \<Rightarrow> 's \<Rightarrow> 's" where
  "apply_mutation M (MAdd q p os) s = snd (q_add M q p os s)"
| "apply_mutation M (MPause q) s = snd (q_pause M q s)"
| "apply_mutation M (MResume q) s = snd (q_resume M q s)"
| "apply_mutation M (MRetry q i from) s = snd (q_retry M q i from s)"
| "apply_mutation M (MPromote q i) s = snd (q_promote M q i s)"
| "apply_mutation M (MRemove q i) s = snd (q_remove M q i s)"
| "apply_mutation M (MDrain q d) s = snd (q_drain M q d s)"

text \<open>The changes a command line asks for; \<open>present\<close> are the queues that exist.\<close>

fun asks_for :: "('v, 's) cli_env \<Rightarrow> string list \<Rightarrow> string \<Rightarrow> string list \<Rightarrow> mutation \<Rightarrow> bool" where
  "asks_for E present cmd args (MAdd q p os) \<longleftrightarrow>
     cmd = ''enqueue'' \<and> json_valid (ce_lib E) p \<and>
     (\<exists>fv. flag_Parse (ce_parse_duration E) (enqueue_flags E) args = Inr (fv, [q, p]) \<and>
        os = enqueue_options fv \<and> (q \<in> set present \<or> flag_bool fv ''create''))"
| "asks_for E present cmd args (MPause q) \<longleftrightarrow>
     cmd = ''pause'' \<and> q \<in> set present \<and>
     (\<exists>fv. flag_Parse (ce_parse_duration E) (queue_flags E) args = Inr (fv, [q]))"
| "asks_for E present cmd args (MResume q) \<longleftrightarrow>
     cmd = ''resume'' \<and> q \<in> set present \<and>
     (\<exists>fv. flag_Parse (ce_parse_duration E) (queue_flags E) args = Inr (fv, [q]))"
| "asks_for E present cmd args (MRetry q i from) \<longleftrightarrow>
     cmd = ''retry'' \<and> q \<in> set present \<and>
     from \<in> {q_bucket (ce_mkq E) JobBucketFailed, q_bucket (ce_mkq E) JobBucketCompleted} \<and>
     (\<exists>fv. flag_Parse (ce_parse_duration E) (retry_flags E) args = Inr (fv, [q, i]) \<and> from = flag_string fv ''from'')"
| "asks_for E present cmd args (MPromote q i) \<longleftrightarrow>
     cmd = ''promote'' \<and> q \<in> set present \<and>
     (\<exists>fv. flag_Parse (ce_parse_duration E) (queue_flags E) args = Inr (fv, [q, i]))"
| "asks_for E present cmd args (MRemove q i) \<longleftrightarrow>
     cmd = ''rm'' \<and> q \<in> set present \<and>
     (\<exists>fv. flag_Parse (ce_parse_duration E) (queue_flags E) args = Inr (fv, [q, i]))"
| "asks_for E present cmd args (MDrain q d) \<longleftrightarrow>
     cmd = ''drain'' \<and> q \<in> set present \<and>
     (\<exists>fv. flag_Parse (ce_parse_duration E) (drain_flags E) args = Inr (fv, [q]) \<and>
        flag_bool fv ''yes'' \<and> d = flag_bool fv ''delayed'')"

fun mutation_queue :: "mutation \<Rightarrow> string" where
  "mutation_queue (MAdd q p os) = q"
| "mutation_queue (MPause q) = q"
| "mutation_queue (MResume q) = q"
| "mutation_queue (MRetry q i from) = q"
| "mutation_queue (MPromote q i) = q"
| "mutation_queue (MRemove q i) = q"
| "mutation_queue (MDrain q d) = q"

text \<open>The queue is registered first; that is what creates a queue for a job added to one that is not
  there.\<close>

definition one_change :: "('v, 's) cli_env \<Rightarrow> string \<Rightarrow> string list \<Rightarrow> 's \<Rightarrow> 's \<Rightarrow> bool" where
  "one_change E cmd args s s' \<longleftrightarrow>
     only_registers (ce_mkq E) s s' \<or>
     (\<exists>present mu. q_discover (ce_mkq E) s = Inr present \<and> asks_for E present cmd args mu \<and>
        s' = apply_mutation (ce_mkq E) mu (q_define (ce_mkq E) (mutation_queue mu) s))"

lemma one_change_refl: "one_change E cmd args s s"
  by (simp add: one_change_def)

lemma with_flags_change:
  assumes "\<And>fv rest. flag_Parse (ce_parse_duration E) flags args = Inr (fv, rest) \<Longrightarrow> one_change E cmd args s (store_of (body fv rest))"
  shows "one_change E cmd args s (store_of (with_flags E flags args s body))"
  using assms by (auto simp: with_flags_def one_change_refl split: sum.splits prod.splits)

lemma with_inspector_change:
  assumes "\<And>ins. q_discover (ce_mkq E) s = Inr (in_present ins) \<Longrightarrow> one_change E cmd args s (snd (snd (body ins s)))"
  shows "one_change E cmd args s (store_of (with_inspector E path s body))"
proof (cases "openInspector E path s")
  case (Inr ins)
  then have "one_change E cmd args s (snd (snd (body ins s)))" by (intro assms) (simp add: openInspector_Inr)
  then show ?thesis using Inr by (simp add: with_inspector_def split_beta)
qed (simp add: with_inspector_def split_beta one_change_refl)

lemma mutate_queue_store:
  "snd (snd (mutate_queue E b q fn wr res human ins s)) =
     (if q \<in> set (in_present ins) then snd (fn q (q_define (ce_mkq E) q s)) else s)"
  by (simp add: mutate_queue_def inspector_queue_def split: prod.splits option.splits)

lemma mutate_queue_change:
  assumes "q_discover (ce_mkq E) s = Inr (in_present ins)"
    and "q \<in> set (in_present ins) \<Longrightarrow> asks_for E (in_present ins) cmd args mu"
    and "\<And>s. apply_mutation (ce_mkq E) mu s = snd (fn q s)" and "mutation_queue mu = q"
  shows "one_change E cmd args s (snd (snd (mutate_queue E b q fn wr res human ins s)))"
  unfolding mutate_queue_store one_change_def using assms by auto

lemma length_1: "length xs = 1 \<Longrightarrow> xs = [xs ! 0]"
  by (cases xs) auto

lemma length_2: "length xs = 2 \<Longrightarrow> xs = [xs ! 0, xs ! 1]"
  by (cases xs; cases "tl xs") auto

lemma pause_resume_change:
  "one_change E ''pause'' args s (store_of (cmdPause E args s))"
  "one_change E ''resume'' args s (store_of (cmdResume E args s))"
  unfolding cmdPause_def cmdResume_def pauseResumeCmd_def Let_def
  subgoal
    apply (rule with_flags_change)
    subgoal for fv rest
      using length_1 [of rest]
      by (cases "length rest = 1")
        (auto simp: one_change_refl intro!: with_inspector_change mutate_queue_change [where mu = "MPause (rest ! 0)"])
    done
  subgoal
    apply (rule with_flags_change)
    subgoal for fv rest
      using length_1 [of rest]
      by (cases "length rest = 1")
        (auto simp: one_change_refl intro!: with_inspector_change mutate_queue_change [where mu = "MResume (rest ! 0)"])
    done
  done

lemma withJob_change:
  assumes "length rest = 2" and "\<And>present. rest ! 0 \<in> set present \<Longrightarrow> asks_for E present cmd args mu"
    and "\<And>s. apply_mutation (ce_mkq E) mu s = snd (fn (rest ! 0) (rest ! 1) s)" and "mutation_queue mu = rest ! 0"
  shows "one_change E cmd args s (store_of (withJob E fv rest action fn s))"
  unfolding withJob_def Let_def
  using assms by (auto intro!: with_inspector_change mutate_queue_change [where mu = mu])

lemma cmdPromote_change: "one_change E ''promote'' args s (store_of (cmdPromote E args s))"
  unfolding cmdPromote_def
  apply (rule with_flags_change)
  subgoal for fv rest
    using length_2 [of rest]
    by (cases "length rest = 2")
      (auto simp: one_change_refl intro!: withJob_change [where mu = "MPromote (rest ! 0) (rest ! 1)"])
  done

lemma cmdRm_change: "one_change E ''rm'' args s (store_of (cmdRm E args s))"
  unfolding cmdRm_def
  apply (rule with_flags_change)
  subgoal for fv rest
    using length_2 [of rest]
    by (cases "length rest = 2")
      (auto simp: one_change_refl intro!: withJob_change [where mu = "MRemove (rest ! 0) (rest ! 1)"])
  done

lemma cmdRetry_change: "one_change E ''retry'' args s (store_of (cmdRetry E args s))"
  unfolding cmdRetry_def Let_def
  apply (rule with_flags_change)
  subgoal for fv rest
    using length_2 [of rest]
    by (cases "length rest = 2")
      (auto simp: one_change_refl
        intro!: withJob_change [where mu = "MRetry (rest ! 0) (rest ! 1) (flag_string fv ''from'')"])
  done

lemma drain_body_store:
  "snd (snd (drain_body E b d q ins s)) \<in>
     (if q \<in> set (in_present ins)
      then {q_define (ce_mkq E) q s, snd (q_drain (ce_mkq E) q d (q_define (ce_mkq E) q s))} else {s})"
  by (simp add: drain_body_def inspector_queue_def split: prod.splits option.splits sum.splits)

lemma drain_body_change:
  assumes "q_discover (ce_mkq E) s = Inr (in_present ins)"
    and "\<And>present. q \<in> set present \<Longrightarrow> asks_for E present cmd args (MDrain q d)"
  shows "one_change E cmd args s (snd (snd (drain_body E b d q ins s)))"
proof (cases "q \<in> set (in_present ins)")
  case True
  then consider "snd (snd (drain_body E b d q ins s)) = q_define (ce_mkq E) q s"
    | "snd (snd (drain_body E b d q ins s)) = snd (q_drain (ce_mkq E) q d (q_define (ce_mkq E) q s))"
    using drain_body_store [of E b d q ins s] by auto
  then show ?thesis
  proof cases
    case 2
    then show ?thesis using assms True
      by (auto simp: one_change_def intro!: exI [of _ "in_present ins"] exI [of _ "MDrain q d"])
  qed (use True only_registers_one [OF assms(1)] in \<open>simp add: one_change_def\<close>)
qed (use drain_body_store [of E b d q ins s] in \<open>simp add: one_change_refl\<close>)

lemma cmdDrain_change: "one_change E ''drain'' args s (store_of (cmdDrain E args s))"
  unfolding cmdDrain_def Let_def
  apply (rule with_flags_change)
  subgoal for fv rest
    using length_1 [of rest]
    by (cases "length rest = 1"; cases "flag_bool fv ''yes''")
      (auto simp: one_change_refl intro!: with_inspector_change drain_body_change)
  done

lemma enqueue_body_store:
  "snd (snd (enqueue_body E fv q p ins s)) =
    (if q \<in> set (in_present ins) \<or> flag_bool fv ''create''
     then snd (q_add (ce_mkq E) q p (enqueue_options fv) (q_define (ce_mkq E) q s)) else s)"
  by (simp add: enqueue_body_def createQueue_def inspector_queue_def split: prod.splits option.splits sum.splits)

lemma enqueue_body_change:
  assumes "q_discover (ce_mkq E) s = Inr (in_present ins)"
    and "json_valid (ce_lib E) p" and "flag_Parse (ce_parse_duration E) (enqueue_flags E) args = Inr (fv, [q, p])"
  shows "one_change E ''enqueue'' args s (snd (snd (enqueue_body E fv q p ins s)))"
  unfolding enqueue_body_store using assms
  by (auto simp: one_change_def intro!: exI [of _ "in_present ins"] exI [of _ "MAdd q p (enqueue_options fv)"])

lemma cmdEnqueue_change: "one_change E ''enqueue'' args s (store_of (cmdEnqueue E args s))"
  unfolding cmdEnqueue_def Let_def
  apply (rule with_flags_change)
  subgoal for fv rest
    using length_2 [of rest]
    by (cases "length rest = 2") (auto simp: one_change_refl intro!: with_inspector_change enqueue_body_change)
  done

section \<open>The report of a drain\<close>







section \<open>Concrete counts\<close>

definition sample_counts :: "64 word \<Rightarrow> queue_counts" where
  "sample_counts n = \<lparr>qn_wait = n, qn_active = 0, qn_delayed = 5, qn_prioritized = 0, qn_completed = 0, qn_failed = 0, qn_paused = 0\<rparr>"

end
