(* ===== verification/Delivery.thy ===== *)
theory Delivery
  imports Registry Httpsend
begin

text \<open>
  What the executors that deliver over HTTP share: the three outcomes of an attempt, the
  error of a retryable attempt with the peer's Retry-After attached, and the contract of an
  executor's last step, which turns a response into the result of the job.  The lemmas of
  the locale say what the queue then does with the job; each executor is an interpretation.
\<close>

datatype outcome = outcomeSuccess | outcomeRetry | outcomePermanent

text \<open>What an execution reads of its surroundings: the libraries, the network, the clock (in
  nanoseconds for dates, in seconds for signatures).\<close>

record exec_env =
  ee_lib :: golib
  ee_net :: network
  ee_now :: int
  ee_unix :: "64 word"

text \<open>The result of an execution, the addresses it connected to, and what it logged.\<close>

type_synonym 'v execution = "'v result \<times> string list \<times> log_line list"

text \<open>The end of the retry branch of both executors.\<close>

definition retry_later :: "golib \<Rightarrow> int \<Rightarrow> header \<Rightarrow> go_error \<Rightarrow> go_error \<times> log_line list" where
  "retry_later L now h err =
     (let ra = header_get h ''Retry-After''
      in if ra = [] then (err, [])
         else case ParseRetryAfter L ra now of
                Some d \<Rightarrow> (case RetryAfter d (Some err) of Some e \<Rightarrow> e | None \<Rightarrow> err, [])
              | None \<Rightarrow> (err, [(LogDebug, ''ignoring an unusable Retry-After'')]))"

section \<open>The contract\<close>

text \<open>How statuses are classified; a peer may veto retries in an executor's own way.\<close>

locale response_classifier =
  fixes classify :: "response \<Rightarrow> outcome" and veto :: "response \<Rightarrow> bool"
  assumes success_iff: "classify r = outcomeSuccess \<longleftrightarrow> 200 \<le> status_code r \<and> status_code r < 300"
    and redirect_permanent: "300 \<le> status_code r \<Longrightarrow> status_code r < 400 \<Longrightarrow> classify r = outcomePermanent"
    and transient_retried: "\<not> veto r \<Longrightarrow> 500 \<le> status_code r \<or> status_code r = 429 \<or> status_code r = 408 \<Longrightarrow>
      classify r = outcomeRetry"
begin

lemma redirect_no_success: "300 \<le> status_code r \<Longrightarrow> classify r \<noteq> outcomeSuccess"
  by (simp add: success_iff)

end

text \<open>How a classified response becomes the result of the job.\<close>

locale delivery = response_classifier +
  fixes settle :: "response \<Rightarrow> string \<Rightarrow> 'v result" and L :: golib and now :: int
  assumes settle_success: "classify r = outcomeSuccess \<Longrightarrow> \<exists>v. settle r p = Inr v"
    and settle_permanent: "classify r = outcomePermanent \<Longrightarrow>
      \<exists>e. settle r p = Inl e \<and> errors_is e ErrUnrecoverable \<and> errors_as_retry e = None"
    and settle_retry: "classify r = outcomeRetry \<Longrightarrow>
      \<exists>err. errors_as_retry err = None \<and> \<not> errors_is err ErrUnrecoverable \<and>
        settle r p = Inl (fst (retry_later L now (resp_header r) err))"
begin

lemma redirect_gives_up:
  assumes "300 \<le> status_code r" "status_code r < 400"
  shows "\<exists>e. settle r p = Inl e \<and> errors_is e ErrUnrecoverable"
  using settle_permanent [OF redirect_permanent [OF assms]] by blast

lemma success_only_2xx: "settle r p = Inr v \<Longrightarrow> 200 \<le> status_code r \<and> status_code r < 300"
proof -
  assume s: "settle r p = Inr v"
  have "classify r = outcomeSuccess"
  proof (cases "classify r")
    case outcomeRetry
    then show ?thesis using settle_retry [OF outcomeRetry, of p] s by auto
  next
    case outcomePermanent
    then show ?thesis using settle_permanent [OF outcomePermanent, of p] s by auto
  qed simp
  then show ?thesis by (simp add: success_iff)
qed

lemma throttled_waits:
  assumes "\<not> veto r" and "500 \<le> status_code r \<or> status_code r = 429 \<or> status_code r = 408"
    and v: "header_get (resp_header r) ''Retry-After'' = v" "list_all is_digit v" "0 < dec_val 0 v"
  shows "\<exists>e. settle r p = Inl e \<and> \<not> errors_is e ErrUnrecoverable \<and>
    fst (retryDelay (bc\<lparr>bc_err := Some e\<rparr>)) = Some (word_of_int (min (int (dec_val 0 v)) 3600 * nano_second))"
proof -
  obtain err where err: "errors_as_retry err = None" "\<not> errors_is err ErrUnrecoverable"
    and s: "settle r p = Inl (fst (retry_later L now (resp_header r) err))"
    using settle_retry [OF transient_retried [OF assms(1,2)]] by blast
  have ne: "v \<noteq> []" using v(3) by auto
  obtain d where d: "ParseRetryAfter L v now = Some d"
    using ParseRetryAfter_digits [OF v(2) ne] by blast
  note delay = retryDelay_digits [OF v(2) ne err(1) d, of bc]
  obtain e where e: "RetryAfter d (Some err) = Some e" and un: "errors_is e ErrUnrecoverable = errors_is err ErrUnrecoverable"
    by (cases "sint d \<le> 0") (simp_all add: RetryAfter_def)
  have "fst (retry_later L now (resp_header r) err) = e"
    using v(1) ne d e by (simp add: retry_later_def Let_def)
  then show ?thesis using s delay e un err(2) v(3) by (intro exI [of _ e]) simp
qed

lemma unthrottled_backs_off:
  assumes "\<not> veto r" and "500 \<le> status_code r \<or> status_code r = 429 \<or> status_code r = 408"
    and "header_get (resp_header r) ''Retry-After'' = []"
  shows "\<exists>e. settle r p = Inl e \<and> \<not> errors_is e ErrUnrecoverable \<and> retryDelay (bc\<lparr>bc_err := Some e\<rparr>) = (None, [])"
proof -
  obtain err where err: "errors_as_retry err = None" "\<not> errors_is err ErrUnrecoverable"
    and s: "settle r p = Inl (fst (retry_later L now (resp_header r) err))"
    using settle_retry [OF transient_retried [OF assms(1,2)]] by blast
  moreover have "fst (retry_later L now (resp_header r) err) = err" using assms(3) by (simp add: retry_later_def)
  ultimately show ?thesis by (intro exI [of _ err]) (simp add: retryDelay_none)
qed

end

end
