(* ===== verification/Httpexec.thy ===== *)
theory Httpexec
  imports Delivery
begin

text \<open>
  Model of \<open>executor/httpexec\<close>: the \<open>http\<close> executor of \<open>httpexec.go\<close>, which posts every job of a
  queue to one configured endpoint, and the \<open>webhook\<close> executor of \<open>webhook.go\<close>, which posts to a
  URL found in the job payload.  JSON encoding and decoding are arguments; a Go map of
  headers is a list of its entries in the order the iteration happens to take.
\<close>

section \<open>Constants\<close>

definition HeaderQueue :: string where "HeaderQueue = ''X-Mkqd-Queue''"
definition HeaderJobID :: string where "HeaderJobID = ''X-Mkqd-Job-Id''"
definition HeaderJobName :: string where "HeaderJobName = ''X-Mkqd-Job-Name''"
definition HeaderAttempt :: string where "HeaderAttempt = ''X-Mkqd-Attempt''"
definition HeaderRetry :: string where "HeaderRetry = ''X-Mkqd-Retry''"

definition http_defaultTimeout :: duration where "http_defaultTimeout = 30000000000"
definition failedReasonLimit :: nat where "failedReasonLimit = 1024"
definition headerValueLimit :: nat where "headerValueLimit = 256"

section \<open>Headers\<close>

definition validHeaderValueByte :: "char \<Rightarrow> bool" where
  "validHeaderValueByte b \<longleftrightarrow> (32 \<le> byte b \<or> byte b = 9) \<and> byte b \<noteq> 127"

definition validHeaderValue :: "string \<Rightarrow> bool" where
  "validHeaderValue s \<longleftrightarrow> list_all validHeaderValueByte s"

definition isTokenByte :: "char \<Rightarrow> bool" where
  "isTokenByte b \<longleftrightarrow>
     97 \<le> byte b \<and> byte b \<le> 122 \<or> 65 \<le> byte b \<and> byte b \<le> 90 \<or> 48 \<le> byte b \<and> byte b \<le> 57 \<or>
     b \<in> set (''!#$%&'' @ [CHR 0x27] @ ''*+-.^_'' @ [CHR 0x60] @ ''|~'')"

definition validHeaderName :: "string \<Rightarrow> bool" where
  "validHeaderName s \<longleftrightarrow> s \<noteq> [] \<and> list_all isTokenByte s"

definition sanitizeHeaderValue :: "string \<Rightarrow> string" where
  "sanitizeHeaderValue v =
     map (\<lambda>b. if validHeaderValueByte b then b else CHR ''_'')
       (if headerValueLimit < length v then Truncate v headerValueLimit else v)"

fun checkHeaders :: "(string \<times> string) list \<Rightarrow> go_error option" where
  "checkHeaders [] = None"
| "checkHeaders ((k, v) # h) =
     (if \<not> validHeaderName k then Some (Errorf ''invalid header name %q'' [ArgS k])
      else if \<not> validHeaderValue v then Some (Errorf ''invalid value for header %q'' [ArgS k])
      else checkHeaders h)"

definition isReservedHeader :: "golib \<Rightarrow> string \<Rightarrow> bool" where
  "isReservedHeader L name \<longleftrightarrow>
     equal_fold L name ''Content-Type'' \<or> equal_fold L name ''User-Agent'' \<or>
     has_prefix (to_lower L name) ''x-mkqd-''"

definition userAgent :: "string \<Rightarrow> string" where
  "userAgent override = (if override \<noteq> [] then override else UserAgent)"

definition http_permanent :: "string \<Rightarrow> fmt_arg list \<Rightarrow> go_error" where
  "http_permanent fmt args = Wrapf (''mkqd/http: %w: '' @ fmt) args (Sentinel ErrUnrecoverable)"

definition isBlocked :: "go_error \<Rightarrow> bool" where
  "isBlocked err \<longleftrightarrow> errors_is err ErrBlocked"

definition Sign :: "golib \<Rightarrow> string \<Rightarrow> 64 word \<Rightarrow> string \<Rightarrow> string" where
  "Sign L secret unixSeconds body = SignHMAC L secret unixSeconds body"

section \<open>Responses\<close>

definition httpexec_classify :: "golib \<Rightarrow> int \<Rightarrow> header \<Rightarrow> outcome" where
  "httpexec_classify L status h =
     (if 200 \<le> status \<and> status < 300 then outcomeSuccess
      else if equal_fold L (header_get h HeaderRetry) ''no'' then outcomePermanent
      else if 300 \<le> status \<and> status < 400 then outcomePermanent
      else if status = 400 \<or> status = 409 \<or> status = 410 \<or> status = 422 then outcomePermanent
      else outcomeRetry)"

definition returnValue :: "golib \<Rightarrow> header \<Rightarrow> string \<Rightarrow> string option" where
  "returnValue L h payload =
     (let trimmed = trim_space payload
      in if trimmed = [] then None
         else if \<not> str_contains (header_get h ''Content-Type'') ''json'' then None
         else if \<not> json_valid L trimmed then None
         else Some trimmed)"

definition httpexec_detail :: "golib \<Rightarrow> header \<Rightarrow> string \<Rightarrow> string" where
  "httpexec_detail L h payload =
     (let trimmed = trim_space payload
      in if trimmed = [] then ''(empty response body)''
         else case (if str_contains (header_get h ''Content-Type'') ''json'' then json_error_field L trimmed else None) of
                Some err \<Rightarrow> if err \<noteq> [] then Truncate err failedReasonLimit else Truncate trimmed failedReasonLimit
              | None \<Rightarrow> Truncate trimmed failedReasonLimit)"

text \<open>The switch at the end of \<open>send\<close>.\<close>

definition http_settle :: "golib \<Rightarrow> int \<Rightarrow> string \<Rightarrow> response \<Rightarrow> string \<Rightarrow> string option result \<times> log_line list" where
  "http_settle L now target resp payload =
     (let h = resp_header resp; why = httpexec_detail L h payload
      in case httpexec_classify L (status_code resp) h of
           outcomeSuccess \<Rightarrow> (Inr (returnValue L h payload), [])
         | outcomePermanent \<Rightarrow>
             (Inl (http_permanent ''POST %s: %s: %s'' [ArgS target, ArgS (status_text resp), ArgS why]), [])
         | outcomeRetry \<Rightarrow>
             (case retry_later L now h
                     (Errorf ''mkqd/http: POST %s: %s: %s'' [ArgS target, ArgS (status_text resp), ArgS why]) of
                (err, lg) \<Rightarrow> (Inl err, lg)))"

section \<open>Sending\<close>

record sender =
  sd_client :: http_client
  sd_user_agent :: string
  sd_max_bytes :: int

definition newSender :: "bool \<Rightarrow> int \<Rightarrow> string \<Rightarrow> sender" where
  "newSender allowPrivate maxBytes ua =
     \<lparr>sd_client = NewClient allowPrivate, sd_user_agent = ua, sd_max_bytes = maxBytes\<rparr>"

definition add_extra :: "golib \<Rightarrow> request \<Rightarrow> (string \<times> string) list \<Rightarrow> request" where
  "add_extra L req extra =
     foldl (\<lambda>r (k, v). if isReservedHeader L k then r else set_header k v r) req extra"

text \<open>The headers of a dispatch, in the order \<open>send\<close> sets them.\<close>

definition dispatch_request ::
    "exec_env \<Rightarrow> sender \<Rightarrow> string \<Rightarrow> string \<Rightarrow> (string \<times> string) list \<Rightarrow> job \<Rightarrow> request \<Rightarrow> request" where
  "dispatch_request E s body secret extra j req0 =
     (let req1 = set_header HeaderTimestamp (format_int (sint (ee_unix E)))
           (set_header HeaderAttempt (format_int (sint (j_attempts_made j + 1)))
           (set_header HeaderJobName (sanitizeHeaderValue (j_name j))
           (set_header HeaderJobID (sanitizeHeaderValue (j_id j))
           (set_header HeaderQueue (sanitizeHeaderValue (j_queue j))
           (set_header ''User-Agent'' (sd_user_agent s)
           (set_header ''Content-Type'' ''application/json''
           (add_extra (ee_lib E) req0 extra)))))))
      in if secret \<noteq> [] then set_header HeaderSignature (Sign (ee_lib E) secret (ee_unix E) body) req1 else req1)"

definition send ::
    "exec_env \<Rightarrow> sender \<Rightarrow> string \<Rightarrow> string \<Rightarrow> string \<Rightarrow> (string \<times> string) list \<Rightarrow> job \<Rightarrow> string option execution" where
  "send E s target body secret extra j =
     (case new_post_request (ee_lib E) target of
        Inl e \<Rightarrow> (Inl (http_permanent ''build request for %s: %v'' [ArgS target, ArgE e]), [], [])
      | Inr req0 \<Rightarrow>
          (case client_do (ee_net E) (sd_client s) (dispatch_request E s body secret extra j req0) body of
             (Inl e, tried) \<Rightarrow>
               (Inl (if isBlocked e then http_permanent ''%s is not reachable: %v'' [ArgS target, ArgE e]
                     else Wrapf ''mkqd/http: POST %s: %w'' [ArgS target] e), tried, [])
           | (Inr resp, tried) \<Rightarrow>
               (case fst (ReadBody resp (sd_max_bytes s)) of
                  Inl e \<Rightarrow> (Inl (Wrapf ''mkqd/http: POST %s: read response: %w'' [ArgS target] e), tried, [])
                | Inr payload \<Rightarrow>
                    (case http_settle (ee_lib E) (ee_now E) target resp payload of
                       (r, lg) \<Rightarrow> (r, tried, lg)))))"

section \<open>The http executor\<close>

record http_options =
  ho_url :: string
  ho_timeout :: duration
  ho_secret :: string
  ho_user_agent :: string
  ho_headers :: "(string \<times> string) list"
  ho_max_response_bytes :: go_int
  ho_allow_private :: "bool option"

definition zero_http_options :: http_options where
  "zero_http_options = \<lparr>ho_url = [], ho_timeout = 0, ho_secret = [], ho_user_agent = [], ho_headers = [],
     ho_max_response_bytes = 0, ho_allow_private = None\<rparr>"

definition http_timeout :: "http_options \<Rightarrow> duration" where
  "http_timeout o' = (if sint (ho_timeout o') \<le> 0 then http_defaultTimeout else ho_timeout o')"

definition http_maxResponseBytes :: "http_options \<Rightarrow> int" where
  "http_maxResponseBytes o' =
     (if sint (ho_max_response_bytes o') \<le> 0 then DefaultMaxResponseBytes else sint (ho_max_response_bytes o'))"

definition http_allowPrivate :: "http_options \<Rightarrow> bool" where
  "http_allowPrivate o' = (case ho_allow_private o' of None \<Rightarrow> True | Some b \<Rightarrow> b)"

definition checkTarget :: "golib \<Rightarrow> string \<Rightarrow> go_error option" where
  "checkTarget L raw =
     (if raw = [] then Some (Errorf ''url is required'' [])
      else case url_parse L raw of
        Inl e \<Rightarrow> Some (Errorf ''url %q is not parseable: %v'' [ArgS raw, ArgE e])
      | Inr u \<Rightarrow>
          if u_scheme u \<noteq> ''http'' \<and> u_scheme u \<noteq> ''https''
          then Some (Errorf ''url %q must use http or https'' [ArgS raw])
          else if u_host u = [] then Some (Errorf ''url %q has no host'' [ArgS raw])
          else None)"

record http_executor =
  hx_opts :: http_options
  hx_snd :: sender

definition newHTTPExecutor ::
    "golib \<Rightarrow> yaml_lib \<Rightarrow> (string \<Rightarrow> http_options decoded) \<Rightarrow> executor_config \<Rightarrow> http_executor result" where
  "newHTTPExecutor L Y decode cfg =
     (case DecodeStrict Y decode zero_http_options cfg of
        Inl e \<Rightarrow> Inl e
      | Inr opts \<Rightarrow>
          if ho_url opts = [] then Inl (Errorf ''executor http: url is required'' [])
          else case checkTarget L (ho_url opts) of
            Some e \<Rightarrow> Inl (Wrapf ''executor http: %w'' [] e)
          | None \<Rightarrow>
              (case checkHeaders (ho_headers opts) of
                 Some e \<Rightarrow> Inl (Wrapf ''executor http: %w'' [] e)
               | None \<Rightarrow>
                   Inr \<lparr>hx_opts = opts,
                        hx_snd = newSender (http_allowPrivate opts) (http_maxResponseBytes opts)
                                   (userAgent (ho_user_agent opts))\<rparr>))"

text \<open>The envelope posted by the \<open>http\<close> executor, encoded by the argument \<open>marshal\<close>.\<close>

record envelope =
  ev_queue :: string
  ev_id :: string
  ev_name :: string
  ev_data :: string
  ev_attempts_made :: go_int
  ev_timestamp :: int

definition httpExecutor_Execute ::
    "exec_env \<Rightarrow> (envelope \<Rightarrow> string result) \<Rightarrow> http_executor \<Rightarrow> job \<Rightarrow> string option execution" where
  "httpExecutor_Execute E marshal ex j =
     (case marshal \<lparr>ev_queue = j_queue j, ev_id = j_id j, ev_name = j_name j, ev_data = j_data j,
                    ev_attempts_made = j_attempts_made j, ev_timestamp = j_timestamp j\<rparr> of
        Inl e \<Rightarrow> (Inl (http_permanent ''encode dispatch envelope: %v'' [ArgE e]), [], [])
      | Inr body \<Rightarrow>
          send E (hx_snd ex) (ho_url (hx_opts ex)) body (ho_secret (hx_opts ex)) (ho_headers (hx_opts ex)) j)"

section \<open>The webhook executor\<close>

record webhook_options =
  wo_timeout :: duration
  wo_secret :: string
  wo_user_agent :: string
  wo_headers :: "(string \<times> string) list"
  wo_max_response_bytes :: go_int
  wo_allow_private :: "bool option"

definition zero_webhook_options :: webhook_options where
  "zero_webhook_options = \<lparr>wo_timeout = 0, wo_secret = [], wo_user_agent = [], wo_headers = [],
     wo_max_response_bytes = 0, wo_allow_private = None\<rparr>"

definition webhook_timeout :: "webhook_options \<Rightarrow> duration" where
  "webhook_timeout o' = (if sint (wo_timeout o') \<le> 0 then http_defaultTimeout else wo_timeout o')"

definition webhook_maxResponseBytes :: "webhook_options \<Rightarrow> int" where
  "webhook_maxResponseBytes o' =
     (if sint (wo_max_response_bytes o') \<le> 0 then DefaultMaxResponseBytes else sint (wo_max_response_bytes o'))"

definition webhook_allowPrivate :: "webhook_options \<Rightarrow> bool" where
  "webhook_allowPrivate o' \<longleftrightarrow> wo_allow_private o' = Some True"

record webhook_payload =
  wp_url :: string
  wp_secret :: string
  wp_headers :: "(string \<times> string) list"
  wp_body :: string

record webhook_executor =
  wx_opts :: webhook_options
  wx_snd :: sender

definition newWebhookExecutor ::
    "yaml_lib \<Rightarrow> (string \<Rightarrow> webhook_options decoded) \<Rightarrow> executor_config \<Rightarrow> webhook_executor result" where
  "newWebhookExecutor Y decode cfg =
     (case DecodeStrict Y decode zero_webhook_options cfg of
        Inl e \<Rightarrow> Inl e
      | Inr opts \<Rightarrow>
          (case checkHeaders (wo_headers opts) of
             Some e \<Rightarrow> Inl (Wrapf ''executor webhook: %w'' [] e)
           | None \<Rightarrow>
               Inr \<lparr>wx_opts = opts,
                    wx_snd = newSender (webhook_allowPrivate opts) (webhook_maxResponseBytes opts)
                               (userAgent (wo_user_agent opts))\<rparr>))"

text \<open>\<open>mergeHeaders\<close>: the entries of the merged map.  A key of both maps has the value of the
  second.\<close>

definition mergeHeaders :: "(string \<times> string) list \<Rightarrow> (string \<times> string) list \<Rightarrow> (string \<times> string) list" where
  "mergeHeaders base over =
     (if base = [] then over
      else if over = [] then base
      else filter (\<lambda>(k, v). k \<notin> fst ` set over) base @ over)"

definition webhookExecutor_Execute ::
    "exec_env \<Rightarrow> (string \<Rightarrow> webhook_payload result) \<Rightarrow> webhook_executor \<Rightarrow> job \<Rightarrow> string option execution" where
  "webhookExecutor_Execute E unmarshal ex j =
     (case unmarshal (j_data j) of
        Inl e \<Rightarrow> (Inl (http_permanent ''job %s: payload is not a webhook payload: %v'' [ArgS (j_id j), ArgE e]), [], [])
      | Inr p \<Rightarrow>
          (case checkTarget (ee_lib E) (wp_url p) of
             Some e \<Rightarrow> (Inl (http_permanent ''job %s: %v'' [ArgS (j_id j), ArgE e]), [], [])
           | None \<Rightarrow>
               (case checkHeaders (wp_headers p) of
                  Some e \<Rightarrow> (Inl (http_permanent ''job %s: %v'' [ArgS (j_id j), ArgE e]), [], [])
                | None \<Rightarrow>
                    send E (wx_snd ex) (wp_url p)
                      (if wp_body p = [] then ''null'' else wp_body p)
                      (if wp_secret p = [] then wo_secret (wx_opts ex) else wp_secret p)
                      (mergeHeaders (wo_headers (wx_opts ex)) (wp_headers p)) j)))"

section \<open>Reserved headers\<close>

lemma isTokenByte_eq: "isTokenByte = is_token_byte"
  unfolding isTokenByte_def [abs_def] is_token_byte_def [abs_def] token_punct_def ..

lemma token_case: "is_token_byte c \<Longrightarrow> is_token_byte (upper_byte c) \<and> is_token_byte (lower_byte c)"
proof -
  assume c: "is_token_byte c"
  have "is_token_byte (upper_byte c)"
    using c by (cases "97 \<le> byte c \<and> byte c \<le> 122") (auto simp: upper_byte_def is_token_byte_def)
  moreover have "is_token_byte (lower_byte c)"
    using c by (cases "65 \<le> byte c \<and> byte c \<le> 90") (auto simp: lower_byte_def is_token_byte_def)
  ultimately show ?thesis ..
qed

lemma token_canon_go: "list_all is_token_byte s \<Longrightarrow> list_all is_token_byte (canon_go u s)"
  by (induction s arbitrary: u) (auto simp: Let_def token_case)

text \<open>A key that lands in the same slot as a token is that token up to case.\<close>

lemma canonical_collision:
  assumes "canonical_key k = canonical_key h" and "list_all is_token_byte h"
  shows "list_all is_token_byte k \<and> map lower_byte k = map lower_byte h"
proof -
  have "list_all is_token_byte (canonical_key h)"
    using assms(2) by (simp add: canonical_key_def token_canon_go)
  then have "list_all is_token_byte k"
    using assms(1) by (cases "list_all is_token_byte k") (simp_all add: canonical_key_def split: if_splits)
  then show ?thesis using assms canonical_key_eq_iff by blast
qed

lemma reserved_collision:
  assumes "canonical_key k = canonical_key h" and "list_all is_token_byte h"
    and "has_prefix (map lower_byte h) ''x-mkqd-''"
  shows "isReservedHeader L k"
  using canonical_collision [OF assms(1,2)] assms(3) by (simp add: isReservedHeader_def to_lower_token)

lemma add_extra_reserved:
  assumes "list_all is_token_byte h" and "has_prefix (map lower_byte h) ''x-mkqd-''"
  shows "header_get (r_header (add_extra L req extra)) h = header_get (r_header req) h"
proof (induction extra arbitrary: req)
  case (Cons kv extra)
  obtain k v where kv: "kv = (k, v)" by (cases kv)
  have step: "header_get (r_header (if isReservedHeader L k then req else set_header k v req)) h = header_get (r_header req) h"
    using reserved_collision [of k h L] assms by (auto simp: header_simps)
  show ?case using Cons.IH [of "if isReservedHeader L k then req else set_header k v req"] step kv
    by (simp add: add_extra_def)
qed (simp add: add_extra_def)

lemma canonical_dispatch:
  "canonical_key HeaderSignature = ''X-Mkqd-Signature''" "canonical_key HeaderTimestamp = ''X-Mkqd-Timestamp''"
  "canonical_key HeaderAttempt = ''X-Mkqd-Attempt''" "canonical_key HeaderJobName = ''X-Mkqd-Job-Name''"
  "canonical_key HeaderJobID = ''X-Mkqd-Job-Id''" "canonical_key HeaderQueue = ''X-Mkqd-Queue''"
  "canonical_key ''User-Agent'' = ''User-Agent''" "canonical_key ''Content-Type'' = ''Content-Type''"
  by code_simp+

lemma signature_reserved: "list_all is_token_byte HeaderSignature \<and> has_prefix (map lower_byte HeaderSignature) ''x-mkqd-''"
  by code_simp

text \<open>
  C19: Whatever extra headers the configuration or the job payload adds, a dispatch carries the
  headers mkqd controls with the values mkqd gives them: queue, job id and name (sanitised),
  attempt number, timestamp, content type and user agent.  With a secret the signature header is
  the HMAC of this very body and timestamp; without one there is no signature header at all,
  so a payload cannot forge it in any spelling.
\<close>
theorem dispatch_headers_protected:
  assumes "r_header req0 = Map.empty" and "r = dispatch_request E s body secret extra j req0"
  shows "header_get (r_header r) HeaderSignature =
      (if secret = [] then [] else SignHMAC (ee_lib E) secret (ee_unix E) body) \<and>
    header_get (r_header r) HeaderTimestamp = format_int (sint (ee_unix E)) \<and>
    header_get (r_header r) HeaderAttempt = format_int (sint (j_attempts_made j + 1)) \<and>
    header_get (r_header r) HeaderQueue = sanitizeHeaderValue (j_queue j) \<and>
    header_get (r_header r) HeaderJobID = sanitizeHeaderValue (j_id j) \<and>
    header_get (r_header r) HeaderJobName = sanitizeHeaderValue (j_name j) \<and>
    header_get (r_header r) ''User-Agent'' = sd_user_agent s \<and>
    header_get (r_header r) ''Content-Type'' = ''application/json''"
proof -
  have sig: "header_get (r_header (add_extra (ee_lib E) req0 extra)) HeaderSignature = []"
    using add_extra_reserved [of HeaderSignature "ee_lib E" req0 extra] signature_reserved assms(1) by simp
  show ?thesis
    using sig unfolding assms(2) dispatch_request_def Sign_def
    by (simp add: Let_def header_simps canonical_dispatch)
qed

section \<open>Sanitised values\<close>

lemma sanitize_valid: "validHeaderValue (sanitizeHeaderValue v)"
  by (auto simp: sanitizeHeaderValue_def validHeaderValue_def list_all_iff validHeaderValueByte_def)

text \<open>
  Job metadata is safe to put in a header: the sanitised value is always a valid field value,
  of at most 256 bytes plus the truncation mark, and a valid value within the limit passes
  unchanged.
\<close>
theorem sanitize_header_value_safe:
  "validHeaderValue (sanitizeHeaderValue v) \<and> length (sanitizeHeaderValue v) \<le> 256 + 15 \<and>
   (validHeaderValue v \<and> length v \<le> 256 \<longrightarrow> sanitizeHeaderValue v = v)"
proof -
  have "length (sanitizeHeaderValue v) \<le> 256 + 15"
    using Truncate_length [of v 256] by (auto simp: sanitizeHeaderValue_def headerValueLimit_def)
  moreover have "validHeaderValue v \<and> length v \<le> 256 \<longrightarrow> sanitizeHeaderValue v = v"
    by (auto simp: sanitizeHeaderValue_def headerValueLimit_def validHeaderValue_def list_all_iff intro!: map_idI)
  ultimately show ?thesis using sanitize_valid by blast
qed

theorem sanitize_header_value_safe_witness: "sanitizeHeaderValue ''job 1'' = ''job 1''"
  using sanitize_header_value_safe [of "''job 1''"]
  by (simp add: validHeaderValue_def validHeaderValueByte_def)

section \<open>Payloads and destinations\<close>

lemma http_permanent_props: "errors_is (http_permanent f as) ErrUnrecoverable" "errors_as_retry (http_permanent f as) = None"
  by (simp_all add: http_permanent_def)

text \<open>
  A payload that cannot be delivered is never retried and never leaves the process: when it
  does not decode, its URL is missing, unparseable, without a host or not http(s), or one of
  its headers could not be sent, the webhook executor fails permanently without connecting to
  anything.
\<close>
theorem webhook_rejects_bad_payload:
  assumes "case unmarshal (j_data j) of
      Inl e \<Rightarrow> True
    | Inr p \<Rightarrow> checkTarget (ee_lib E) (wp_url p) \<noteq> None \<or>
        \<not> list_all (\<lambda>(k, v). validHeaderName k \<and> validHeaderValue v) (wp_headers p)"
  shows "\<exists>e. webhookExecutor_Execute E unmarshal ex j = (Inl e, [], []) \<and>
    errors_is e ErrUnrecoverable \<and> errors_as_retry e = None"
proof -
  have "checkHeaders h = None \<longleftrightarrow> list_all (\<lambda>(k, v). validHeaderName k \<and> validHeaderValue v) h" for h
    by (induction h rule: checkHeaders.induct) auto
  then show ?thesis using assms
    by (auto simp: webhookExecutor_Execute_def http_permanent_props split: sum.splits option.splits)
qed

lemma send_tried:
  "a \<in> set (fst (snd (send E s target body secret extra j))) \<Longrightarrow>
     \<exists>req. a \<in> set (snd (client_do (ee_net E) (sd_client s) req body))"
  by (auto simp: send_def split: sum.splits prod.splits) (metis snd_conv)+

text \<open>
  C20: A webhook executor built from a configuration that does not explicitly allow private
  networks connects to public addresses only, whatever URL the payload names and whatever
  it resolves to.
\<close>
theorem webhook_only_dials_public:
  assumes "newWebhookExecutor Y decode cfg = Inr ex" and "wo_allow_private (wx_opts ex) \<noteq> Some True"
    and "a \<in> set (fst (snd (webhookExecutor_Execute E unmarshal ex j)))"
  shows "\<exists>host port ip. SplitHostPort a = Inr (host, port) \<and>
    n_parse_addr (ee_net E) host = Some ip \<and> IsPublic ip"
proof -
  have client: "sd_client (wx_snd ex) = NewClient False"
    using assms(1,2) by (auto simp: newWebhookExecutor_def newSender_def webhook_allowPrivate_def
        split: sum.splits option.splits)
  obtain target body secret extra where
    "a \<in> set (fst (snd (send E (wx_snd ex) target body secret extra j)))"
    using assms(3) by (auto simp: webhookExecutor_Execute_def split: sum.splits option.splits)
  then obtain req where "a \<in> set (snd (client_do (ee_net E) (NewClient False) req body))"
    using send_tried [of a E "wx_snd ex"] client by metis
  then have "CheckAddr (n_parse_addr (ee_net E)) a = None"
    using client_do_guarded by (fastforce simp: dial_control_def NewClient_def NewDialer_def)
  then show ?thesis by (simp add: CheckAddr_none_iff)
qed

section \<open>The contract of the http executors\<close>

interpretation http_delivery: delivery
  "\<lambda>r. httpexec_classify L (status_code r) (resp_header r)"
  "\<lambda>r. equal_fold L (header_get (resp_header r) HeaderRetry) ''no''"
  "\<lambda>r p. fst (http_settle L now target r p)" L now
  for L now target
proof unfold_locales
  fix r :: response and p
  assume "httpexec_classify L (status_code r) (resp_header r) = outcomeRetry"
  then show "\<exists>err. errors_as_retry err = None \<and> \<not> errors_is err ErrUnrecoverable \<and>
      fst (http_settle L now target r p) = Inl (fst (retry_later L now (resp_header r) err))"
    by (intro exI [of _ "Errorf ''mkqd/http: POST %s: %s: %s''
          [ArgS target, ArgS (status_text r), ArgS (httpexec_detail L (resp_header r) p)]"])
      (simp add: http_settle_def Let_def split: prod.splits)
qed (auto simp: httpexec_classify_def http_settle_def Let_def http_permanent_props split: if_splits)

section \<open>Concrete instances\<close>

definition sample_job :: job where
  "sample_job = \<lparr>j_queue = ''hooks'', j_id = ''7'', j_name = ''ping'', j_data = ''{}'', j_attempts_made = 0,
     j_timestamp = 0, j_src = None\<rparr>"

definition sample_env :: exec_env where
  "sample_env = \<lparr>ee_lib = sample_lib, ee_net = sample_net [''169.254.169.254:80'', ''8.8.8.8:80''],
     ee_now = 0, ee_unix = 1700000000\<rparr>"

definition sample_webhook :: webhook_executor where
  "sample_webhook = \<lparr>wx_opts = zero_webhook_options, wx_snd = newSender False DefaultMaxResponseBytes UserAgent\<rparr>"

definition sample_hook :: "string \<Rightarrow> webhook_payload" where
  "sample_hook u = \<lparr>wp_url = u, wp_secret = [], wp_headers = [(''x-MKQD-signature'', ''forged'')], wp_body = []\<rparr>"

theorem dispatch_headers_protected_witness:
  "header_get (r_header (dispatch_request sample_env (wx_snd sample_webhook) ''null'' []
     [(''x-MKQD-signature'', ''forged'')] sample_job (sample_request\<lparr>r_header := Map.empty\<rparr>))) HeaderSignature = []"
  using dispatch_headers_protected [of "sample_request\<lparr>r_header := Map.empty\<rparr>", OF _ refl,
      of sample_env "wx_snd sample_webhook" "''null''" "[]" "[(''x-MKQD-signature'', ''forged'')]" sample_job]
  by simp

theorem webhook_rejects_bad_payload_witness:
  "\<exists>e. webhookExecutor_Execute sample_env (\<lambda>_. Inr (sample_hook ''ftp://a'')) sample_webhook sample_job = (Inl e, [], []) \<and>
     errors_is e ErrUnrecoverable"
proof -
  have "checkTarget (ee_lib sample_env) (wp_url (sample_hook ''ftp://a'')) \<noteq> None" by code_simp
  then show ?thesis
    using webhook_rejects_bad_payload [where unmarshal = "\<lambda>_. Inr (sample_hook ''ftp://a'')" and
        j = sample_job and E = sample_env and ex = sample_webhook] by auto
qed

theorem webhook_only_dials_public_witness:
  "\<exists>host port ip. SplitHostPort ''8.8.8.8:80'' = Inr (host, port) \<and>
     n_parse_addr (ee_net sample_env) host = Some ip \<and> IsPublic ip"
proof (rule webhook_only_dials_public)
  let ?Y = "\<lparr>y_unmarshal = (\<lambda>_. Inr None), y_marshal = (\<lambda>_. Inr []), y_decode_config = (\<lambda>_. Inr zero_config)\<rparr>"
  show "newWebhookExecutor ?Y (\<lambda>_. DecEOF) \<lparr>ec_type = ''webhook'', ec_node = None\<rparr> = Inr sample_webhook"
    by (simp add: newWebhookExecutor_def DecodeStrict_def sample_webhook_def zero_webhook_options_def
        webhook_allowPrivate_def webhook_maxResponseBytes_def userAgent_def)
  show "wo_allow_private (wx_opts sample_webhook) \<noteq> Some True"
    by (simp add: sample_webhook_def zero_webhook_options_def)
  have "checkTarget (ee_lib sample_env) (wp_url (sample_hook ''https://a'')) = None"
    "checkHeaders (wp_headers (sample_hook ''https://a'')) = None" by code_simp+
  moreover have "\<exists>req. new_post_request (ee_lib sample_env) (wp_url (sample_hook ''https://a'')) = Inr req"
    by (simp add: new_post_request_def sample_env_def sample_lib_def sample_hook_def Let_def)
  ultimately show "''8.8.8.8:80'' \<in> set (fst (snd (webhookExecutor_Execute sample_env
      (\<lambda>_. Inr (sample_hook ''https://a'')) sample_webhook sample_job)))"
    using sample_check [of "[''169.254.169.254:80'', ''8.8.8.8:80'']"]
    by (auto simp: webhookExecutor_Execute_def send_def client_do_def dial_control_def NewClient_def NewDialer_def
        sample_env_def sample_webhook_def newSender_def split: sum.splits prod.splits)
qed

end
