(* ===== verification/Go_Base64.thy ===== *)
theory Go_Base64
  imports Go_Prelude
begin

text \<open>
  \<open>base64.StdEncoding\<close> of Go: encoding with padding, and the decoder, which skips carriage
  returns and newlines, takes groups of four characters, accepts padding only in the last
  group, and does not look at the unused low bits of a padded group.  The lemmas give the
  round trip and the alphabet of the encoded form.
\<close>

definition b64_alphabet :: string where
  "b64_alphabet = ''ABCDEFGHIJKLMNOPQRSTUVWXYZabcdefghijklmnopqrstuvwxyz0123456789+/''"

definition b64_char :: "nat \<Rightarrow> char" where
  "b64_char n = b64_alphabet ! n"

fun index_of :: "char \<Rightarrow> string \<Rightarrow> nat option" where
  "index_of c [] = None"
| "index_of c (x # xs) = (if c = x then Some 0 else map_option Suc (index_of c xs))"

definition b64_val :: "char \<Rightarrow> nat option" where
  "b64_val c = index_of c b64_alphabet"

fun base64_encode :: "string \<Rightarrow> string" where
  "base64_encode [] = []"
| "base64_encode [a] =
     [b64_char (byte a div 4), b64_char (byte a mod 4 * 16), CHR ''='', CHR ''='']"
| "base64_encode [a, b] =
     [b64_char (byte a div 4), b64_char (byte a mod 4 * 16 + byte b div 16),
      b64_char (byte b mod 16 * 4), CHR ''='']"
| "base64_encode (a # b # c # rest) =
     b64_char (byte a div 4) # b64_char (byte a mod 4 * 16 + byte b div 16) #
     b64_char (byte b mod 16 * 4 + byte c div 64) # b64_char (byte c mod 64) # base64_encode rest"

fun b64_groups :: "string \<Rightarrow> string option" where
  "b64_groups [] = Some []"
| "b64_groups (w # x # y # z # rest) =
     (case (b64_val w, b64_val x) of
        (Some p, Some q) \<Rightarrow>
          (if y = CHR ''='' then
             (if z = CHR ''='' \<and> rest = [] then Some [char_of (p * 4 + q div 16)] else None)
           else case b64_val y of
             None \<Rightarrow> None
           | Some r \<Rightarrow>
               (if z = CHR ''='' then
                  (if rest = [] then Some [char_of (p * 4 + q div 16), char_of (q mod 16 * 16 + r div 4)]
                   else None)
                else case b64_val z of
                  None \<Rightarrow> None
                | Some s \<Rightarrow>
                    map_option (\<lambda>t. char_of (p * 4 + q div 16) # char_of (q mod 16 * 16 + r div 4) #
                                    char_of (r mod 4 * 64 + s) # t) (b64_groups rest)))
      | _ \<Rightarrow> None)"
| "b64_groups _ = None"

definition base64_decode :: "string \<Rightarrow> string option" where
  "base64_decode s = b64_groups (filter (\<lambda>c. c \<noteq> CHR 0x0D \<and> c \<noteq> CHR 0x0A) s)"

lemma length_alphabet [simp]: "length b64_alphabet = 64"
  by (simp add: b64_alphabet_def)

lemma distinct_alphabet: "distinct b64_alphabet"
  by (simp add: b64_alphabet_def)

lemma index_of_nth: "distinct xs \<Longrightarrow> n < length xs \<Longrightarrow> index_of (xs ! n) xs = Some n"
proof (induction xs arbitrary: n)
  case (Cons x xs)
  then show ?case by (cases n) auto
qed simp

lemma b64_val_char [simp]: "n < 64 \<Longrightarrow> b64_val (b64_char n) = Some n"
  by (simp add: b64_val_def b64_char_def index_of_nth distinct_alphabet)

lemma b64_char_in: "n < 64 \<Longrightarrow> b64_char n \<in> set b64_alphabet"
  by (simp add: b64_char_def)

lemma alphabet_avoids:
  "c \<in> set b64_alphabet \<Longrightarrow> c \<notin> set [CHR ''='', CHR 0x0D, CHR 0x0A, CHR 0x22, CHR '','']"
proof -
  have "list_all (\<lambda>c. c \<notin> set [CHR ''='', CHR 0x0D, CHR 0x0A, CHR 0x22, CHR '','']) b64_alphabet"
    by (simp add: b64_alphabet_def)
  then show "c \<in> set b64_alphabet \<Longrightarrow> c \<notin> set [CHR ''='', CHR 0x0D, CHR 0x0A, CHR 0x22, CHR '','']"
    unfolding list_all_iff by blast
qed

lemma b64_char_avoids [simp]:
  assumes "n < 64"
  shows "b64_char n \<noteq> CHR ''=''" "b64_char n \<noteq> CHR 0x0D" "b64_char n \<noteq> CHR 0x0A"
    "b64_char n \<noteq> CHR 0x22" "b64_char n \<noteq> CHR '',''"
  using alphabet_avoids [OF b64_char_in [OF assms]] by auto

lemma six_bits [simp]:
  "byte a div 4 < 64" "byte a mod 4 * 16 < 64" "byte a mod 4 * 16 + byte b div 16 < 64"
  "byte b mod 16 * 4 < 64" "byte b mod 16 * 4 + byte c div 64 < 64"
proof -
  have "byte a < 256" "byte b < 256" "byte c < 256" by simp_all
  moreover have "byte a mod 4 < 4" "byte b mod 16 < 16" by simp_all
  ultimately show "byte a div 4 < 64" "byte a mod 4 * 16 < 64" "byte a mod 4 * 16 + byte b div 16 < 64"
    "byte b mod 16 * 4 < 64" "byte b mod 16 * 4 + byte c div 64 < 64"
    by linarith+
qed

lemma byte_quotients [simp]: "byte b div 16 < 16" "byte b div 64 < 4"
proof -
  have "byte b < 256" by simp
  then show "byte b div 16 < 16" "byte b div 64 < 4" by linarith+
qed

lemma b64_groups_encode: "b64_groups (base64_encode s) = Some s"
  by (induction s rule: base64_encode.induct) simp_all

lemma base64_encode_avoids:
  "c \<in> set (base64_encode s) \<Longrightarrow> c \<noteq> CHR 0x0D \<and> c \<noteq> CHR 0x0A \<and> c \<noteq> CHR 0x22 \<and> c \<noteq> CHR '',''"
  by (induction s rule: base64_encode.induct) auto

lemma base64_roundtrip: "base64_decode (base64_encode s) = Some s"
proof -
  have "filter (\<lambda>c. c \<noteq> CHR 0x0D \<and> c \<noteq> CHR 0x0A) (base64_encode s) = base64_encode s"
    by (rule filter_True) (use base64_encode_avoids in blast)
  then show ?thesis by (simp add: base64_decode_def b64_groups_encode)
qed

lemma base64_encode_nil [simp]: "base64_encode s = [] \<longleftrightarrow> s = []"
  by (cases s rule: base64_encode.cases) simp_all

lemma base64_encode_inject: "base64_encode s = base64_encode t \<longleftrightarrow> s = t"
  using b64_groups_encode by (metis option.inject)

end
