(* ===== verification/Httpsig.thy ===== *)
theory Httpsig
  imports Go_Http Go_Base64 "HOL-Library.Sublist"
begin

text \<open>
  Model of \<open>httpsig/httpsig.go\<close>: building the signing string, signing a request, parsing the
  Signature header and verifying it, and the local signer.  The request model always has
  a URL, so the nil-URL branch of \<open>SignRequest\<close> has no counterpart.  RSA, PEM and X.509 are
  the record \<open>cryptolib\<close>, SHA-256 is a field of \<open>golib\<close>, and the current date, formatted, is
  an argument.  The lemmas give the round trip of the Signature header, that a signed request
  verifies, that the signing string determines what it covers, and where the header can
  be rewritten by a signer's answer.
\<close>

section \<open>Types and parameters\<close>

definition quote :: char where "quote = CHR 0x22"
definition newline :: char where "newline = CHR 0x0A"

definition AlgorithmRSASHA256 :: string where "AlgorithmRSASHA256 = ''rsa-sha256''"

definition DefaultHeaders :: "string list" where
  "DefaultHeaders = [''(request-target)'', ''host'', ''date'', ''digest'', ''content-type'']"

definition RequiredHeaders :: "string list" where
  "RequiredHeaders = [''(request-target)'', ''host'', ''date'', ''digest'']"

record signature =
  sg_key_id :: string
  sg_algorithm :: string
  sg_bytes :: string

text \<open>A signer: the key asked for and the bytes to sign.\<close>

type_synonym signer = "string \<Rightarrow> string \<Rightarrow> signature result"

record cryptolib =
  rsa_sign :: "rsa_key \<Rightarrow> string \<Rightarrow> string result"
  rsa_verify :: "string \<Rightarrow> string \<Rightarrow> string \<Rightarrow> go_error option"
  pem_decode :: "string \<Rightarrow> (string \<times> string) option"
  parse_pkcs1 :: "string \<Rightarrow> rsa_key result"
  parse_pkcs8 :: "string \<Rightarrow> pem_key result"

section \<open>Signing\<close>

definition Digest :: "golib \<Rightarrow> string \<Rightarrow> string" where
  "Digest L body = ''SHA-256='' @ base64_encode (sha256 L body)"

definition requestTarget :: "golib \<Rightarrow> request \<Rightarrow> string" where
  "requestTarget L req = to_lower L (r_method req) @ '' '' @ u_request_uri (r_url req)"

text \<open>The value of one covered name, already in lower case.\<close>

definition covered_value :: "golib \<Rightarrow> request \<Rightarrow> string \<Rightarrow> string result" where
  "covered_value L req name =
     (if name = ''(request-target)'' then Inr (requestTarget L req)
      else if name = ''host'' then Inr (if r_host req = [] then u_host (r_url req) else r_host req)
      else let v = header_get (r_header req) name
           in if v = [] then Inl (Errorf ''httpsig: header %q is empty and cannot be signed'' [ArgS name])
              else Inr v)"

fun signing_loop :: "golib \<Rightarrow> request \<Rightarrow> nat \<Rightarrow> string \<Rightarrow> string list \<Rightarrow> string result" where
  "signing_loop L req i b [] = Inr b"
| "signing_loop L req i b (h # hs) =
     (let name = to_lower L h;
          b' = b @ (if 0 < i then [newline] else []) @ name @ '': ''
      in case covered_value L req name of
           Inl e \<Rightarrow> Inl e
         | Inr v \<Rightarrow> signing_loop L req (i + 1) (b' @ v) hs)"

definition SigningString :: "golib \<Rightarrow> request \<Rightarrow> string list \<Rightarrow> string result" where
  "SigningString L req headers =
     (if headers = [] then Inl (Errorf ''httpsig: no headers to sign'' [])
      else signing_loop L req 0 [] headers)"

definition keyIDLimit :: nat where "keyIDLimit = 512"

definition bad_key_byte :: "char \<Rightarrow> bool" where
  "bad_key_byte b \<longleftrightarrow> byte b < 32 \<or> byte b = 127 \<or> b = quote \<or> b = CHR 0x5C"

definition validateKeyID :: "string \<Rightarrow> go_error option" where
  "validateKeyID kid =
     (if kid = [] then Some (Errorf ''httpsig: signer returned no key id'' [])
      else if keyIDLimit < length kid
      then Some (Errorf ''httpsig: key id is %d bytes, over the %d limit'' [ArgI (int (length kid)), ArgI (int keyIDLimit)])
      else if list_ex bad_key_byte kid
      then Some (Errorf ''httpsig: key id %q contains a character that cannot appear in a Signature header'' [ArgS kid])
      else None)"

definition quoted_param :: "string \<Rightarrow> string \<Rightarrow> string" where
  "quoted_param k v = k @ [CHR ''='', quote] @ v @ [quote]"

definition signature_header :: "signature \<Rightarrow> string" where
  "signature_header sig =
     quoted_param ''keyId'' (sg_key_id sig) @ '','' @
     quoted_param ''algorithm''
       (if sg_algorithm sig = [] then AlgorithmRSASHA256 else sg_algorithm sig) @ '','' @
     quoted_param ''headers'' (str_join DefaultHeaders '' '') @ '','' @
     quoted_param ''signature'' (base64_encode (sg_bytes sig))"

definition prepare_request :: "golib \<Rightarrow> string \<Rightarrow> string \<Rightarrow> request \<Rightarrow> request" where
  "prepare_request L now body req =
     set_header ''Digest'' (Digest L body)
       (if header_get (r_header req) ''Date'' = [] then set_header ''Date'' now req else req)"

definition SignRequest ::
    "golib \<Rightarrow> string \<Rightarrow> request \<Rightarrow> string \<Rightarrow> string \<Rightarrow> signer option \<Rightarrow> request result" where
  "SignRequest L now req body keyID signer =
     (case signer of
        None \<Rightarrow> Inl (Errorf ''httpsig: no signer'' [])
      | Some sign \<Rightarrow>
          (let req1 = prepare_request L now body req
           in case SigningString L req1 DefaultHeaders of
                Inl e \<Rightarrow> Inl e
              | Inr signingString \<Rightarrow>
                  (case sign keyID signingString of
                     Inl e \<Rightarrow> Inl e
                   | Inr sig \<Rightarrow>
                       (case validateKeyID (sg_key_id sig) of
                          Some e \<Rightarrow> Inl e
                        | None \<Rightarrow> Inr (set_header ''Signature'' (signature_header sig) req1)))))"

section \<open>The local signer\<close>

record local_signer =
  ls_key_id :: string
  ls_key :: rsa_key

definition NewLocalSigner :: "string \<Rightarrow> rsa_key option \<Rightarrow> local_signer result" where
  "NewLocalSigner keyID key =
     (if keyID = [] then Inl (Errorf ''httpsig: key id is required'' [])
      else case key of
        None \<Rightarrow> Inl (Errorf ''httpsig: private key is required'' [])
      | Some k \<Rightarrow> Inr \<lparr>ls_key_id = keyID, ls_key = k\<rparr>)"

definition LocalSigner_Sign :: "golib \<Rightarrow> cryptolib \<Rightarrow> local_signer \<Rightarrow> signer" where
  "LocalSigner_Sign L C s keyID signingString =
     (if keyID \<noteq> [] \<and> keyID \<noteq> ls_key_id s
      then Inl (Wrapf ''%w: %s'' [ArgS keyID] (Sentinel ErrUnknownKey))
      else case rsa_sign C (ls_key s) (sha256 L signingString) of
        Inl e \<Rightarrow> Inl (Wrapf ''httpsig: sign: %w'' [] e)
      | Inr sig \<Rightarrow> Inr \<lparr>sg_key_id = ls_key_id s, sg_algorithm = AlgorithmRSASHA256, sg_bytes = sig\<rparr>)"

definition ParsePrivateKey :: "cryptolib \<Rightarrow> string \<Rightarrow> rsa_key result" where
  "ParsePrivateKey C pemBytes =
     (case pem_decode C pemBytes of
        None \<Rightarrow> Inl (Errorf ''httpsig: no PEM block found'' [])
      | Some (typ, bytes) \<Rightarrow>
          if typ = ''RSA PRIVATE KEY'' then
            (case parse_pkcs1 C bytes of
               Inl e \<Rightarrow> Inl (Wrapf ''httpsig: parse PKCS#1 key: %w'' [] e)
             | Inr k \<Rightarrow> Inr k)
          else if typ = ''PRIVATE KEY'' then
            (case parse_pkcs8 C bytes of
               Inl e \<Rightarrow> Inl (Wrapf ''httpsig: parse PKCS#8 key: %w'' [] e)
             | Inr (PemRSA k) \<Rightarrow> Inr k
             | Inr (PemOther t) \<Rightarrow> Inl (Errorf ''httpsig: PKCS#8 key is %T, want RSA'' [ArgS t]))
          else Inl (Errorf ''httpsig: unsupported PEM block %q'' [ArgS typ]))"

section \<open>Verification\<close>

record parsed_signature =
  ps_key_id :: string
  ps_algorithm :: string
  ps_headers :: "string list"
  ps_signature :: string

text \<open>\<open>splitParams\<close>: whether the scan is inside quotes, the part being built (reversed).\<close>

fun split_loop :: "bool \<Rightarrow> string \<Rightarrow> string \<Rightarrow> string list" where
  "split_loop inQuotes cur [] = (if cur = [] then [] else [rev cur])"
| "split_loop inQuotes cur (c # cs) =
     (if c = quote then split_loop (\<not> inQuotes) (c # cur) cs
      else if c = CHR '','' \<and> \<not> inQuotes then rev cur # split_loop inQuotes [] cs
      else split_loop inQuotes (c # cur) cs)"

definition splitParams :: "string \<Rightarrow> string list" where
  "splitParams v = split_loop False [] v"

definition parse_param :: "parsed_signature \<Rightarrow> string \<Rightarrow> parsed_signature" where
  "parse_param out part =
     (case str_cut part (CHR ''='') of
        None \<Rightarrow> out
      | Some (key, raw) \<Rightarrow>
          (let v = str_trim (trim_space raw) quote; k = trim_space key
           in if k = ''keyId'' then out\<lparr>ps_key_id := v\<rparr>
              else if k = ''algorithm'' then out\<lparr>ps_algorithm := v\<rparr>
              else if k = ''headers'' then out\<lparr>ps_headers := strings_fields v\<rparr>
              else if k = ''signature'' then out\<lparr>ps_signature := v\<rparr>
              else out))"

definition ParseSignatureHeader :: "string \<Rightarrow> parsed_signature result" where
  "ParseSignatureHeader v =
     (if v = [] then Inl (Errorf ''httpsig: no Signature header'' [])
      else let out = foldl parse_param
                       \<lparr>ps_key_id = [], ps_algorithm = [], ps_headers = [], ps_signature = []\<rparr>
                       (splitParams v)
           in if ps_key_id out = [] \<or> ps_signature out = []
              then Inl (Errorf ''httpsig: Signature header is missing keyId or signature'' [])
              else Inr (if ps_headers out = [] then out\<lparr>ps_headers := [''date'']\<rparr> else out))"

definition requireCoverage :: "golib \<Rightarrow> string list \<Rightarrow> go_error option" where
  "requireCoverage L covered =
     (let have' = map (to_lower L) covered
      in case find (\<lambda>want. want \<notin> set have') RequiredHeaders of
           Some want \<Rightarrow> Some (Errorf ''httpsig: signature does not cover %q'' [ArgS want])
         | None \<Rightarrow> None)"

definition Verify :: "golib \<Rightarrow> cryptolib \<Rightarrow> request \<Rightarrow> string \<Rightarrow> string \<Rightarrow> go_error option" where
  "Verify L C req body pub =
     (case ParseSignatureHeader (header_get (r_header req) ''Signature'') of
        Inl e \<Rightarrow> Some e
      | Inr parsed \<Rightarrow>
          (case requireCoverage L (ps_headers parsed) of
             Some e \<Rightarrow> Some e
           | None \<Rightarrow>
               (let got = header_get (r_header req) ''Digest''
                in if got \<noteq> Digest L body
                   then Some (Errorf ''httpsig: digest %q does not match the body'' [ArgS got])
                   else case SigningString L req (ps_headers parsed) of
                          Inl e \<Rightarrow> Some e
                        | Inr signingString \<Rightarrow>
                            (case base64_decode (ps_signature parsed) of
                               None \<Rightarrow> Some (Errorf ''httpsig: signature is not base64: %w'' [])
                             | Some sig \<Rightarrow> rsa_verify C pub (sha256 L signingString) sig))))"

section \<open>The signing string as lines\<close>

definition signing_line :: "golib \<Rightarrow> request \<Rightarrow> string \<Rightarrow> string" where
  "signing_line L req h = to_lower L h @ '': '' @ projr (covered_value L req (to_lower L h))"

lemma signing_loop_rest:
  "0 < i \<Longrightarrow> signing_loop L req i b hs = Inr s \<longleftrightarrow>
     list_all (\<lambda>h. \<not> isl (covered_value L req (to_lower L h))) hs \<and>
     s = b @ concat (map (\<lambda>h. newline # signing_line L req h) hs)"
proof (induction hs arbitrary: i b)
  case (Cons h hs)
  then show ?case
    by (cases "covered_value L req (to_lower L h)") (auto simp: Let_def signing_line_def)
qed auto

lemma str_join_lines: "str_join (x # xs) [sep] = x @ concat (map (\<lambda>y. sep # y) xs)"
  by (induction xs arbitrary: x) auto

lemma SigningString_lines:
  "SigningString L req hs = Inr s \<longleftrightarrow>
     hs \<noteq> [] \<and> list_all (\<lambda>h. \<not> isl (covered_value L req (to_lower L h))) hs \<and>
     s = str_join (map (signing_line L req) hs) [newline]"
proof (cases hs)
  case (Cons h hs')
  have j: "str_join (map (signing_line L req) hs) [newline] =
      signing_line L req h @ concat (map (\<lambda>h. newline # signing_line L req h) hs')"
    by (simp only: Cons list.map str_join_lines) (simp add: comp_def)
  show ?thesis unfolding j
    by (cases "covered_value L req (to_lower L h)")
      (auto simp: SigningString_def Let_def signing_loop_rest signing_line_def Cons)
qed (simp add: SigningString_def)

text \<open>Lines without the separator are determined by their join.\<close>

lemma sep_append_inject:
  assumes "sep \<notin> set a" "sep \<notin> set b" "a @ sep # r = b @ sep # t"
  shows "a = b \<and> r = t"
  using assms
proof (induction a arbitrary: b)
  case Nil
  then show ?case by (cases b) auto
next
  case (Cons x a)
  then show ?case by (cases b) auto
qed

lemma str_join_Cons: "xs \<noteq> [] \<Longrightarrow> str_join (x # xs) sep = x @ sep @ str_join xs sep"
  by (cases xs) simp_all

lemma str_join_inject:
  assumes "\<forall>l \<in> set xs \<union> set ys. sep \<notin> set l" "length xs = length ys"
    "str_join xs [sep] = str_join ys [sep]"
  shows "xs = ys"
  using assms
proof (induction xs arbitrary: ys)
  case (Cons x xs)
  then obtain y ys' where ys: "ys = y # ys'" by (cases ys) auto
  have sep: "sep \<notin> set x" "sep \<notin> set y" using Cons.prems(1) ys by auto
  show ?case
  proof (cases "xs = []")
    case True
    then show ?thesis using Cons.prems(2,3) ys by simp
  next
    case False
    then have "ys' \<noteq> []" using Cons.prems(2) ys by auto
    with False have "x @ sep # str_join xs [sep] = y @ sep # str_join ys' [sep]"
      using Cons.prems(3) ys by (simp add: str_join_Cons)
    from sep_append_inject [OF sep this] have "x = y" and j: "str_join xs [sep] = str_join ys' [sep]"
      by simp_all
    moreover have "xs = ys'" by (rule Cons.IH [OF _ _ j]) (use Cons.prems(1,2) ys in auto)
    ultimately show ?thesis using ys by simp
  qed
qed simp

text \<open>
  C17: The signing string binds what it covers: when two requests give the same signing string
  for the same list of covered names, and no covered value contains a newline (no HTTP header
  can), then every covered value is the same in both: request target, host, date, digest,
  whatever is listed.
\<close>
theorem signing_string_binds:
  assumes "SigningString L r1 hs = Inr s" and "SigningString L r2 hs = Inr s"
    and "list_all (\<lambda>h. newline \<notin> set (signing_line L r1 h) \<and> newline \<notin> set (signing_line L r2 h)) hs"
  shows "list_all (\<lambda>h. covered_value L r1 (to_lower L h) = covered_value L r2 (to_lower L h)) hs"
proof -
  have "map (signing_line L r1) hs = map (signing_line L r2) hs"
    using assms by (intro str_join_inject [of _ _ newline]) (auto simp: SigningString_lines list_all_iff)
  then have "projr (covered_value L r1 (to_lower L h)) = projr (covered_value L r2 (to_lower L h))"
    if "h \<in> set hs" for h using that by (auto simp: signing_line_def)
  moreover have "\<not> isl (covered_value L r1 (to_lower L h))" "\<not> isl (covered_value L r2 (to_lower L h))"
    if "h \<in> set hs" for h using assms(1,2) that by (auto simp: SigningString_lines list_all_iff)
  ultimately show ?thesis unfolding list_all_iff by (metis sum.collapse(2))
qed

section \<open>The Signature header\<close>

lemma split_loop_plain:
  "\<forall>c \<in> set p. c \<noteq> quote \<and> c \<noteq> CHR '','' \<Longrightarrow> split_loop False cur (p @ r) = split_loop False (rev p @ cur) r"
  by (induction p arbitrary: cur) auto

lemma split_loop_quoted:
  "quote \<notin> set v \<Longrightarrow> split_loop True cur (v @ r) = split_loop True (rev v @ cur) r"
  by (induction v arbitrary: cur) auto

definition plain_key :: "string \<Rightarrow> bool" where
  "plain_key k \<longleftrightarrow> k \<noteq> [] \<and> list_all (\<lambda>c. c \<noteq> quote \<and> c \<noteq> CHR '','' \<and> c \<noteq> CHR ''='' \<and> byte c < 128 \<and> \<not> ascii_space c) k"

lemma split_param:
  assumes "plain_key k" "quote \<notin> set v"
  shows "split_loop False [] (quoted_param k v @ r) = split_loop False (rev (quoted_param k v)) r"
proof -
  have "\<forall>c \<in> set (k @ ''=''). c \<noteq> quote \<and> c \<noteq> CHR '',''"
    using assms(1) by (auto simp: plain_key_def list_all_iff quote_def)
  from split_loop_plain [OF this, of "[]" "quote # v @ quote # r"] show ?thesis
    using assms(2) by (simp add: quoted_param_def split_loop_quoted)
qed

lemma splitParams_last:
  "plain_key k \<Longrightarrow> quote \<notin> set v \<Longrightarrow> splitParams (quoted_param k v) = [quoted_param k v]"
  using split_param [of k v "[]"] by (simp add: splitParams_def quoted_param_def)

lemma splitParams_comma:
  "plain_key k \<Longrightarrow> quote \<notin> set v \<Longrightarrow>
     splitParams (quoted_param k v @ '','' @ r) = quoted_param k v # splitParams r"
  using split_param [of k v "CHR '','' # r"] by (simp add: splitParams_def quote_def)

lemma trim_left_id: "s \<noteq> [] \<Longrightarrow> byte (hd s) < 128 \<Longrightarrow> \<not> ascii_space (hd s) \<Longrightarrow> trim_left s = s"
  by (subst trim_left.simps) (cases s; simp add: space_width_def)

lemma trim_right_id: "s \<noteq> [] \<Longrightarrow> byte (last s) < 128 \<Longrightarrow> \<not> ascii_space (last s) \<Longrightarrow> trim_right s = s"
  by (subst trim_right.simps, cases s rule: rev_cases) (simp_all add: space_suffix_width_def)

lemma trim_space_id:
  "s \<noteq> [] \<Longrightarrow> byte (hd s) < 128 \<Longrightarrow> \<not> ascii_space (hd s) \<Longrightarrow> byte (last s) < 128 \<Longrightarrow>
     \<not> ascii_space (last s) \<Longrightarrow> trim_space s = s"
  by (simp add: trim_space_def trim_left_id trim_right_id)

lemma str_cut_key: "sep \<notin> set k \<Longrightarrow> str_cut (k @ sep # v) sep = Some (k, v)"
  by (induction k) auto

lemma dropWhile_absent: "q \<notin> set v \<Longrightarrow> dropWhile (\<lambda>x. x = q) (v @ r) = (if v = [] then dropWhile (\<lambda>x. x = q) r else v @ r)"
  by (cases v) auto

lemma str_trim_quoted: "q \<notin> set v \<Longrightarrow> str_trim (q # v @ [q]) q = v"
  using dropWhile_absent [of q v "[q]"] dropWhile_absent [of q "rev v" "[]"]
  by (cases "v = []") (simp_all add: str_trim_def)

lemma parse_param_quoted:
  assumes "plain_key k" "quote \<notin> set v"
  shows "parse_param out (quoted_param k v) =
     (if k = ''keyId'' then out\<lparr>ps_key_id := v\<rparr>
      else if k = ''algorithm'' then out\<lparr>ps_algorithm := v\<rparr>
      else if k = ''headers'' then out\<lparr>ps_headers := strings_fields v\<rparr>
      else if k = ''signature'' then out\<lparr>ps_signature := v\<rparr>
      else out)"
proof -
  have "str_cut (quoted_param k v) (CHR ''='') = Some (k, quote # v @ [quote])"
    using assms(1) str_cut_key [of "CHR ''=''" k] by (auto simp: quoted_param_def plain_key_def list_all_iff)
  moreover have "trim_space k = k"
    using assms(1) by (intro trim_space_id) (auto simp: plain_key_def list_all_iff)
  moreover have "trim_space (quote # v @ [quote]) = quote # v @ [quote]"
    by (rule trim_space_id) (simp_all add: quote_def ascii_space_def)
  ultimately show ?thesis using assms(2) by (simp add: parse_param_def str_trim_quoted Let_def)
qed

lemma plain_keys [simp]:
  "plain_key ''keyId''" "plain_key ''algorithm''" "plain_key ''headers''" "plain_key ''signature''"
  by (simp_all add: plain_key_def quote_def ascii_space_def)

definition plain_word :: "string \<Rightarrow> bool" where
  "plain_word w \<longleftrightarrow> w \<noteq> [] \<and> list_all (\<lambda>c. byte c < 128 \<and> \<not> ascii_space c) w"

lemma str_fields_word:
  "list_all (\<lambda>c. byte c < 128 \<and> \<not> ascii_space c) w \<Longrightarrow> str_fields cur (w @ r) = str_fields (rev w @ cur) r"
proof (induction w arbitrary: cur)
  case (Cons c w)
  then show ?case by (subst str_fields.simps) (simp add: space_width_def)
qed simp

lemma str_fields_space: "cur \<noteq> [] \<Longrightarrow> str_fields cur (CHR '' '' # r) = rev cur # str_fields [] r"
  by (subst str_fields.simps) (simp add: space_width_def ascii_space_def)

lemma fields_join_words: "list_all plain_word ws \<Longrightarrow> strings_fields (str_join ws '' '') = ws"
proof -
  have nil: "str_fields cur [] = (if cur = [] then [] else [rev cur])" for cur
    by (subst str_fields.simps) simp
  show "list_all plain_word ws \<Longrightarrow> strings_fields (str_join ws '' '') = ws"
    unfolding strings_fields_def
  proof (induction ws rule: induct_list012)
    case (2 w)
    then show ?case using str_fields_word [of w "[]" "[]"] by (simp add: plain_word_def nil)
  next
    case (3 w v ws)
    then show ?case by (simp add: plain_word_def str_fields_word str_fields_space)
  qed (simp add: nil)
qed

lemma default_headers_join:
  "strings_fields (str_join DefaultHeaders '' '') = DefaultHeaders"
  "quote \<notin> set (str_join DefaultHeaders '' '')"
  by (rule fields_join_words) (simp_all add: DefaultHeaders_def plain_word_def ascii_space_def quote_def)

lemma validateKeyID_none: "validateKeyID k = None \<Longrightarrow> k \<noteq> [] \<and> quote \<notin> set k"
  by (auto simp: validateKeyID_def list_ex_iff bad_key_byte_def split: if_splits)

lemma base64_no_quote: "quote \<notin> set (base64_encode s)"
  using base64_encode_avoids [of quote s] by (auto simp: quote_def)

lemma parse_signature_header:
  assumes "validateKeyID (sg_key_id sig) = None" and "quote \<notin> set (sg_algorithm sig)" and "sg_bytes sig \<noteq> []"
  shows "ParseSignatureHeader (signature_header sig) =
     Inr \<lparr>ps_key_id = sg_key_id sig,
          ps_algorithm = (if sg_algorithm sig = [] then AlgorithmRSASHA256 else sg_algorithm sig),
          ps_headers = DefaultHeaders, ps_signature = base64_encode (sg_bytes sig)\<rparr>"
proof -
  let ?alg = "if sg_algorithm sig = [] then AlgorithmRSASHA256 else sg_algorithm sig"
  note k = validateKeyID_none [OF assms(1)]
  have alg: "quote \<notin> set ?alg" using assms(2) by (simp add: AlgorithmRSASHA256_def quote_def)
  have sp: "splitParams (signature_header sig) =
      [quoted_param ''keyId'' (sg_key_id sig), quoted_param ''algorithm'' ?alg,
       quoted_param ''headers'' (str_join DefaultHeaders '' ''),
       quoted_param ''signature'' (base64_encode (sg_bytes sig))]"
    unfolding signature_header_def using k alg
    by (simp only: splitParams_comma splitParams_last plain_keys default_headers_join base64_no_quote
        not_False_eq_True simp_thms)
  have ne: "signature_header sig \<noteq> []" by (simp add: signature_header_def quoted_param_def)
  have "DefaultHeaders \<noteq> []" by (simp add: DefaultHeaders_def)
  then show ?thesis unfolding ParseSignatureHeader_def sp
    using ne k alg assms(3)
    by (simp add: parse_param_quoted default_headers_join base64_no_quote Let_def)
qed

lemma parse_signature_header_empty:
  assumes "quote \<notin> set (sg_key_id sig)" "quote \<notin> set (sg_algorithm sig)" "sg_bytes sig = []"
  shows "isl (ParseSignatureHeader (signature_header sig))"
proof -
  let ?alg = "if sg_algorithm sig = [] then AlgorithmRSASHA256 else sg_algorithm sig"
  have alg: "quote \<notin> set ?alg" using assms(2) by (simp add: AlgorithmRSASHA256_def quote_def)
  have sp: "splitParams (signature_header sig) =
      [quoted_param ''keyId'' (sg_key_id sig), quoted_param ''algorithm'' ?alg,
       quoted_param ''headers'' (str_join DefaultHeaders '' ''), quoted_param ''signature'' []]"
    unfolding signature_header_def assms(3) base64_encode.simps using assms(1) alg
    by (simp only: splitParams_comma splitParams_last plain_keys default_headers_join
        not_False_eq_True simp_thms list.set empty_iff)
  show ?thesis unfolding ParseSignatureHeader_def sp
    using assms(1) alg by (simp add: parse_param_quoted default_headers_join Let_def)
qed

text \<open>
  C18: The Signature header round-trips: for a key id that passes validation (it may hold
  commas, spaces and equal signs) and an algorithm name without a double quote, parsing the
  header that \<open>SignRequest\<close> writes gives back the key id, the algorithm, the covered header
  list and the signature bytes.
\<close>
theorem signature_header_roundtrip:
  assumes "validateKeyID (sg_key_id sig) = None" and "quote \<notin> set (sg_algorithm sig)" and "sg_bytes sig \<noteq> []"
  shows "\<exists>p. ParseSignatureHeader (signature_header sig) = Inr p \<and> ps_key_id p = sg_key_id sig \<and>
    ps_headers p = DefaultHeaders \<and> base64_decode (ps_signature p) = Some (sg_bytes sig) \<and>
    ps_algorithm p = (if sg_algorithm sig = [] then AlgorithmRSASHA256 else sg_algorithm sig)"
  using parse_signature_header [OF assms] base64_roundtrip by simp

section \<open>Signed requests\<close>

lemma canonical_distinct [simp]:
  "canonical_key ''Signature'' \<noteq> canonical_key ''date''" "canonical_key ''Signature'' \<noteq> canonical_key ''digest''"
  "canonical_key ''Signature'' \<noteq> canonical_key ''content-type''" "canonical_key ''Signature'' \<noteq> canonical_key ''Digest''"
  "canonical_key ''Signature'' \<noteq> canonical_key ''Date''" "canonical_key ''Signature'' \<noteq> canonical_key ''Content-Type''"
  by code_simp+

lemma to_lower_default: "h \<in> set DefaultHeaders \<Longrightarrow> to_lower L h = h"
proof -
  have "list_all (\<lambda>h. is_ascii h \<and> map lower_byte h = h) DefaultHeaders" by code_simp
  then show "h \<in> set DefaultHeaders \<Longrightarrow> to_lower L h = h" by (auto simp: list_all_iff to_lower_def)
qed

lemma signing_string_signature:
  "SigningString L (set_header ''Signature'' v req) DefaultHeaders = SigningString L req DefaultHeaders"
proof -
  have "list_all (\<lambda>h. covered_value L (set_header ''Signature'' v req) h = covered_value L req h) DefaultHeaders"
    by (simp add: DefaultHeaders_def covered_value_def requestTarget_def header_simps)
  then have cv: "covered_value L (set_header ''Signature'' v req) h = covered_value L req h"
    if "h \<in> set DefaultHeaders" for h using that by (simp add: list_all_iff)
  have "signing_loop L (set_header ''Signature'' v req) i b hs = signing_loop L req i b hs"
    if "set hs \<subseteq> set DefaultHeaders" for i b hs
    using that
  proof (induction hs arbitrary: i b)
    case (Cons h hs)
    then have h: "h \<in> set DefaultHeaders" "set hs \<subseteq> set DefaultHeaders" by simp_all
    show ?case
      by (cases "covered_value L req h") (simp_all add: Let_def to_lower_default [OF h(1)] cv [OF h(1)] Cons.IH [OF h(2)])
  qed simp
  then show ?thesis by (simp add: SigningString_def)
qed

lemma requireCoverage_default: "requireCoverage L DefaultHeaders = None"
proof -
  have "map (to_lower L) DefaultHeaders = DefaultHeaders" by (simp add: map_idI to_lower_default)
  then show ?thesis by (simp add: requireCoverage_def Let_def RequiredHeaders_def DefaultHeaders_def)
qed

lemma SignRequest_Inr:
  "SignRequest L now req body keyID signer = Inr req' \<longleftrightarrow>
     (\<exists>sign ss sig. signer = Some sign \<and>
        SigningString L (prepare_request L now body req) DefaultHeaders = Inr ss \<and>
        sign keyID ss = Inr sig \<and> validateKeyID (sg_key_id sig) = None \<and>
        req' = set_header ''Signature'' (signature_header sig) (prepare_request L now body req))"
  by (auto simp: SignRequest_def Let_def split: option.splits sum.splits)

lemma prepare_digest: "header_get (r_header (prepare_request L now body req)) ''Digest'' = Digest L body"
  by (simp add: prepare_request_def header_simps)

text \<open>What a verifier accepts from a signer whose algorithm name cannot close its quotes.\<close>

lemma SignRequest_Verify:
  assumes "SignRequest L now req body keyID (Some sign) = Inr req'"
    and "\<And>ss sig. sign keyID ss = Inr sig \<Longrightarrow>
       quote \<notin> set (sg_algorithm sig) \<and> sg_bytes sig \<noteq> [] \<and> rsa_verify C pub (sha256 L ss) (sg_bytes sig) = None"
  shows "Verify L C req' body pub = None"
proof -
  obtain ss sig where ss: "SigningString L (prepare_request L now body req) DefaultHeaders = Inr ss"
    and sig: "sign keyID ss = Inr sig" "validateKeyID (sg_key_id sig) = None"
    and req': "req' = set_header ''Signature'' (signature_header sig) (prepare_request L now body req)"
    using assms(1) by (auto simp: SignRequest_Inr)
  note law = assms(2) [OF sig(1)]
  note p = parse_signature_header [OF sig(2)]
  have "header_get (r_header req') ''Signature'' = signature_header sig"
    "header_get (r_header req') ''Digest'' = Digest L body"
    by (simp_all add: req' header_simps prepare_digest)
  then show ?thesis
    using p law ss by (simp add: Verify_def requireCoverage_default req' signing_string_signature base64_roundtrip Let_def)
qed

text \<open>
  A request signed with a local key verifies: for a key pair whose signatures verify (and
  are not empty), every request \<open>SignRequest\<close> accepts is accepted by \<open>Verify\<close> with the public key
  and the same body, with the Signature header parsed back and the digest recomputed.
\<close>
theorem signed_request_verifies:
  assumes rsa: "\<And>h s. rsa_sign C key h = Inr s \<Longrightarrow> s \<noteq> [] \<and> rsa_verify C pub h s = None"
    and signed: "SignRequest L now req body keyID
      (Some (LocalSigner_Sign L C \<lparr>ls_key_id = kid, ls_key = key\<rparr>)) = Inr req'"
  shows "Verify L C req' body pub = None"
proof (rule SignRequest_Verify [OF signed])
  fix ss sig assume "LocalSigner_Sign L C \<lparr>ls_key_id = kid, ls_key = key\<rparr> keyID ss = Inr sig"
  then obtain b where "rsa_sign C key (sha256 L ss) = Inr b" "sg_bytes sig = b"
    "sg_algorithm sig = AlgorithmRSASHA256"
    by (auto simp: LocalSigner_Sign_def split: if_splits sum.splits)
  then show "quote \<notin> set (sg_algorithm sig) \<and> sg_bytes sig \<noteq> [] \<and> rsa_verify C pub (sha256 L ss) (sg_bytes sig) = None"
    using rsa by (simp add: AlgorithmRSASHA256_def quote_def)
qed

text \<open>
  C16: What \<open>Verify\<close> accepts is complete: the signature covers the request target, the host, the
  date and the digest, the digest is the one of the body at hand, and the RSA check passed on
  the signing string of exactly the covered names.
\<close>
theorem verify_requires_coverage:
  assumes "Verify L C req body pub = None"
  shows "\<exists>p ss sig. ParseSignatureHeader (header_get (r_header req) ''Signature'') = Inr p \<and>
    set RequiredHeaders \<subseteq> set (map (to_lower L) (ps_headers p)) \<and>
    header_get (r_header req) ''Digest'' = Digest L body \<and>
    SigningString L req (ps_headers p) = Inr ss \<and>
    base64_decode (ps_signature p) = Some sig \<and> rsa_verify C pub (sha256 L ss) sig = None"
  using assms
  by (auto simp: Verify_def Let_def requireCoverage_def find_None_iff
      split: sum.splits option.splits if_splits)

section \<open>Signers\<close>

text \<open>What a signer owes its caller: a key asked for by name is the key used.  With an
  algorithm name that cannot close its quotes, the header then names that key.\<close>

locale key_honouring =
  fixes sign :: signer
  assumes honours: "sign k m = Inr sig \<Longrightarrow> k \<noteq> [] \<Longrightarrow> sg_key_id sig = k"

locale quoted_signer = key_honouring +
  assumes clean: "sign k m = Inr sig \<Longrightarrow> quote \<notin> set (sg_algorithm sig)"
begin

lemma signed_names_key:
  assumes "SignRequest L now req body k (Some sign) = Inr req'" and "k \<noteq> []"
    and "ParseSignatureHeader (header_get (r_header req') ''Signature'') = Inr p"
  shows "ps_key_id p = k"
proof -
  obtain ss sig where sig: "sign k ss = Inr sig" "validateKeyID (sg_key_id sig) = None"
    and req': "req' = set_header ''Signature'' (signature_header sig) (prepare_request L now body req)"
    using assms(1) by (auto simp: SignRequest_Inr)
  have h: "header_get (r_header req') ''Signature'' = signature_header sig"
    by (simp add: req' header_simps)
  have "sg_bytes sig \<noteq> []"
    using parse_signature_header_empty [of sig] validateKeyID_none [OF sig(2)] clean [OF sig(1)] assms(3) h
    by auto
  then show ?thesis
    using parse_signature_header [OF sig(2) clean [OF sig(1)]] h assms(3) honours [OF sig(1) assms(2)] by auto
qed

end

interpretation local_signer: quoted_signer "LocalSigner_Sign L C s" for L C s
  by unfold_locales
    (auto simp: LocalSigner_Sign_def AlgorithmRSASHA256_def quote_def split: if_splits sum.splits)

section \<open>An algorithm name that rewrites the header\<close>

definition rewriting_algorithm :: "string \<Rightarrow> string" where
  "rewriting_algorithm other =
     ''rsa-sha256'' @ [quote] @ '',keyId='' @ [quote] @ other"

lemma rewriting_header:
  "signature_header \<lparr>sg_key_id = kid, sg_algorithm = rewriting_algorithm other, sg_bytes = b\<rparr> =
     quoted_param ''keyId'' kid @ '','' @ quoted_param ''algorithm'' ''rsa-sha256'' @ '','' @
     quoted_param ''keyId'' other @ '','' @ quoted_param ''headers'' (str_join DefaultHeaders '' '') @ '','' @
     quoted_param ''signature'' (base64_encode b)"
  by (simp add: signature_header_def rewriting_algorithm_def quoted_param_def)

text \<open>
  C39: The algorithm name a signer returns goes into the quoted header unchecked, unlike the key
  id.  A signer that answers with a valid key id and an algorithm name holding a double quote
  gets \<open>SignRequest\<close> to send a header whose key id, as a receiver parses it, is another one of
  the signer's choosing.
\<close>
theorem algorithm_rewrites_key_id:
  assumes "SignRequest L now req body k
      (Some (\<lambda>_ _. Inr \<lparr>sg_key_id = kid, sg_algorithm = rewriting_algorithm other, sg_bytes = b\<rparr>)) = Inr req'"
    and "other \<noteq> []" and "quote \<notin> set other" and "b \<noteq> []"
  shows "\<exists>p. ParseSignatureHeader (header_get (r_header req') ''Signature'') = Inr p \<and> ps_key_id p = other"
proof -
  let ?sig = "\<lparr>sg_key_id = kid, sg_algorithm = rewriting_algorithm other, sg_bytes = b\<rparr>"
  have kid: "quote \<notin> set kid" and h: "header_get (r_header req') ''Signature'' = signature_header ?sig"
    using assms(1) validateKeyID_none by (auto simp: SignRequest_Inr header_simps)
  have q: "quote \<notin> set ''rsa-sha256''" by (simp add: quote_def)
  have sp: "splitParams (signature_header ?sig) =
      [quoted_param ''keyId'' kid, quoted_param ''algorithm'' ''rsa-sha256'', quoted_param ''keyId'' other,
       quoted_param ''headers'' (str_join DefaultHeaders '' ''), quoted_param ''signature'' (base64_encode b)]"
    unfolding rewriting_header using kid assms(3) q
    by (simp only: splitParams_comma splitParams_last plain_keys default_headers_join base64_no_quote
        not_False_eq_True simp_thms)
  have ne: "signature_header ?sig \<noteq> []" by (simp add: signature_header_def quoted_param_def)
  show ?thesis unfolding h ParseSignatureHeader_def sp
    using ne assms(2-4) kid q
    by (simp add: parse_param_quoted default_headers_join base64_no_quote Let_def)
qed

section \<open>Concrete instances\<close>

definition sample_crypto :: cryptolib where
  "sample_crypto =
     \<lparr>rsa_sign = (\<lambda>k h. Inr (CHR ''s'' # h)),
      rsa_verify = (\<lambda>pub h s. if s = CHR ''s'' # h then None else Some (Errorf ''crypto/rsa: verification error'' [])),
      pem_decode = (\<lambda>_. None), parse_pkcs1 = (\<lambda>_. Inr (RSAKey [])), parse_pkcs8 = (\<lambda>_. Inr (PemRSA (RSAKey [])))\<rparr>"

definition sample_golib :: golib where
  "sample_golib =
     \<lparr>uni_lower = id, uni_fold = (=), sha256 = (\<lambda>s. s), hmac_sha256 = (\<lambda>k m. k @ m),
      url_parse = (\<lambda>u. Inr \<lparr>u_scheme = ''https'', u_host = ''remote.example'', u_request_uri = ''/inbox''\<rparr>),
      parse_time = (\<lambda>_. None), json_valid = (\<lambda>_. True), json_error_field = (\<lambda>_. None)\<rparr>"

definition sample_post :: request where
  "sample_post =
     set_header ''Content-Type'' ''application/activity+json''
       \<lparr>r_method = ''POST'',
        r_url = \<lparr>u_scheme = ''https'', u_host = ''remote.example'', u_request_uri = ''/inbox''\<rparr>,
        r_host = [], r_header = Map.empty\<rparr>"

definition sample_sig :: signature where
  "sample_sig = \<lparr>sg_key_id = ''https://a.example/u#main-key'', sg_algorithm = [], sg_bytes = ''s''\<rparr>"

theorem signing_string_binds_witness:
  "covered_value sample_golib sample_post ''host'' =
   covered_value sample_golib (sample_post\<lparr>r_method := ''PUT'', r_host := ''remote.example''\<rparr>) ''host''"
proof -
  let ?r = "sample_post\<lparr>r_method := ''PUT'', r_host := ''remote.example''\<rparr>" and ?hs = "[''host'', ''content-type'']"
  have "SigningString sample_golib sample_post ?hs = SigningString sample_golib ?r ?hs"
    "\<not> isl (SigningString sample_golib sample_post ?hs)"
    by code_simp+
  then obtain s where s: "SigningString sample_golib sample_post ?hs = Inr s" "SigningString sample_golib ?r ?hs = Inr s"
    using not_isl_Inr by metis
  have "list_all (\<lambda>h. newline \<notin> set (signing_line sample_golib sample_post h) \<and>
      newline \<notin> set (signing_line sample_golib ?r h)) ?hs"
    by code_simp
  moreover have "to_lower sample_golib ''host'' = ''host''" by code_simp
  ultimately show ?thesis using signing_string_binds [OF s] by simp
qed

theorem signature_header_roundtrip_witness:
  "\<exists>p. ParseSignatureHeader (signature_header sample_sig) = Inr p \<and> ps_key_id p = ''https://a.example/u#main-key''"
proof -
  have "validateKeyID (sg_key_id sample_sig) = None" "quote \<notin> set (sg_algorithm sample_sig)" "sg_bytes sample_sig \<noteq> []"
    by code_simp+
  from signature_header_roundtrip [OF this] show ?thesis by (auto simp: sample_sig_def)
qed

lemma sample_signed:
  "\<exists>req'. SignRequest sample_golib ''Tue, 01 Jan 2030 00:00:00 GMT'' sample_post ''{}'' []
     (Some (LocalSigner_Sign sample_golib sample_crypto \<lparr>ls_key_id = ''k'', ls_key = RSAKey ''x''\<rparr>)) = Inr req'"
proof -
  have "\<not> isl (SignRequest sample_golib ''Tue, 01 Jan 2030 00:00:00 GMT'' sample_post ''{}'' []
     (Some (LocalSigner_Sign sample_golib sample_crypto \<lparr>ls_key_id = ''k'', ls_key = RSAKey ''x''\<rparr>)))"
    by code_simp
  then show ?thesis by (rule not_isl_Inr)
qed

theorem signed_request_verifies_witness:
  "\<exists>req'. SignRequest sample_golib ''Tue, 01 Jan 2030 00:00:00 GMT'' sample_post ''{}'' []
     (Some (LocalSigner_Sign sample_golib sample_crypto \<lparr>ls_key_id = ''k'', ls_key = RSAKey ''x''\<rparr>)) = Inr req' \<and>
     Verify sample_golib sample_crypto req' ''{}'' ''pub'' = None"
proof -
  obtain req' where r: "SignRequest sample_golib ''Tue, 01 Jan 2030 00:00:00 GMT'' sample_post ''{}'' []
     (Some (LocalSigner_Sign sample_golib sample_crypto \<lparr>ls_key_id = ''k'', ls_key = RSAKey ''x''\<rparr>)) = Inr req'"
    using sample_signed by blast
  have law: "s \<noteq> [] \<and> rsa_verify sample_crypto ''pub'' h s = None"
    if "rsa_sign sample_crypto (RSAKey ''x'') h = Inr s" for h s
    using that by (auto simp: sample_crypto_def)
  show ?thesis using r signed_request_verifies [OF law r] by blast
qed

theorem verify_requires_coverage_witness:
  "\<exists>(req' :: request) p. ParseSignatureHeader (header_get (r_header req') ''Signature'') = Inr p \<and>
     set RequiredHeaders \<subseteq> set (map (to_lower sample_golib) (ps_headers p))"
proof -
  obtain req' where r: "SignRequest sample_golib ''Tue, 01 Jan 2030 00:00:00 GMT'' sample_post ''{}'' []
     (Some (LocalSigner_Sign sample_golib sample_crypto \<lparr>ls_key_id = ''k'', ls_key = RSAKey ''x''\<rparr>)) = Inr req'"
    using sample_signed by blast
  have "Verify sample_golib sample_crypto req' ''{}'' ''pub'' = None"
    using SignRequest_Verify [OF r, of sample_crypto "''pub''"]
    by (auto simp: LocalSigner_Sign_def sample_crypto_def AlgorithmRSASHA256_def quote_def split: if_splits sum.splits)
  from verify_requires_coverage [OF this] show ?thesis by blast
qed

theorem algorithm_rewrites_key_id_witness:
  "\<exists>req' p. SignRequest sample_golib ''now'' sample_post ''{}'' ''k''
      (Some (\<lambda>_ _. Inr \<lparr>sg_key_id = ''k'', sg_algorithm = rewriting_algorithm ''other'', sg_bytes = ''s''\<rparr>)) = Inr req' \<and>
     ParseSignatureHeader (header_get (r_header req') ''Signature'') = Inr p \<and> ps_key_id p = ''other''"
proof -
  let ?s = "\<lambda>_ _. Inr \<lparr>sg_key_id = ''k'', sg_algorithm = rewriting_algorithm ''other'', sg_bytes = ''s''\<rparr>"
  have "\<not> isl (SignRequest sample_golib ''now'' sample_post ''{}'' ''k'' (Some ?s))" by code_simp
  then obtain req' where r: "SignRequest sample_golib ''now'' sample_post ''{}'' ''k'' (Some ?s) = Inr req'"
    using not_isl_Inr by blast
  have "quote \<notin> set ''other''" by (simp add: quote_def)
  from algorithm_rewrites_key_id [OF r _ this] show ?thesis using r by simp
qed

end
