(* ===== verification/Apdeliver.thy ===== *)
theory Apdeliver
  imports Httpexec Httpsig
begin

text \<open>
  Model of \<open>executor/apdeliver\<close>: the delivery executor of \<open>apdeliver.go\<close>, the configured signers of
  \<open>signer.go\<close> (a key file, a directory of keys with its cache) and the remote signer of
  \<open>remote.go\<close>.  The file system is the record \<open>filesys\<close>, JSON is an argument, and the cache of
  the directory signer is passed and returned.  An execution lists every address it connects to,
  those of the signer it asks first.
\<close>

section \<open>The executor: types\<close>

text \<open>A signer as the executor uses it: what \<open>Sign\<close> answers, and the addresses it connected to on
  the way.  Signers that hold their keys connect to none.\<close>

type_synonym net_signer = "string \<Rightarrow> string \<Rightarrow> signature result \<times> string list"

definition answers :: "net_signer \<Rightarrow> signer" where "answers sg k m = fst (sg k m)"

definition offline :: "signer \<Rightarrow> net_signer" where "offline sg k m = (sg k m, [])"

definition ap_defaultTimeout :: duration where "ap_defaultTimeout = 30000000000"
definition defaultContentType :: string where "defaultContentType = ''application/activity+json''"
definition ap_failedReasonLimit :: nat where "ap_failedReasonLimit = 1024"

record ap_payload =
  pl_inbox :: string
  pl_key_id :: string
  pl_activity :: string
  pl_body :: string
  pl_content_type :: string
  pl_headers :: "(string \<times> string) list"

record ap_options =
  ao_signer :: "net_signer option"
  ao_timeout :: duration
  ao_user_agent :: string
  ao_max_response_bytes :: go_int
  ao_allow_private :: bool

record ap_executor =
  ax_signer :: net_signer
  ax_client :: http_client
  ax_timeout :: duration
  ax_user_agent :: string
  ax_max_bytes :: int
  ax_content_type :: string

definition ap_New :: "ap_options \<Rightarrow> ap_executor result" where
  "ap_New opts =
     (case ao_signer opts of
        None \<Rightarrow> Inl (Errorf ''apdeliver: a signer is required'' [])
      | Some sg \<Rightarrow>
          Inr \<lparr>ax_signer = sg, ax_client = NewClient (ao_allow_private opts),
               ax_timeout = (if sint (ao_timeout opts) \<le> 0 then ap_defaultTimeout else ao_timeout opts),
               ax_user_agent = (if ao_user_agent opts = [] then UserAgent else ao_user_agent opts),
               ax_max_bytes = (if sint (ao_max_response_bytes opts) \<le> 0 then DefaultMaxResponseBytes
                               else sint (ao_max_response_bytes opts)),
               ax_content_type = defaultContentType\<rparr>)"

section \<open>The executor: operations\<close>

definition ap_permanent :: "string \<Rightarrow> fmt_arg list \<Rightarrow> go_error" where
  "ap_permanent fmt args = Wrapf (''apdeliver: %w: '' @ fmt) args (Sentinel ErrUnrecoverable)"

definition ap_isTokenByte :: "char \<Rightarrow> bool" where
  "ap_isTokenByte b \<longleftrightarrow>
     97 \<le> byte b \<and> byte b \<le> 122 \<or> 65 \<le> byte b \<and> byte b \<le> 90 \<or> 48 \<le> byte b \<and> byte b \<le> 57 \<or>
     b \<in> set (''!#$%&'' @ [CHR 0x27] @ ''*+-.^_'' @ [CHR 0x60] @ ''|~'')"

definition ap_validHeaderName :: "string \<Rightarrow> bool" where
  "ap_validHeaderName s \<longleftrightarrow> s \<noteq> [] \<and> list_all ap_isTokenByte s"

definition ap_validHeaderValue :: "string \<Rightarrow> bool" where
  "ap_validHeaderValue s \<longleftrightarrow> list_all (\<lambda>b. \<not> (byte b < 32 \<and> byte b \<noteq> 9 \<or> byte b = 127)) s"

definition isSignedOrReserved :: "golib \<Rightarrow> string \<Rightarrow> bool" where
  "isSignedOrReserved L name \<longleftrightarrow>
     to_lower L name \<in> set [''host'', ''date'', ''digest'', ''signature'', ''content-type'', ''content-length'',
       ''user-agent'', ''accept'']"

definition ap_detail :: "string \<Rightarrow> string" where
  "ap_detail payload =
     (let trimmed = trim_space payload
      in if trimmed = [] then ''(empty response body)'' else Truncate trimmed ap_failedReasonLimit)"

definition apdeliver_classify :: "int \<Rightarrow> outcome" where
  "apdeliver_classify status =
     (if 200 \<le> status \<and> status < 300 then outcomeSuccess
      else if status = 401 \<or> status = 408 \<or> status = 429 then outcomeRetry
      else if 300 \<le> status \<and> status < 500 then outcomePermanent
      else outcomeRetry)"

definition checkInbox :: "golib \<Rightarrow> string \<Rightarrow> go_error option" where
  "checkInbox L raw =
     (if raw = [] then Some (Errorf ''inbox is required'' [])
      else case url_parse L raw of
        Inl e \<Rightarrow> Some (Errorf ''inbox %q is not parseable: %v'' [ArgS raw, ArgE e])
      | Inr u \<Rightarrow>
          if u_scheme u \<noteq> ''http'' \<and> u_scheme u \<noteq> ''https''
          then Some (Errorf ''inbox %q must use http or https'' [ArgS raw])
          else if u_host u = [] then Some (Errorf ''inbox %q has no host'' [ArgS raw])
          else None)"

definition resolveBody :: "ap_payload \<Rightarrow> string \<Rightarrow> (string \<times> string) result" where
  "resolveBody p dflt =
     (let contentType = (if pl_content_type p = [] then dflt else pl_content_type p);
          activity = trim_space (pl_activity p);
          hasActivity = (activity \<noteq> [])
      in if hasActivity \<and> pl_body p \<noteq> [] then Inl (Errorf ([quote] @ ''activity'' @ [quote] @ '' and '' @ [quote] @ ''body'' @ [quote] @ '' are exclusive'') [])
         else if hasActivity \<and> hd activity \<noteq> CHR ''{'' then Inl (Errorf ([quote] @ ''activity'' @ [quote] @ '' must be a JSON object'') [])
         else if hasActivity then Inr (activity, contentType)
         else if pl_body p \<noteq> [] then Inr (pl_body p, contentType)
         else Inl (Errorf (''one of '' @ [quote] @ ''activity'' @ [quote] @ '' or '' @ [quote] @ ''body'' @ [quote] @ '' is required'') []))"

fun add_payload_headers :: "golib \<Rightarrow> string \<Rightarrow> request \<Rightarrow> (string \<times> string) list \<Rightarrow> request result" where
  "add_payload_headers L jid req [] = Inr req"
| "add_payload_headers L jid req ((k, v) # hs) =
     (if isSignedOrReserved L k then add_payload_headers L jid req hs
      else if \<not> ap_validHeaderName k \<or> \<not> ap_validHeaderValue v
      then Inl (ap_permanent ''job %s: invalid header %q'' [ArgS jid, ArgS k])
      else add_payload_headers L jid (set_header k v req) hs)"

text \<open>The first half of \<open>Execute\<close>: from the payload to the unsigned request and its body.\<close>

definition delivery_request ::
    "exec_env \<Rightarrow> (string \<Rightarrow> ap_payload result) \<Rightarrow> ap_executor \<Rightarrow> job \<Rightarrow> (ap_payload \<times> request \<times> string) result" where
  "delivery_request E unmarshal ex j =
     (case unmarshal (j_data j) of
        Inl e \<Rightarrow> Inl (ap_permanent ''job %s: payload is not a delivery payload: %v'' [ArgS (j_id j), ArgE e])
      | Inr p \<Rightarrow>
          (case resolveBody p (ax_content_type ex) of
             Inl e \<Rightarrow> Inl (ap_permanent ''job %s: %v'' [ArgS (j_id j), ArgE e])
           | Inr (body, contentType) \<Rightarrow>
               if \<not> ap_validHeaderValue contentType
               then Inl (ap_permanent ''job %s: invalid contentType'' [ArgS (j_id j)])
               else case checkInbox (ee_lib E) (pl_inbox p) of
                 Some e \<Rightarrow> Inl (ap_permanent ''job %s: %v'' [ArgS (j_id j), ArgE e])
               | None \<Rightarrow>
                   (case new_post_request (ee_lib E) (pl_inbox p) of
                      Inl e \<Rightarrow> Inl (ap_permanent ''job %s: build request: %v'' [ArgS (j_id j), ArgE e])
                    | Inr req0 \<Rightarrow>
                        (case add_payload_headers (ee_lib E) (j_id j) req0 (pl_headers p) of
                           Inl e \<Rightarrow> Inl e
                         | Inr req1 \<Rightarrow>
                             Inr (p,
                               set_header ''Accept'' ''application/activity+json, application/ld+json''
                               (set_header ''User-Agent'' (ax_user_agent ex)
                               (set_header ''Content-Type'' contentType req1)), body)))))"

text \<open>The switch at the end of \<open>Execute\<close>; a delivered activity has a nil return value.\<close>

definition ap_settle :: "golib \<Rightarrow> int \<Rightarrow> string \<Rightarrow> response \<Rightarrow> string \<Rightarrow> string option result \<times> log_line list" where
  "ap_settle L now inbox resp payload =
     (case apdeliver_classify (status_code resp) of
        outcomeSuccess \<Rightarrow> (Inr None, [])
      | outcomePermanent \<Rightarrow>
          (Inl (ap_permanent ''POST %s: %s: %s'' [ArgS inbox, ArgS (status_text resp), ArgS (ap_detail payload)]), [])
      | outcomeRetry \<Rightarrow>
          (case retry_later L now (resp_header resp)
                  (Errorf ''apdeliver: POST %s: %s: %s'' [ArgS inbox, ArgS (status_text resp), ArgS (ap_detail payload)]) of
             (err, lg) \<Rightarrow> (Inl err, lg)))"

text \<open>\<open>SignRequest\<close> with the addresses its signer connected to; the signer is asked once, when there
  is a signing string.\<close>

definition sign_delivery ::
    "golib \<Rightarrow> string \<Rightarrow> request \<Rightarrow> string \<Rightarrow> string \<Rightarrow> net_signer \<Rightarrow> request result \<times> string list" where
  "sign_delivery L date req body keyID sg =
     (SignRequest L date req body keyID (Some (answers sg)),
      case SigningString L (prepare_request L date body req) DefaultHeaders of
        Inl e \<Rightarrow> []
      | Inr signingString \<Rightarrow> snd (sg keyID signingString))"

definition ap_Execute ::
    "exec_env \<Rightarrow> string \<Rightarrow> (string \<Rightarrow> ap_payload result) \<Rightarrow> ap_executor \<Rightarrow> job \<Rightarrow> string option execution" where
  "ap_Execute E date unmarshal ex j =
     (case delivery_request E unmarshal ex j of
        Inl e \<Rightarrow> (Inl e, [], [])
      | Inr (p, req, body) \<Rightarrow>
          (case sign_delivery (ee_lib E) date req body (pl_key_id p) (ax_signer ex) of
             (Inl e, asked) \<Rightarrow>
               (Inl (if errors_is e ErrUnknownKey then ap_permanent ''job %s: %v'' [ArgS (j_id j), ArgE e]
                     else Wrapf ''apdeliver: job %s: sign: %w'' [ArgS (j_id j)] e), asked, [])
           | (Inr sreq, asked) \<Rightarrow>
               (case client_do (ee_net E) (ax_client ex) sreq body of
                  (Inl e, tried) \<Rightarrow>
                    (Inl (if errors_is e ErrBlocked
                          then ap_permanent ''job %s: %s is not reachable: %v'' [ArgS (j_id j), ArgS (pl_inbox p), ArgE e]
                          else Wrapf ''apdeliver: POST %s: %w'' [ArgS (pl_inbox p)] e), asked @ tried, [])
                | (Inr resp, tried) \<Rightarrow>
                    (case fst (ReadBody resp (ax_max_bytes ex)) of
                       Inl e \<Rightarrow>
                         (Inl (Wrapf ''apdeliver: POST %s: read response: %w'' [ArgS (pl_inbox p)] e), asked @ tried, [])
                     | Inr payload \<Rightarrow>
                         (case ap_settle (ee_lib E) (ee_now E) (pl_inbox p) resp payload of
                            (r, lg) \<Rightarrow> (r, asked @ tried, lg))))))"

section \<open>Configured signers\<close>

record signer_config =
  si_type :: string
  si_key_id :: string
  si_private_key_path :: string
  si_path :: string
  si_url :: string
  si_secret :: string
  si_timeout :: duration
  si_allow_private :: "bool option"

record file_info =
  fi_mod_time :: int
  fi_size :: int
  fi_is_dir :: bool

record filesys =
  fs_stat :: "string \<Rightarrow> file_info result"
  fs_read :: "string \<Rightarrow> string result"
  fs_join :: "string \<Rightarrow> string \<Rightarrow> string"

definition newFileSigner :: "cryptolib \<Rightarrow> filesys \<Rightarrow> signer_config \<Rightarrow> local_signer result" where
  "newFileSigner C F cfg =
     (if si_key_id cfg = [] then Inl (Errorf ''signer.key_id is required for a file signer'' [])
      else if si_private_key_path cfg = [] then Inl (Errorf ''signer.private_key_path is required for a file signer'' [])
      else case fs_read F (si_private_key_path cfg) of
        Inl e \<Rightarrow> Inl (Wrapf ''read %s: %w'' [ArgS (si_private_key_path cfg)] e)
      | Inr pem \<Rightarrow>
          (case ParsePrivateKey C pem of
             Inl e \<Rightarrow> Inl (Wrapf ''%s: %w'' [ArgS (si_private_key_path cfg)] e)
           | Inr key \<Rightarrow> NewLocalSigner (si_key_id cfg) (Some key)))"

definition KeyFileName :: "golib \<Rightarrow> string \<Rightarrow> string" where
  "KeyFileName L keyID = hex_encode (sha256 L keyID) @ ''.pem''"

record cached_key =
  ck_key :: rsa_key
  ck_mod_time :: int
  ck_size :: int

record dir_signer =
  ds_dir :: string
  ds_cached :: "string \<rightharpoonup> cached_key"

definition newDirSigner :: "filesys \<Rightarrow> signer_config \<Rightarrow> dir_signer result" where
  "newDirSigner F cfg =
     (if si_path cfg = [] then Inl (Errorf ''signer.path is required for a dir signer'' [])
      else case fs_stat F (si_path cfg) of
        Inl e \<Rightarrow> Inl (Wrapf ''stat %s: %w'' [ArgS (si_path cfg)] e)
      | Inr info \<Rightarrow>
          if \<not> fi_is_dir info then Inl (Errorf ''%s is not a directory'' [ArgS (si_path cfg)])
          else Inr \<lparr>ds_dir = si_path cfg, ds_cached = Map.empty\<rparr>)"

text \<open>\<open>load\<close>: the key, and the cache afterwards.\<close>

definition dirSigner_load :: "golib \<Rightarrow> cryptolib \<Rightarrow> filesys \<Rightarrow> dir_signer \<Rightarrow> string \<Rightarrow> rsa_key result \<times> dir_signer" where
  "dirSigner_load L C F d keyID =
     (let path = fs_join F (ds_dir d) (KeyFileName L keyID);
          unknown = Wrapf ''%w: %s (expected %s)'' [ArgS keyID, ArgS path] (Sentinel ErrUnknownKey)
      in case fs_stat F path of
           Inl e \<Rightarrow>
             (Inl (if errors_is e ErrNotExist then unknown else Wrapf ''apdeliver: stat %s: %w'' [ArgS path] e), d)
         | Inr info \<Rightarrow>
             (case (case ds_cached d keyID of
                      Some hit \<Rightarrow> if ck_mod_time hit = fi_mod_time info \<and> ck_size hit = fi_size info
                                  then Some (ck_key hit) else None
                    | None \<Rightarrow> None) of
                Some key \<Rightarrow> (Inr key, d)
              | None \<Rightarrow>
                  (case fs_read F path of
                     Inl e \<Rightarrow>
                       (Inl (if errors_is e ErrNotExist then unknown else Wrapf ''apdeliver: read %s: %w'' [ArgS path] e), d)
                   | Inr pem \<Rightarrow>
                       (case ParsePrivateKey C pem of
                          Inl e \<Rightarrow> (Inl (Wrapf ''apdeliver: %s: %w'' [ArgS path] e), d)
                        | Inr key \<Rightarrow>
                            (Inr key,
                             d\<lparr>ds_cached := (ds_cached d)(keyID \<mapsto>
                                 \<lparr>ck_key = key, ck_mod_time = fi_mod_time info, ck_size = fi_size info\<rparr>)\<rparr>)))))"

definition dirSigner_Sign ::
    "golib \<Rightarrow> cryptolib \<Rightarrow> filesys \<Rightarrow> dir_signer \<Rightarrow> string \<Rightarrow> string \<Rightarrow> signature result \<times> dir_signer" where
  "dirSigner_Sign L C F d keyID signingString =
     (if keyID = [] then (Inl (Wrapf ''%w: a dir signer has no default key'' [] (Sentinel ErrUnknownKey)), d)
      else case dirSigner_load L C F d keyID of
        (Inl e, d') \<Rightarrow> (Inl e, d')
      | (Inr key, d') \<Rightarrow>
          (case NewLocalSigner keyID (Some key) of
             Inl e \<Rightarrow> (Inl e, d')
           | Inr loc \<Rightarrow> (LocalSigner_Sign L C loc keyID signingString, d')))"

section \<open>The remote signer\<close>

definition defaultRemoteTimeout :: duration where "defaultRemoteTimeout = 5000000000"

record remote_signer =
  rs_url :: string
  rs_secret :: string
  rs_timeout :: duration
  rs_client :: http_client
  rs_user_agent :: string

record remote_request =
  rq_key_id :: string
  rq_signing_string :: string
  rq_algorithm :: string

record remote_response =
  rr_key_id :: string
  rr_algorithm :: string
  rr_signature :: string

definition newRemoteSigner :: "golib \<Rightarrow> signer_config \<Rightarrow> remote_signer result" where
  "newRemoteSigner L cfg =
     (if si_url cfg = [] then Inl (Errorf ''signer.url is required for a remote signer'' [])
      else case url_parse L (si_url cfg) of
        Inl e \<Rightarrow> Inl (Errorf ''signer.url %q is not parseable: %v'' [ArgS (si_url cfg), ArgE e])
      | Inr u \<Rightarrow>
          if u_scheme u \<noteq> ''http'' \<and> u_scheme u \<noteq> ''https''
          then Inl (Errorf ''signer.url %q must use http or https'' [ArgS (si_url cfg)])
          else if u_host u = [] then Inl (Errorf ''signer.url %q has no host'' [ArgS (si_url cfg)])
          else Inr \<lparr>rs_url = si_url cfg, rs_secret = si_secret cfg,
                    rs_timeout = (if sint (si_timeout cfg) \<le> 0 then defaultRemoteTimeout else si_timeout cfg),
                    rs_client = NewClient (case si_allow_private cfg of None \<Rightarrow> True | Some b \<Rightarrow> b),
                    rs_user_agent = UserAgent\<rparr>)"

definition isNoSuchKey :: "response \<Rightarrow> bool" where
  "isNoSuchKey resp \<longleftrightarrow>
     (if status_code resp = 410 then True
      else if status_code resp \<noteq> 404 then False
      else str_contains (header_get (resp_header resp) ''Content-Type'') ''json'')"

text \<open>What \<open>Sign\<close> makes of a decoded answer.\<close>

definition remote_signature :: "remote_signer \<Rightarrow> string \<Rightarrow> remote_response \<Rightarrow> signature result" where
  "remote_signature r keyID out =
     (case base64_decode (rr_signature out) of
        None \<Rightarrow> Inl (Errorf ''apdeliver: sign via %s: signature is not base64: %w'' [ArgS (rs_url r)])
      | Some sig \<Rightarrow>
          if sig = [] then Inl (Errorf ''apdeliver: sign via %s: empty signature'' [ArgS (rs_url r)])
          else if keyID \<noteq> [] \<and> rr_key_id out \<noteq> [] \<and> rr_key_id out \<noteq> keyID
          then Inl (Errorf ''apdeliver: sign via %s: asked for key %q but the response used %q''
                      [ArgS (rs_url r), ArgS keyID, ArgS (rr_key_id out)])
          else (let resolved = (if rr_key_id out = [] then keyID else rr_key_id out)
                in if resolved = [] then Inl (Errorf ''apdeliver: sign via %s: response has no key id'' [ArgS (rs_url r)])
                   else Inr \<lparr>sg_key_id = resolved,
                             sg_algorithm = (if rr_algorithm out = [] then AlgorithmRSASHA256 else rr_algorithm out),
                             sg_bytes = sig\<rparr>))"

definition sign_request :: "exec_env \<Rightarrow> remote_signer \<Rightarrow> string \<Rightarrow> request \<Rightarrow> request" where
  "sign_request E r body req0 =
     (let req1 = set_header HeaderTimestamp (format_int (sint (ee_unix E)))
            (set_header ''User-Agent'' (rs_user_agent r) (set_header ''Content-Type'' ''application/json'' req0))
      in if rs_secret r \<noteq> [] then set_header HeaderSignature (SignHMAC (ee_lib E) (rs_secret r) (ee_unix E) body) req1
         else req1)"

text \<open>What \<open>Sign\<close> makes of the answer of the endpoint.\<close>

definition remote_answer ::
    "(string \<Rightarrow> remote_response result) \<Rightarrow> remote_signer \<Rightarrow> string \<Rightarrow> response result \<Rightarrow> signature result" where
  "remote_answer unmarshal r keyID res =
     (case res of
        Inl e \<Rightarrow>
          Inl (if errors_is e ErrBlocked then ap_permanent ''sign via %s: %v'' [ArgS (rs_url r), ArgE e]
               else Wrapf ''apdeliver: sign via %s: %w'' [ArgS (rs_url r)] e)
      | Inr resp \<Rightarrow>
          if isNoSuchKey resp
          then Inl (Wrapf ''%w: %s said it has no key %q'' [ArgS (rs_url r), ArgS keyID] (Sentinel ErrUnknownKey))
          else case fst (ReadBody resp DefaultMaxResponseBytes) of
            Inl e \<Rightarrow> Inl (Wrapf ''apdeliver: sign via %s: read response: %w'' [ArgS (rs_url r)] e)
          | Inr payload \<Rightarrow>
              if status_code resp < 200 \<or> 300 \<le> status_code resp
              then Inl (Errorf ''apdeliver: sign via %s: %s: %s''
                          [ArgS (rs_url r), ArgS (status_text resp), ArgS (ap_detail payload)])
              else (case unmarshal payload of
                      Inl e \<Rightarrow> Inl (Wrapf ''apdeliver: sign via %s: response is not JSON: %w'' [ArgS (rs_url r)] e)
                    | Inr out \<Rightarrow> remote_signature r keyID out))"

definition remoteSigner_Sign ::
    "exec_env \<Rightarrow> (remote_request \<Rightarrow> string result) \<Rightarrow> (string \<Rightarrow> remote_response result) \<Rightarrow> remote_signer \<Rightarrow> net_signer" where
  "remoteSigner_Sign E marshal unmarshal r keyID signingString =
     (case marshal \<lparr>rq_key_id = keyID, rq_signing_string = base64_encode signingString, rq_algorithm = AlgorithmRSASHA256\<rparr> of
        Inl e \<Rightarrow> (Inl (Wrapf ''apdeliver: encode sign request: %w'' [] e), [])
      | Inr body \<Rightarrow>
          (case new_post_request (ee_lib E) (rs_url r) of
             Inl e \<Rightarrow> (Inl (Wrapf ''apdeliver: build sign request: %w'' [] e), [])
           | Inr req0 \<Rightarrow>
               apfst (remote_answer unmarshal r keyID) (client_do (ee_net E) (rs_client r) (sign_request E r body req0) body)))"

section \<open>Building the executor from configuration\<close>

datatype built_signer = FileSigner local_signer | DirSigner dir_signer | RemoteSigner remote_signer

definition BuildSigner :: "golib \<Rightarrow> cryptolib \<Rightarrow> filesys \<Rightarrow> signer_config \<Rightarrow> built_signer result" where
  "BuildSigner L C F cfg =
     (if si_type cfg = ''file'' then map_sum id FileSigner (newFileSigner C F cfg)
      else if si_type cfg = ''dir'' then map_sum id DirSigner (newDirSigner F cfg)
      else if si_type cfg = ''remote'' then map_sum id RemoteSigner (newRemoteSigner L cfg)
      else if si_type cfg = [] then Inl (Errorf ''signer.type is required (file, dir or remote)'' [])
      else Inl (Errorf ''unknown signer type %q (known: file, dir, remote)'' [ArgS (si_type cfg)]))"

record ap_config =
  ac_timeout :: duration
  ac_user_agent :: string
  ac_max_response_bytes :: go_int
  ac_allow_private :: bool
  ac_signer :: signer_config

definition zero_ap_config :: ap_config where
  "zero_ap_config = \<lparr>ac_timeout = 0, ac_user_agent = [], ac_max_response_bytes = 0, ac_allow_private = False,
     ac_signer = \<lparr>si_type = [], si_key_id = [], si_private_key_path = [], si_path = [], si_url = [], si_secret = [],
                  si_timeout = 0, si_allow_private = None\<rparr>\<rparr>"

text \<open>The \<open>Sign\<close> method of the signer that was built.\<close>

fun built_Sign ::
    "exec_env \<Rightarrow> cryptolib \<Rightarrow> filesys \<Rightarrow> (remote_request \<Rightarrow> string result) \<Rightarrow> (string \<Rightarrow> remote_response result) \<Rightarrow>
     built_signer \<Rightarrow> net_signer" where
  "built_Sign E C F marshal unmarshal (FileSigner s) = offline (LocalSigner_Sign (ee_lib E) C s)"
| "built_Sign E C F marshal unmarshal (DirSigner d) = offline (\<lambda>k m. fst (dirSigner_Sign (ee_lib E) C F d k m))"
| "built_Sign E C F marshal unmarshal (RemoteSigner r) = remoteSigner_Sign E marshal unmarshal r"

text \<open>\<open>newExecutor\<close>: \<open>run\<close> is the \<open>Sign\<close> method of the signer built.\<close>

definition newExecutor ::
    "golib \<Rightarrow> cryptolib \<Rightarrow> filesys \<Rightarrow> yaml_lib \<Rightarrow> (string \<Rightarrow> ap_config decoded) \<Rightarrow> (built_signer \<Rightarrow> net_signer) \<Rightarrow>
     executor_config \<Rightarrow> ap_executor result \<times> log_line list" where
  "newExecutor L C F Y decode run raw =
     (case DecodeStrict Y decode zero_ap_config raw of
        Inl e \<Rightarrow> (Inl e, [])
      | Inr cfg \<Rightarrow>
          (case BuildSigner L C F (ac_signer cfg) of
             Inl e \<Rightarrow> (Inl (Wrapf ''executor activitypub_deliver: %w'' [] e), [])
           | Inr sg \<Rightarrow>
               (ap_New \<lparr>ao_signer = Some (run sg), ao_timeout = ac_timeout cfg, ao_user_agent = ac_user_agent cfg,
                        ao_max_response_bytes = ac_max_response_bytes cfg, ao_allow_private = ac_allow_private cfg\<rparr>,
                if si_type (ac_signer cfg) = ''remote'' \<and> si_secret (ac_signer cfg) = []
                then [(LogWarn, ''remote signer has no secret; anything that can reach the endpoint can have arbitrary bytes signed'')]
                else [])))"

section \<open>The contract of the delivery executor\<close>

lemma ap_permanent_props: "errors_is (ap_permanent f as) ErrUnrecoverable" "errors_as_retry (ap_permanent f as) = None"
  by (simp_all add: ap_permanent_def)

interpretation ap_delivery: delivery
  "\<lambda>r. apdeliver_classify (status_code r)" "\<lambda>_. False" "\<lambda>r p. fst (ap_settle L now inbox r p)" L now
  for L now inbox
proof unfold_locales
  fix r :: response and p
  assume "apdeliver_classify (status_code r) = outcomeRetry"
  then show "\<exists>err. errors_as_retry err = None \<and> \<not> errors_is err ErrUnrecoverable \<and>
      fst (ap_settle L now inbox r p) = Inl (fst (retry_later L now (resp_header r) err))"
    by (intro exI [of _ "Errorf ''apdeliver: POST %s: %s: %s'' [ArgS inbox, ArgS (status_text r), ArgS (ap_detail p)]"])
      (simp add: ap_settle_def split: prod.splits)
qed (auto simp: apdeliver_classify_def ap_settle_def ap_permanent_props split: if_splits)

text \<open>A retryable failure after which the queue waits for the \<open>v\<close> seconds asked for, at most an hour.\<close>

definition waits_as_asked :: "string \<Rightarrow> backoff_context \<Rightarrow> 'v result \<Rightarrow> bool" where
  "waits_as_asked v bc res \<longleftrightarrow>
     (\<exists>e. res = Inl e \<and> \<not> errors_is e ErrUnrecoverable \<and>
        fst (retryDelay (bc\<lparr>bc_err := Some e\<rparr>)) = Some (word_of_int (min (int (dec_val 0 v)) 3600 * nano_second)))"

text \<open>
  Both delivery executors obey a peer that throttles: on 408, 429 or a 5xx whose Retry-After
  is a positive decimal, however long, the job fails retryably and the delay the queue uses is the
  number asked for, capped at an hour.  The \<open>http\<close> executor does so unless the endpoint said
  \<open>X-Mkqd-Retry: no\<close>.
\<close>
theorem throttled_delivery_waits:
  fixes r :: response
  assumes "500 \<le> status_code r \<or> status_code r = 429 \<or> status_code r = 408"
    and "header_get (resp_header r) ''Retry-After'' = v" and "list_all is_digit v" and "0 < dec_val 0 v"
  shows "waits_as_asked v bc (fst (ap_settle L now inbox r p)) \<and>
    (\<not> equal_fold L (header_get (resp_header r) HeaderRetry) ''no'' \<longrightarrow>
       waits_as_asked v bc (fst (http_settle L now target r p)))"
  unfolding waits_as_asked_def
  using ap_delivery.throttled_waits [OF _ assms(1-4)] http_delivery.throttled_waits [OF _ assms(1-4)] by blast

lemma retry_later_retryable: "\<not> errors_is (fst (retry_later L now h (Errorf f as))) ErrUnrecoverable"
  by (auto simp: retry_later_def Let_def RetryAfter_def split: option.splits)

text \<open>
  What an inbox answers decides the job: it is done exactly on a 2xx; a redirect or a 4xx
  other than 401, 408 and 429 fails it for good; everything else (401, 408, 429, 5xx and
  statuses outside the usual range) leaves it to be retried.
\<close>
theorem inbox_answer_decides:
  "if 200 \<le> status_code r \<and> status_code r < 300 then fst (ap_settle L now inbox r p) = Inr None
   else if status_code r \<notin> {401, 408, 429} \<and> 300 \<le> status_code r \<and> status_code r < 500
   then (\<exists>e. fst (ap_settle L now inbox r p) = Inl e \<and> errors_is e ErrUnrecoverable)
   else (\<exists>e. fst (ap_settle L now inbox r p) = Inl e \<and> \<not> errors_is e ErrUnrecoverable)"
  using retry_later_retryable
  by (auto simp: ap_settle_def apdeliver_classify_def ap_permanent_props split: prod.splits)
   (metis fst_conv)+

section \<open>The request that is delivered\<close>

lemma add_payload_headers_keeps:
  assumes "add_payload_headers L jid req hs = Inr req'"
  shows "r_method req' = r_method req \<and> r_url req' = r_url req \<and> r_host req' = r_host req"
  using assms by (induction L jid req hs rule: add_payload_headers.induct) (auto simp: header_simps split: if_splits)

lemma add_payload_headers_protected:
  assumes "list_all is_token_byte h" and "map lower_byte h \<in> set [''host'', ''date'', ''digest'', ''signature'',
      ''content-type'', ''content-length'', ''user-agent'', ''accept'']"
    and "add_payload_headers L jid req hs = Inr req'"
  shows "header_get (r_header req') h = header_get (r_header req) h"
  using assms(3)
proof (induction L jid req hs rule: add_payload_headers.induct)
  case (2 L jid req k v hs)
  have "isSignedOrReserved L k" if "canonical_key k = canonical_key h"
  proof -
    have "list_all is_token_byte k" "map lower_byte k = map lower_byte h"
      using canonical_collision [OF that assms(1)] by blast+
    then show ?thesis unfolding isSignedOrReserved_def to_lower_token [OF \<open>list_all is_token_byte k\<close>]
      using assms(2) by (simp only:)
  qed
  then show ?case using 2 by (auto simp: header_simps split: if_splits)
qed simp

lemma canonical_delivery:
  "canonical_key ''Accept'' = ''Accept''" "canonical_key ''User-Agent'' = ''User-Agent''"
  "canonical_key ''Content-Type'' = ''Content-Type''" "canonical_key ''content-type'' = ''Content-Type''"
  "canonical_key ''Date'' = ''Date''" "canonical_key ''date'' = ''Date''"
  "canonical_key ''Digest'' = ''Digest''" "canonical_key ''digest'' = ''Digest''"
  "canonical_key ''Signature'' = ''Signature''"
  by code_simp+

lemma delivery_request_Inr:
  assumes "delivery_request E unmarshal ex j = Inr (p, req, body)"
  obtains ct u req1 where
    "unmarshal (j_data j) = Inr p" "resolveBody p (ax_content_type ex) = Inr (body, ct)" "ap_validHeaderValue ct"
    "checkInbox (ee_lib E) (pl_inbox p) = None" "url_parse (ee_lib E) (pl_inbox p) = Inr u"
    "add_payload_headers (ee_lib E) (j_id j) \<lparr>r_method = ''POST'', r_url = u\<lparr>u_host := remove_empty_port (u_host u)\<rparr>,
       r_host = remove_empty_port (u_host u), r_header = Map.empty\<rparr> (pl_headers p) = Inr req1"
    "req = set_header ''Accept'' ''application/activity+json, application/ld+json''
       (set_header ''User-Agent'' (ax_user_agent ex) (set_header ''Content-Type'' ct req1))"
  using assms
  by (auto simp: delivery_request_def new_post_request_def Let_def split: sum.splits option.splits if_splits)

lemma delivery_request_headers:
  assumes "delivery_request E unmarshal ex j = Inr (p, req, body)"
  shows "header_get (r_header req) ''Date'' = [] \<and> header_get (r_header req) ''Signature'' = [] \<and>
    header_get (r_header req) ''Content-Type'' =
      (if pl_content_type p = [] then ax_content_type ex else pl_content_type p) \<and>
    header_get (r_header req) ''User-Agent'' = ax_user_agent ex"
  using assms
proof (rule delivery_request_Inr)
  fix ct u req1
  assume body: "resolveBody p (ax_content_type ex) = Inr (body, ct)"
    and add: "add_payload_headers (ee_lib E) (j_id j) \<lparr>r_method = ''POST'', r_url = u\<lparr>u_host := remove_empty_port (u_host u)\<rparr>,
       r_host = remove_empty_port (u_host u), r_header = Map.empty\<rparr> (pl_headers p) = Inr req1"
    and req: "req = set_header ''Accept'' ''application/activity+json, application/ld+json''
       (set_header ''User-Agent'' (ax_user_agent ex) (set_header ''Content-Type'' ct req1))"
  have tok: "list_all is_token_byte ''Date'' \<and> map lower_byte ''Date'' = ''date''"
    "list_all is_token_byte ''Signature'' \<and> map lower_byte ''Signature'' = ''signature''" by code_simp+
  have "header_get (r_header req1) ''Date'' = []" "header_get (r_header req1) ''Signature'' = []"
    using add_payload_headers_protected [OF _ _ add, of "''Date''"] add_payload_headers_protected [OF _ _ add, of "''Signature''"] tok
    by simp_all
  moreover have "ct = (if pl_content_type p = [] then ax_content_type ex else pl_content_type p)"
    using body by (auto simp: resolveBody_def Let_def split: if_splits)
  ultimately show ?thesis by (simp add: req header_simps canonical_delivery)
qed

lemma header_get_content_type: "header_get h ''content-type'' = header_get h ''Content-Type''"
  by (simp add: header_get_def canonical_delivery)

text \<open>Every covered value of a delivery is present, so building the signing string cannot fail.\<close>

lemma delivery_signing_string:
  assumes "delivery_request E unmarshal ex j = Inr (p, req, body)" and "date \<noteq> []" and "ax_content_type ex \<noteq> []"
  shows "\<exists>ss. SigningString (ee_lib E) (prepare_request (ee_lib E) date body req) DefaultHeaders = Inr ss"
proof -
  have "list_all (\<lambda>h. \<not> isl (covered_value (ee_lib E) (prepare_request (ee_lib E) date body req) h)) DefaultHeaders"
    using delivery_request_headers [OF assms(1)] assms(2,3)
    by (simp add: DefaultHeaders_def covered_value_def prepare_request_def header_simps canonical_delivery Digest_def
        header_get_content_type Let_def split: if_splits)
  then show ?thesis using to_lower_default [of _ "ee_lib E"]
    by (auto simp: SigningString_lines list_all_iff) (simp add: DefaultHeaders_def)
qed

text \<open>
  C5: A delivery that passes the payload checks is signed and verifies.  With a local key whose
  signatures verify and a payload that asks for that key or for none, signing succeeds, and the
  receiver's check with the public key accepts the request with the body that was resolved.  The
  request names the date, the digest of that body and the content type chosen by the
  executor's rules, whatever headers the payload adds under whatever spelling.
\<close>
theorem signed_delivery_verifies:
  assumes rsa: "\<And>h. \<exists>s. rsa_sign C key h = Inr s \<and> s \<noteq> [] \<and> rsa_verify C pub h s = None"
    and "delivery_request E unmarshal ex j = Inr (p, req, body)"
    and "ax_content_type ex \<noteq> []" and "date \<noteq> []"
    and "validateKeyID kid = None" and "pl_key_id p \<in> {[], kid}"
  shows "\<exists>req'. SignRequest (ee_lib E) date req body (pl_key_id p)
      (Some (LocalSigner_Sign (ee_lib E) C \<lparr>ls_key_id = kid, ls_key = key\<rparr>)) = Inr req' \<and>
    Verify (ee_lib E) C req' body pub = None \<and>
    header_get (r_header req') ''Date'' = date \<and> header_get (r_header req') ''Digest'' = Digest (ee_lib E) body \<and>
    header_get (r_header req') ''Content-Type'' =
      (if pl_content_type p = [] then ax_content_type ex else pl_content_type p)"
proof -
  let ?L = "ee_lib E" and ?prep = "prepare_request (ee_lib E) date body req"
  let ?sign = "LocalSigner_Sign ?L C \<lparr>ls_key_id = kid, ls_key = key\<rparr>"
  obtain ss where ss: "SigningString ?L ?prep DefaultHeaders = Inr ss"
    using delivery_signing_string [OF assms(2,4,3)] by blast
  obtain b where b: "rsa_sign C key (sha256 ?L ss) = Inr b" using rsa by blast
  let ?sig = "\<lparr>sg_key_id = kid, sg_algorithm = AlgorithmRSASHA256, sg_bytes = b\<rparr>"
  let ?req = "set_header ''Signature'' (signature_header ?sig) ?prep"
  have "?sign (pl_key_id p) ss = Inr ?sig" using b assms(6) by (auto simp: LocalSigner_Sign_def)
  then have s: "SignRequest ?L date req body (pl_key_id p) (Some ?sign) = Inr ?req"
    using ss assms(5) by (auto simp: SignRequest_Inr)
  have "quote \<notin> set (sg_algorithm sg) \<and> sg_bytes sg \<noteq> [] \<and> rsa_verify C pub (sha256 ?L m) (sg_bytes sg) = None"
    if "?sign (pl_key_id p) m = Inr sg" for m sg
    using that rsa [of "sha256 ?L m"]
    by (auto simp: LocalSigner_Sign_def AlgorithmRSASHA256_def quote_def split: if_splits sum.splits)
  from SignRequest_Verify [OF s this] have "Verify ?L C ?req body pub = None" .
  then show ?thesis using s delivery_request_headers [OF assms(2)]
    by (intro exI [of _ ?req]) (simp add: header_simps canonical_delivery prepare_request_def)
qed

section \<open>Errors of an execution\<close>

text \<open>What makes a payload undeliverable, in terms of its fields.\<close>

definition sendable_text :: "string \<Rightarrow> bool" where
  "sendable_text v \<longleftrightarrow> list_all (\<lambda>c. byte c = 9 \<or> 32 \<le> byte c \<and> byte c \<noteq> 127) v"

definition http_address :: "golib \<Rightarrow> string \<Rightarrow> bool" where
  "http_address L raw \<longleftrightarrow>
     raw \<noteq> [] \<and> (case url_parse L raw of Inl e \<Rightarrow> False | Inr u \<Rightarrow> u_scheme u \<in> {''http'', ''https''} \<and> u_host u \<noteq> [])"

definition sendable_header :: "golib \<Rightarrow> string \<times> string \<Rightarrow> bool" where
  "sendable_header L kv \<longleftrightarrow>
     to_lower L (fst kv) \<in> {''accept'', ''content-length'', ''content-type'', ''date'', ''digest'', ''host'', ''signature'', ''user-agent''} \<or>
     fst kv \<noteq> [] \<and> list_all is_token_byte (fst kv) \<and> sendable_text (snd kv)"

definition undeliverable :: "golib \<Rightarrow> string \<Rightarrow> ap_payload \<Rightarrow> bool" where
  "undeliverable L dflt p \<longleftrightarrow>
     (trim_space (pl_activity p) = [] \<longleftrightarrow> pl_body p = []) \<or>
     trim_space (pl_activity p) \<noteq> [] \<and> hd (trim_space (pl_activity p)) \<noteq> CHR ''{'' \<or>
     \<not> sendable_text (if pl_content_type p = [] then dflt else pl_content_type p) \<or>
     \<not> http_address L (pl_inbox p) \<or> \<not> list_all (sendable_header L) (pl_headers p)"

lemma ap_validHeaderValue_iff: "ap_validHeaderValue v = sendable_text v"
  by (auto simp: ap_validHeaderValue_def sendable_text_def list_all_iff)

lemma ap_isTokenByte_eq: "ap_isTokenByte = is_token_byte"
  unfolding ap_isTokenByte_def [abs_def] is_token_byte_def [abs_def] token_punct_def ..

lemma checkInbox_iff: "checkInbox L raw = None \<longleftrightarrow> http_address L raw"
  by (auto simp: checkInbox_def http_address_def split: sum.splits)

lemma resolveBody_Inr:
  "resolveBody p dflt = Inr (body, ct) \<longleftrightarrow>
     (trim_space (pl_activity p) = [] \<longleftrightarrow> pl_body p \<noteq> []) \<and>
     (trim_space (pl_activity p) \<noteq> [] \<longrightarrow> hd (trim_space (pl_activity p)) = CHR ''{'') \<and>
     body = (if pl_body p = [] then trim_space (pl_activity p) else pl_body p) \<and>
     ct = (if pl_content_type p = [] then dflt else pl_content_type p)"
  by (auto simp: resolveBody_def Let_def)

lemma add_payload_headers_outcome:
  "if list_all (sendable_header L) hs then \<exists>req'. add_payload_headers L i req hs = Inr req'
   else \<exists>e. add_payload_headers L i req hs = Inl e \<and> errors_is e ErrUnrecoverable"
  by (induction L i req hs rule: add_payload_headers.induct)
    (auto simp: sendable_header_def isSignedOrReserved_def ap_validHeaderName_def ap_validHeaderValue_iff
      ap_isTokenByte_eq ap_permanent_props)

lemma delivery_request_outcome:
  assumes "unmarshal (j_data j) = Inr p"
  shows "if undeliverable (ee_lib E) (ax_content_type ex) p
    then \<exists>e. delivery_request E unmarshal ex j = Inl e \<and> errors_is e ErrUnrecoverable
    else \<exists>req body. delivery_request E unmarshal ex j = Inr (p, req, body)"
proof (cases "resolveBody p (ax_content_type ex)")
  case (Inl e)
  then have "undeliverable (ee_lib E) (ax_content_type ex) p"
    using resolveBody_Inr [of p "ax_content_type ex"] by (auto simp: undeliverable_def)
  then show ?thesis using Inl assms by (simp add: delivery_request_def ap_permanent_props)
next
  case (Inr bc)
  obtain b c where bc: "resolveBody p (ax_content_type ex) = Inr (b, c)" using Inr by (cases bc) simp
  then have u: "undeliverable (ee_lib E) (ax_content_type ex) p \<longleftrightarrow>
      \<not> ap_validHeaderValue c \<or> checkInbox (ee_lib E) (pl_inbox p) \<noteq> None \<or> \<not> list_all (sendable_header (ee_lib E)) (pl_headers p)"
    unfolding resolveBody_Inr by (auto simp: undeliverable_def ap_validHeaderValue_iff checkInbox_iff)
  have post: "checkInbox (ee_lib E) (pl_inbox p) = None \<Longrightarrow> \<exists>req0. new_post_request (ee_lib E) (pl_inbox p) = Inr req0"
    by (auto simp: checkInbox_iff http_address_def new_post_request_def Let_def split: sum.splits)
  show ?thesis
  proof (cases "ap_validHeaderValue c \<and> checkInbox (ee_lib E) (pl_inbox p) = None")
    case True
    then obtain req0 where "new_post_request (ee_lib E) (pl_inbox p) = Inr req0" using post by blast
    then show ?thesis using True u add_payload_headers_outcome [of "ee_lib E" "pl_headers p" "j_id j" req0]
      by (auto simp: delivery_request_def assms bc split: if_splits)
  qed (use u in \<open>auto simp: delivery_request_def assms bc ap_permanent_props split: option.splits\<close>)
qed

text \<open>
  C30: The checks of \<open>Execute\<close> sort payloads exactly.  One that does not decode, has both or neither of
  an activity and a body, an activity that is no JSON object, a content type or a header that
  cannot be sent, or an inbox that is missing, unparseable, hostless or not http(s), fails
  permanently, nothing is signed and no connection is made.  Every other payload becomes a
  request.
\<close>
theorem bad_delivery_payload_permanent:
  "if (case unmarshal (j_data j) of Inl e \<Rightarrow> True | Inr p \<Rightarrow> undeliverable (ee_lib E) (ax_content_type ex) p)
   then \<exists>e. errors_is e ErrUnrecoverable \<and> (\<forall>s. ap_Execute E date unmarshal (ex\<lparr>ax_signer := s\<rparr>) j = (Inl e, [], []))
   else \<exists>p req body. delivery_request E unmarshal ex j = Inr (p, req, body)"
proof -
  have same: "delivery_request E unmarshal (ex\<lparr>ax_signer := s\<rparr>) j = delivery_request E unmarshal ex j" for s
  proof -
    have "ax_content_type (ex\<lparr>ax_signer := s\<rparr>) = ax_content_type ex" "ax_user_agent (ex\<lparr>ax_signer := s\<rparr>) = ax_user_agent ex"
      by simp_all
    then show ?thesis by (simp only: delivery_request_def)
  qed
  show ?thesis
  proof (cases "unmarshal (j_data j)")
    case (Inl e)
    then show ?thesis by (simp add: ap_Execute_def same delivery_request_def ap_permanent_props)
  next
    case (Inr p)
    then show ?thesis using delivery_request_outcome [of unmarshal j p E ex] by (auto simp: ap_Execute_def same split: if_splits)
  qed
qed

lemma ap_Execute_tried:
  assumes "a \<in> set (fst (snd (ap_Execute E date unmarshal ex j)))"
  shows "(\<exists>req body. a \<in> set (snd (client_do (ee_net E) (ax_client ex) req body))) \<or> (\<exists>k m. a \<in> set (snd (ax_signer ex k m)))"
proof (cases "delivery_request E unmarshal ex j")
  case (Inl e)
  then show ?thesis using assms by (simp add: ap_Execute_def)
next
  case (Inr q)
  obtain p req body where q: "q = (p, req, body)" by (cases q)
  obtain res asked where sd: "sign_delivery (ee_lib E) date req body (pl_key_id p) (ax_signer ex) = (res, asked)" by fastforce
  then have asked: "a \<in> set asked \<Longrightarrow> \<exists>k m. a \<in> set (snd (ax_signer ex k m))"
    by (auto simp: sign_delivery_def split: sum.splits)
  have "a \<in> set asked \<or> (\<exists>sreq. a \<in> set (snd (client_do (ee_net E) (ax_client ex) sreq body)))"
  proof (cases res)
    case (Inr sreq)
    obtain rr tried where "client_do (ee_net E) (ax_client ex) sreq body = (rr, tried)" by fastforce
    then show ?thesis using assms Inr sd q \<open>delivery_request E unmarshal ex j = Inr q\<close>
      by (cases rr) (auto simp: ap_Execute_def split: sum.splits prod.splits, (metis snd_conv)+)
  qed (use assms sd q Inr in \<open>simp add: ap_Execute_def\<close>)
  then show ?thesis using asked by blast
qed

definition public_address :: "network \<Rightarrow> string \<Rightarrow> bool" where
  "public_address net a \<longleftrightarrow>
     (\<exists>host port ip. SplitHostPort a = Inr (host, port) \<and> n_parse_addr net host = Some ip \<and> IsPublic ip)"

lemma guarded_public: "a \<in> set (snd (client_do net (NewClient False) req body)) \<Longrightarrow> public_address net a"
  using client_do_guarded [of a net "NewClient False" req body]
  by (simp add: dial_control_def NewClient_def NewDialer_def CheckAddr_none_iff public_address_def)

lemma remoteSigner_dials:
  assumes "a \<in> set (snd (remoteSigner_Sign E mj uj r k m))"
  shows "\<exists>req0 req body. new_post_request (ee_lib E) (rs_url r) = Inr req0 \<and> r_url req = r_url req0 \<and>
    a \<in> set (snd (client_do (ee_net E) (rs_client r) req body))"
proof -
  have "r_url (sign_request E r body req0) = r_url req0" for body req0
    by (simp add: sign_request_def Let_def set_header_def)
  then show ?thesis using assms by (auto simp: remoteSigner_Sign_def split: sum.splits)
qed

text \<open>
  C8: An executor configured without \<open>allow_private_network\<close> delivers to public addresses only, whatever
  inbox the payload names and whatever it resolves to.  Every address an execution connects to
  is public, with one exception: with a remote signer whose own \<open>allow_private_network\<close> is not
  false (it defaults to true), the addresses of the configured signing endpoint.
\<close>
theorem delivery_only_dials_public:
  assumes "newExecutor (ee_lib E) C F Y decode (built_Sign E C F mj uj) raw = (Inr ex, lg)"
    and "DecodeStrict Y decode zero_ap_config raw = Inr cfg" and "\<not> ac_allow_private cfg"
    and "a \<in> set (fst (snd (ap_Execute E date unmarshal ex j)))"
  shows "public_address (ee_net E) a \<or>
    si_type (ac_signer cfg) = ''remote'' \<and> si_allow_private (ac_signer cfg) \<noteq> Some False \<and>
    (\<exists>req0 req body. new_post_request (ee_lib E) (si_url (ac_signer cfg)) = Inr req0 \<and> r_url req = r_url req0 \<and>
       a \<in> set (snd (client_do (ee_net E) (NewClient True) req body)))"
proof -
  obtain sg where sg: "BuildSigner (ee_lib E) C F (ac_signer cfg) = Inr sg"
    and ex: "ax_signer ex = built_Sign E C F mj uj sg" "ax_client ex = NewClient False"
    using assms(1-3) by (auto simp: newExecutor_def ap_New_def split: sum.splits)
  show ?thesis
  proof (cases "\<exists>req body. a \<in> set (snd (client_do (ee_net E) (ax_client ex) req body))")
    case True
    then show ?thesis using guarded_public ex(2) by metis
  next
    case False
    then obtain k m where dial: "a \<in> set (snd (built_Sign E C F mj uj sg k m))"
      using ap_Execute_tried [OF assms(4)] ex(1) by auto
    then obtain r where r: "sg = RemoteSigner r" by (cases sg) (auto simp: offline_def)
    then have cfg: "si_type (ac_signer cfg) = ''remote''" "newRemoteSigner (ee_lib E) (ac_signer cfg) = Inr r"
      using sg by (auto simp: BuildSigner_def map_sum_def split: if_splits sum.splits)
    then have rs: "rs_url r = si_url (ac_signer cfg)"
      "rs_client r = NewClient (si_allow_private (ac_signer cfg) \<noteq> Some False)"
      by (auto simp: newRemoteSigner_def split: if_splits sum.splits option.splits)
    obtain req0 req body where d: "new_post_request (ee_lib E) (rs_url r) = Inr req0" "r_url req = r_url req0"
        "a \<in> set (snd (client_do (ee_net E) (rs_client r) req body))"
      using remoteSigner_dials dial r by fastforce
    show ?thesis
    proof (cases "si_allow_private (ac_signer cfg) = Some False")
      case True
      then show ?thesis using d(3) rs(2) guarded_public by simp
    next
      case False
      then show ?thesis using d rs cfg(1) by auto
    qed
  qed
qed

text \<open>What \<open>Execute\<close> makes of a signer's refusal.\<close>

lemma ap_Execute_refused:
  assumes "delivery_request E unmarshal ex j = Inr (p, req, body)"
    and "SigningString (ee_lib E) (prepare_request (ee_lib E) date body req) DefaultHeaders = Inr ss"
    and "SignRequest (ee_lib E) date req body (pl_key_id p) (Some (answers (ax_signer ex))) = Inl e"
  shows "\<exists>e'. ap_Execute E date unmarshal ex j = (Inl e', snd (ax_signer ex (pl_key_id p) ss), []) \<and>
    (errors_is e' ErrUnrecoverable \<longleftrightarrow> errors_is e ErrUnknownKey \<or> errors_is e ErrUnrecoverable)"
  using assms by (auto simp: ap_Execute_def sign_delivery_def ap_permanent_props)

section \<open>The remote signer\<close>

lemma remote_signature_Inr:
  "remote_signature r k out = Inr sig \<Longrightarrow> sg_bytes sig \<noteq> [] \<and> sg_key_id sig \<noteq> [] \<and> (k \<noteq> [] \<longrightarrow> sg_key_id sig = k)"
  by (auto simp: remote_signature_def Let_def split: option.splits if_splits)

lemma remoteSigner_Sign_Inr:
  "fst (remoteSigner_Sign E mj uj r k m) = Inr sig \<Longrightarrow> \<exists>out. remote_signature r k out = Inr sig"
  by (auto simp: remoteSigner_Sign_def remote_answer_def split: sum.splits if_splits)

interpretation remote_signer: key_honouring "answers (remoteSigner_Sign E mj uj r)" for E mj uj r
  by unfold_locales (unfold answers_def, metis remoteSigner_Sign_Inr remote_signature_Inr)

text \<open>
  C32: A signature the remote signer hands on is for the key that was asked for: whatever the
  endpoint answers, a result carries the requested key id (some key id when none was requested)
  and signature bytes, never an empty signature or another actor's key.
\<close>
theorem remote_signer_honours_key:
  assumes "fst (remoteSigner_Sign E mj uj r k m) = Inr sig"
  shows "sg_key_id sig \<noteq> [] \<and> sg_bytes sig \<noteq> [] \<and> (k \<noteq> [] \<longrightarrow> sg_key_id sig = k)"
  using remoteSigner_Sign_Inr [OF assms] remote_signature_Inr remote_signer.honours [of E mj uj r k m sig] assms
  by (auto simp: answers_def)

lemma ReadBody_Inl: "fst (ReadBody resp n) = Inl e \<Longrightarrow> body_err resp = Some e"
  by (auto simp: ReadBody_def Let_def split: option.splits if_splits)

lemma remote_refusal:
  assumes "\<And>x. \<exists>b. mj x = Inr b" and "new_post_request (ee_lib E) (rs_url r) = Inr req0"
    and "\<And>q b. fst (client_do (ee_net E) (rs_client r) q b) = Inr resp"
    and "status_code resp < 200 \<or> 300 \<le> status_code resp"
    and "\<forall>e. body_err resp = Some e \<longrightarrow> \<not> errors_is e ErrUnknownKey \<and> \<not> errors_is e ErrUnrecoverable"
  shows "\<exists>e. fst (remoteSigner_Sign E mj uj r k m) = Inl e \<and> (errors_is e ErrUnknownKey \<longleftrightarrow> isNoSuchKey resp) \<and>
    \<not> errors_is e ErrUnrecoverable"
proof -
  obtain b where b: "mj \<lparr>rq_key_id = k, rq_signing_string = base64_encode m, rq_algorithm = AlgorithmRSASHA256\<rparr> = Inr b"
    using assms(1) by blast
  note simps = remoteSigner_Sign_def remote_answer_def b assms(2,3)
  show ?thesis
  proof (cases "isNoSuchKey resp")
    case False
    then show ?thesis
      using assms(4,5) ReadBody_Inl [of resp DefaultMaxResponseBytes]
      by (cases "fst (ReadBody resp DefaultMaxResponseBytes)") (auto simp: simps)
  qed (simp add: simps)
qed

text \<open>
  C31: A signing endpoint that refuses decides the fate of the delivery by one rule: the job is
  given up exactly when the endpoint says the key does not exist (410, or a 404 answered in
  JSON), even if the body of that answer cannot be read; any other refusal, a plain 404 from a
  proxy included, leaves the job to be retried.  Only the signer has connected to anything.
\<close>
theorem signer_refusal_classified:
  assumes "delivery_request E unmarshal ex j = Inr (p, req, body)" and "date \<noteq> []" and "ax_content_type ex \<noteq> []"
    and "ax_signer ex = remoteSigner_Sign E mj uj r"
    and "\<And>x. \<exists>b. mj x = Inr b" and "new_post_request (ee_lib E) (rs_url r) = Inr req0"
    and "\<And>q b. fst (client_do (ee_net E) (rs_client r) q b) = Inr resp"
    and "status_code resp < 200 \<or> 300 \<le> status_code resp"
    and "\<forall>e. body_err resp = Some e \<longrightarrow> \<not> errors_is e ErrUnknownKey \<and> \<not> errors_is e ErrUnrecoverable"
  shows "\<exists>e ss. ap_Execute E date unmarshal ex j = (Inl e, snd (remoteSigner_Sign E mj uj r (pl_key_id p) ss), []) \<and>
    (errors_is e ErrUnrecoverable \<longleftrightarrow> status_code resp = 410 \<or>
       status_code resp = 404 \<and> str_contains (header_get (resp_header resp) ''Content-Type'') ''json'')"
proof -
  obtain ss where ss: "SigningString (ee_lib E) (prepare_request (ee_lib E) date body req) DefaultHeaders = Inr ss"
    using delivery_signing_string [OF assms(1-3)] by blast
  obtain e where e: "fst (remoteSigner_Sign E mj uj r (pl_key_id p) ss) = Inl e"
    "errors_is e ErrUnknownKey \<longleftrightarrow> isNoSuchKey resp" "\<not> errors_is e ErrUnrecoverable"
    using remote_refusal [of mj E r req0 resp uj "pl_key_id p" ss, OF assms(5-9)] by blast
  then have "SignRequest (ee_lib E) date req body (pl_key_id p) (Some (answers (ax_signer ex))) = Inl e"
    using ss assms(4) by (simp add: SignRequest_def answers_def Let_def)
  from ap_Execute_refused [OF assms(1) ss this] e(2,3) assms(4) show ?thesis
    by (auto simp: isNoSuchKey_def split: if_splits)
qed

text \<open>
  C40: A key id that cannot appear in a Signature header is a defect of the payload that no retry
  repairs, but the execution does not treat it as one: when the payload asks for such a key
  and the signer answers for it (a remote signer that echoes the key id), the job fails with a
  retryable error, at every attempt, although nothing was ever sent to the inbox.
\<close>
theorem bad_key_id_is_retried:
  assumes "delivery_request E unmarshal ex j = Inr (p, req, body)" and "date \<noteq> []" and "ax_content_type ex \<noteq> []"
    and "list_ex bad_key_byte (pl_key_id p)"
    and "\<And>m. fst (ax_signer ex (pl_key_id p) m) = Inr (sig m)" and "\<And>m. sg_key_id (sig m) = pl_key_id p"
  shows "\<exists>e ss. ap_Execute E date unmarshal ex j = (Inl e, snd (ax_signer ex (pl_key_id p) ss), []) \<and> \<not> errors_is e ErrUnrecoverable"
proof -
  obtain ss where ss: "SigningString (ee_lib E) (prepare_request (ee_lib E) date body req) DefaultHeaders = Inr ss"
    using delivery_signing_string [OF assms(1-3)] by blast
  have "\<exists>e. validateKeyID (pl_key_id p) = Some e \<and> \<not> errors_is e ErrUnknownKey \<and> \<not> errors_is e ErrUnrecoverable"
    using assms(4) by (cases "keyIDLimit < length (pl_key_id p)") (auto simp: validateKeyID_def)
  then obtain e where e: "validateKeyID (pl_key_id p) = Some e" "\<not> errors_is e ErrUnknownKey" "\<not> errors_is e ErrUnrecoverable"
    by blast
  then have "SignRequest (ee_lib E) date req body (pl_key_id p) (Some (answers (ax_signer ex))) = Inl e"
    using ss assms(5,6) by (simp add: SignRequest_def answers_def Let_def)
  from ap_Execute_refused [OF assms(1) ss this] e show ?thesis by blast
qed

section \<open>The directory signer\<close>

lemma dirSigner_Sign_Inr:
  assumes "fst (dirSigner_Sign L C F d k m) = Inr sig"
  shows "k \<noteq> [] \<and> sg_key_id sig = k \<and> sg_algorithm sig = AlgorithmRSASHA256 \<and>
    (\<exists>key. fst (dirSigner_load L C F d k) = Inr key \<and> rsa_sign C key (sha256 L m) = Inr (sg_bytes sig))"
  using assms
  by (auto simp: dirSigner_Sign_def NewLocalSigner_def LocalSigner_Sign_def split: if_splits prod.splits sum.splits)

interpretation dir_signer: quoted_signer "\<lambda>k m. fst (dirSigner_Sign L C F d k m)" for L C F d
proof unfold_locales
  fix k m sig assume sig: "fst (dirSigner_Sign L C F d k m) = Inr sig"
  show "sg_key_id sig = k" using dirSigner_Sign_Inr [OF sig] by blast
  show "quote \<notin> set (sg_algorithm sig)"
    using dirSigner_Sign_Inr [OF sig] by (simp add: AlgorithmRSASHA256_def quote_def)
qed

text \<open>
  A request signed by the file or the directory signer for a named key carries a Signature
  header that, parsed by the receiver, names that key and no other.
\<close>
theorem signed_header_names_key:
  assumes "SignRequest L now req body k (Some sign) = Inr req'" and "k \<noteq> []"
    and "sign \<in> {LocalSigner_Sign L C s, \<lambda>k m. fst (dirSigner_Sign L C F d k m)}"
    and "ParseSignatureHeader (header_get (r_header req') ''Signature'') = Inr p"
  shows "ps_key_id p = k"
proof -
  consider "sign = LocalSigner_Sign L C s" | "sign = (\<lambda>k m. fst (dirSigner_Sign L C F d k m))"
    using assms(3) by auto
  then show ?thesis
  proof cases
    case 1
    show ?thesis by (rule local_signer.signed_names_key [OF assms(1) [unfolded 1] assms(2,4)])
  next
    case 2
    show ?thesis by (rule dir_signer.signed_names_key [OF assms(1) [unfolded 2] assms(2,4)])
  qed
qed

text \<open>The signer after a sequence of loads, each with the files as they are at that moment.\<close>

fun after_loads :: "golib \<Rightarrow> cryptolib \<Rightarrow> dir_signer \<Rightarrow> (filesys \<times> string) list \<Rightarrow> dir_signer" where
  "after_loads L C d [] = d"
| "after_loads L C d ((F, k) # rest) = after_loads L C (snd (dirSigner_load L C F d k)) rest"

lemma load_dir: "ds_dir (snd (dirSigner_load L C F d k)) = ds_dir d"
  by (auto simp: dirSigner_load_def Let_def split: sum.splits option.splits if_splits)

lemma after_loads_dir: "ds_dir (after_loads L C d hist) = ds_dir d"
  by (induction L C d hist rule: after_loads.induct) (simp_all add: load_dir)

definition key_path :: "golib \<Rightarrow> string \<Rightarrow> filesys \<Rightarrow> string \<Rightarrow> string" where
  "key_path L dir F k = fs_join F dir (KeyFileName L k)"

text \<open>The file of a key id has a given version (modification time and size).\<close>

definition version :: "golib \<Rightarrow> string \<Rightarrow> filesys \<Rightarrow> string \<Rightarrow> (int \<times> int) option" where
  "version L dir F k =
     (case fs_stat F (key_path L dir F k) of Inl e \<Rightarrow> None | Inr info \<Rightarrow> Some (fi_mod_time info, fi_size info))"

text \<open>What the file of a key id holds.\<close>

definition stored_key :: "golib \<Rightarrow> cryptolib \<Rightarrow> string \<Rightarrow> filesys \<Rightarrow> string \<Rightarrow> rsa_key option" where
  "stored_key L C dir F k =
     (case fs_read F (key_path L dir F k) of
        Inl e \<Rightarrow> None
      | Inr pem \<Rightarrow> (case ParsePrivateKey C pem of Inl e \<Rightarrow> None | Inr key \<Rightarrow> Some key))"

lemma load_cases:
  "dirSigner_load L C F d k = (case ds_cached d k of
      Some hit \<Rightarrow>
        if version L (ds_dir d) F k = Some (ck_mod_time hit, ck_size hit) then (Inr (ck_key hit), d)
        else apsnd (\<lambda>d'. if ds_cached d' k = None then d else d\<lparr>ds_cached := (ds_cached d)(k := ds_cached d' k)\<rparr>)
               (dirSigner_load L C F (d\<lparr>ds_cached := Map.empty\<rparr>) k)
    | None \<Rightarrow> apsnd (\<lambda>d'. if ds_cached d' k = None then d else d\<lparr>ds_cached := (ds_cached d)(k := ds_cached d' k)\<rparr>)
               (dirSigner_load L C F (d\<lparr>ds_cached := Map.empty\<rparr>) k))"
  by (auto simp: dirSigner_load_def version_def key_path_def Let_def split: option.splits sum.splits)

lemma load_stores:
  assumes "ds_cached (snd (dirSigner_load L C F d k)) k' = Some hit"
  shows "ds_cached d k' = Some hit \<or>
    k' = k \<and> version L (ds_dir d) F k = Some (ck_mod_time hit, ck_size hit) \<and> stored_key L C (ds_dir d) F k = Some (ck_key hit)"
  using assms
  by (auto simp: dirSigner_load_def version_def stored_key_def key_path_def Let_def
      split: sum.splits option.splits if_splits)

text \<open>Every entry of the cache was parsed by one of the loads, from the version it is filed under.\<close>

lemma after_loads_stored:
  assumes "ds_cached (after_loads L C d hist) k = Some hit"
  shows "ds_cached d k = Some hit \<or>
    (\<exists>F. (F, k) \<in> set hist \<and> version L (ds_dir d) F k = Some (ck_mod_time hit, ck_size hit) \<and>
       stored_key L C (ds_dir d) F k = Some (ck_key hit))"
  using assms
proof (induction L C d hist rule: after_loads.induct)
  case (2 L C d F k' rest)
  from 2(1) 2(2) show ?case using load_stores [of L C F d k' k hit] by (auto simp: load_dir)
qed simp

lemma load_fresh:
  assumes "version L (ds_dir d) F k = Some v" and "stored_key L C (ds_dir d) F k = Some key" and "ds_cached d = Map.empty"
  shows "fst (dirSigner_load L C F d k) = Inr key"
  using assms
  by (auto simp: dirSigner_load_def version_def stored_key_def key_path_def Let_def split: sum.splits)

text \<open>
  C14: What the key cache can and cannot do.  After any sequence of loads, for any keys and with the
  files changing in between, a load gives what a signer without a cache gives on the files as
  they are now, error or key, or else a key that an earlier load parsed from this file when it
  had the modification time and the size it has now; so a file that is gone is unknown at
  once, and one that changed its time or size is read again.  The two never differ for a key
  whose file, as long as its time and size stayed the same, still holds the key it held when it
  was loaded (it was neither rewritten in place nor made unreadable).
\<close>
theorem dir_cache_transparent:
  assumes "newDirSigner F0 cfg = Inr d"
  shows "let now = fst (dirSigner_load L C F (after_loads L C d hist) k); uncached = fst (dirSigner_load L C F d k) in
    (now = uncached \<or>
       (\<exists>F' key. (F', k) \<in> set hist \<and> now = Inr key \<and> stored_key L C (si_path cfg) F' k = Some key \<and>
          version L (si_path cfg) F k \<noteq> None \<and> version L (si_path cfg) F k = version L (si_path cfg) F' k)) \<and>
    ((\<forall>F'. (F', k) \<in> set hist \<and> version L (si_path cfg) F k = version L (si_path cfg) F' k \<longrightarrow>
        stored_key L C (si_path cfg) F k = stored_key L C (si_path cfg) F' k) \<longrightarrow> now = uncached)"
proof -
  have d: "d = \<lparr>ds_dir = si_path cfg, ds_cached = Map.empty\<rparr>"
    using assms by (auto simp: newDirSigner_def split: if_splits sum.splits)
  let ?d = "after_loads L C d hist"
  have dir: "ds_dir ?d = si_path cfg" "?d\<lparr>ds_cached := Map.empty\<rparr> = d"
    using after_loads_dir [of L C d hist] by (simp_all add: d)
  show ?thesis
  proof (cases "\<exists>hit. ds_cached ?d k = Some hit \<and> version L (si_path cfg) F k = Some (ck_mod_time hit, ck_size hit)")
    case True
    then obtain hit where hit: "ds_cached ?d k = Some hit" "version L (si_path cfg) F k = Some (ck_mod_time hit, ck_size hit)"
      by blast
    then obtain F' where F': "(F', k) \<in> set hist" "version L (si_path cfg) F' k = version L (si_path cfg) F k"
        "stored_key L C (si_path cfg) F' k = Some (ck_key hit)"
      using after_loads_stored [OF hit(1)] by (auto simp: d)
    have now: "fst (dirSigner_load L C F ?d k) = Inr (ck_key hit)"
      using hit dir(1) by (subst load_cases) simp
    have "fst (dirSigner_load L C F d k) = Inr (ck_key hit)" if "stored_key L C (si_path cfg) F k = Some (ck_key hit)"
      using load_fresh [of L d F k _ C "ck_key hit"] hit(2) that by (simp add: d)
    then show ?thesis using now F' hit(2) by (auto simp: Let_def)
  next
    case False
    then have "fst (dirSigner_load L C F ?d k) = fst (dirSigner_load L C F d k)"
      by (subst load_cases) (auto simp: dir split: option.splits)
    then show ?thesis by simp
  qed
qed

section \<open>Concrete instances\<close>

definition sample_delivery :: "string \<Rightarrow> ap_payload" where
  "sample_delivery kid = \<lparr>pl_inbox = ''https://remote.example/inbox'', pl_key_id = kid, pl_activity = ''{}'', pl_body = [],
     pl_content_type = [], pl_headers = [(''DATE'', ''forged''), (''X-Extra'', ''1'')]\<rparr>"

definition sample_deliverer :: "net_signer \<Rightarrow> ap_executor" where
  "sample_deliverer s = \<lparr>ax_signer = s, ax_client = NewClient False, ax_timeout = ap_defaultTimeout,
     ax_user_agent = UserAgent, ax_max_bytes = DefaultMaxResponseBytes, ax_content_type = defaultContentType\<rparr>"

definition sample_delivery_env :: "network \<Rightarrow> exec_env" where
  "sample_delivery_env net = \<lparr>ee_lib = sample_golib, ee_net = net, ee_now = 0, ee_unix = 1700000000\<rparr>"

definition sample_signer :: net_signer where
  "sample_signer = offline (\<lambda>k m. Inr \<lparr>sg_key_id = k, sg_algorithm = [], sg_bytes = ''s''\<rparr>)"

definition sample_throttled :: response where
  "sample_throttled = \<lparr>status_code = 429, status_text = ''429 Too Many Requests'',
     resp_header = [''Retry-After'' \<mapsto> [''86400'']], body_data = [], body_err = None\<rparr>"

lemma sample_executor: "ax_content_type (sample_deliverer s) = ''application/activity+json''" "ax_signer (sample_deliverer s) = s"
  "ax_client (sample_deliverer s) = NewClient False"
  by (simp_all add: sample_deliverer_def defaultContentType_def)

lemma sample_delivery_request:
  "\<exists>req. delivery_request (sample_delivery_env net) (\<lambda>_. Inr (sample_delivery kid)) (sample_deliverer s) sample_job =
     Inr (sample_delivery kid, req, ''{}'')"
proof -
  have body: "resolveBody (sample_delivery kid) ''application/activity+json'' = Inr (''{}'', ''application/activity+json'')"
    "pl_headers (sample_delivery kid) = [(''DATE'', ''forged''), (''X-Extra'', ''1'')]"
    by code_simp+
  have inbox: "checkInbox sample_golib (pl_inbox (sample_delivery kid)) = None"
    "\<exists>req. new_post_request sample_golib (pl_inbox (sample_delivery kid)) = Inr req"
    by (simp_all add: checkInbox_def sample_delivery_def sample_golib_def new_post_request_def Let_def)
  have valid: "ap_validHeaderValue ''application/activity+json''" "isSignedOrReserved sample_golib ''DATE''"
    "ap_validHeaderName ''X-Extra''" "ap_validHeaderValue ''1''"
    by code_simp+
  show ?thesis
    using inbox valid by (auto simp: delivery_request_def sample_executor sample_delivery_env_def body)
qed

theorem throttled_delivery_waits_witness:
  "waits_as_asked ''86400'' \<lparr>bc_job_id = ''7'', bc_name = ''ping'', bc_attempts_made = 1, bc_err = None\<rparr>
     (fst (ap_settle sample_golib 0 ''https://remote.example/inbox'' sample_throttled []))"
proof -
  have "header_get (resp_header sample_throttled) ''Retry-After'' = ''86400''" by code_simp
  moreover have "list_all is_digit ''86400''" "0 < dec_val 0 ''86400''" by (simp_all add: is_digit_def digit_val_def)
  ultimately show ?thesis
    using throttled_delivery_waits [where r = sample_throttled] by (simp add: sample_throttled_def)
qed

theorem signed_delivery_verifies_witness:
  "\<exists>req req'. delivery_request (sample_delivery_env (sample_net [])) (\<lambda>_. Inr (sample_delivery ''k''))
       (sample_deliverer sample_signer) sample_job = Inr (sample_delivery ''k'', req, ''{}'') \<and>
     SignRequest sample_golib ''now'' req ''{}'' ''k''
       (Some (LocalSigner_Sign sample_golib sample_crypto \<lparr>ls_key_id = ''k'', ls_key = RSAKey ''x''\<rparr>)) = Inr req' \<and>
     Verify sample_golib sample_crypto req' ''{}'' ''pub'' = None \<and> header_get (r_header req') ''Date'' = ''now''"
proof -
  obtain req where req: "delivery_request (sample_delivery_env (sample_net [])) (\<lambda>_. Inr (sample_delivery ''k''))
      (sample_deliverer sample_signer) sample_job = Inr (sample_delivery ''k'', req, ''{}'')"
    using sample_delivery_request by blast
  have rsa: "\<exists>s. rsa_sign sample_crypto (RSAKey ''x'') h = Inr s \<and> s \<noteq> [] \<and> rsa_verify sample_crypto ''pub'' h s = None" for h
    by (simp add: sample_crypto_def)
  have "validateKeyID ''k'' = None" by code_simp
  from signed_delivery_verifies [OF rsa req _ _ this, of "''now''"] req show ?thesis
    by (auto simp: sample_executor sample_delivery_def sample_delivery_env_def)
qed

theorem bad_delivery_payload_permanent_witness:
  "\<exists>e. ap_Execute (sample_delivery_env (sample_net [])) ''now'' (\<lambda>_. Inr ((sample_delivery ''k'')\<lparr>pl_body := ''raw''\<rparr>))
     (sample_deliverer sample_signer) sample_job = (Inl e, [], []) \<and> errors_is e ErrUnrecoverable"
proof -
  have "undeliverable L dflt ((sample_delivery ''k'')\<lparr>pl_body := ''raw''\<rparr>)" for L dflt
  proof -
    have "trim_space (pl_activity (sample_delivery ''k'')) \<noteq> []" by code_simp
    then show ?thesis by (simp add: undeliverable_def)
  qed
  moreover have "(sample_deliverer s)\<lparr>ax_signer := s'\<rparr> = sample_deliverer s'" for s s'
    by (simp add: sample_deliverer_def)
  ultimately show ?thesis
    using bad_delivery_payload_permanent [where unmarshal = "\<lambda>_. Inr ((sample_delivery ''k'')\<lparr>pl_body := ''raw''\<rparr>)"
        and ex = "sample_deliverer sample_signer" and E = "sample_delivery_env (sample_net [])" and j = sample_job and date = "''now''"]
    by auto
qed

theorem remote_signer_honours_key_witness:
  "\<exists>sig. fst (remoteSigner_Sign (sample_delivery_env (sample_net [''8.8.8.8:80''])) (\<lambda>_. Inr ''{}'')
      (\<lambda>_. Inr \<lparr>rr_key_id = [], rr_algorithm = [], rr_signature = ''cw==''\<rparr>)
      \<lparr>rs_url = ''https://app'', rs_secret = [], rs_timeout = 1, rs_client = NewClient True, rs_user_agent = UserAgent\<rparr>
      ''k'' ''m'') = Inr sig \<and> sg_key_id sig = ''k''"
proof -
  let ?E = "sample_delivery_env (sample_net [''8.8.8.8:80''])"
  let ?r = "\<lparr>rs_url = ''https://app'', rs_secret = [], rs_timeout = 1, rs_client = NewClient True, rs_user_agent = UserAgent\<rparr>"
  let ?out = "\<lparr>rr_key_id = [], rr_algorithm = [], rr_signature = ''cw==''\<rparr>"
  have post: "\<exists>q. new_post_request sample_golib ''https://app'' = Inr q"
    by (simp add: new_post_request_def sample_golib_def Let_def)
  have "base64_decode ''cw=='' = Some ''s''" by code_simp
  then have "\<exists>sig. fst (remoteSigner_Sign ?E (\<lambda>_. Inr ''{}'') (\<lambda>_. Inr ?out) ?r ''k'' ''m'') = Inr sig"
    using post by (auto simp: remoteSigner_Sign_def remote_answer_def sample_delivery_env_def client_do_def dial_control_def NewClient_def
        NewDialer_def ReadBody_def remote_signature_def isNoSuchKey_def Let_def)
  then show ?thesis using remote_signer_honours_key [of ?E "\<lambda>_. Inr ''{}''" "\<lambda>_. Inr ?out" ?r "''k''" "''m''"] by auto
qed

definition sample_lost_route :: network where
  "sample_lost_route = (sample_net [''8.8.8.8:80''])\<lparr>n_exchange := (\<lambda>a req body.
     Inr \<lparr>status_code = 404, status_text = ''404 Not Found'', resp_header = Map.empty, body_data = ''nope'', body_err = None\<rparr>)\<rparr>"

theorem signer_refusal_classified_witness:
  "\<exists>e tried. ap_Execute (sample_delivery_env sample_lost_route) ''now'' (\<lambda>_. Inr (sample_delivery ''k''))
      (sample_deliverer (remoteSigner_Sign (sample_delivery_env sample_lost_route) (\<lambda>_. Inr ''{}'') (\<lambda>_. Inl (Errorf [] []))
        \<lparr>rs_url = ''https://app'', rs_secret = [], rs_timeout = 1, rs_client = NewClient True, rs_user_agent = UserAgent\<rparr>))
      sample_job = (Inl e, tried, []) \<and> \<not> errors_is e ErrUnrecoverable"
proof -
  let ?E = "sample_delivery_env sample_lost_route"
  let ?r = "\<lparr>rs_url = ''https://app'', rs_secret = [], rs_timeout = 1, rs_client = NewClient True, rs_user_agent = UserAgent\<rparr>"
  let ?ex = "sample_deliverer (remoteSigner_Sign ?E (\<lambda>_. Inr ''{}'') (\<lambda>_. Inl (Errorf [] [])) ?r)"
  let ?resp = "\<lparr>status_code = 404, status_text = ''404 Not Found'', resp_header = Map.empty, body_data = ''nope'', body_err = None\<rparr>"
  obtain req where req: "delivery_request ?E (\<lambda>_. Inr (sample_delivery ''k'')) ?ex sample_job = Inr (sample_delivery ''k'', req, ''{}'')"
    using sample_delivery_request by blast
  obtain q where post: "new_post_request (ee_lib ?E) (rs_url ?r) = Inr q"
    by (auto simp: new_post_request_def sample_delivery_env_def sample_golib_def Let_def)
  have net: "fst (client_do (ee_net ?E) (rs_client ?r) q' b) = Inr ?resp" for q' b
    by (simp add: sample_delivery_env_def sample_lost_route_def client_do_def dial_control_def NewClient_def NewDialer_def)
  show ?thesis
    using signer_refusal_classified [OF req _ _ _ _ post net, of "''now''" "\<lambda>_. Inr ''{}''" "\<lambda>_. Inl (Errorf [] [])"]
    by (auto simp: sample_executor)
qed

theorem bad_key_id_is_retried_witness:
  "\<exists>e. ap_Execute (sample_delivery_env (sample_net [])) ''now'' (\<lambda>_. Inr (sample_delivery [quote]))
      (sample_deliverer sample_signer) sample_job = (Inl e, [], []) \<and> \<not> errors_is e ErrUnrecoverable"
proof -
  obtain req where req: "delivery_request (sample_delivery_env (sample_net [])) (\<lambda>_. Inr (sample_delivery [quote]))
      (sample_deliverer sample_signer) sample_job = Inr (sample_delivery [quote], req, ''{}'')"
    using sample_delivery_request by blast
  have "\<exists>e ss. ap_Execute (sample_delivery_env (sample_net [])) ''now'' (\<lambda>_. Inr (sample_delivery [quote]))
      (sample_deliverer sample_signer) sample_job =
        (Inl e, snd (ax_signer (sample_deliverer sample_signer) (pl_key_id (sample_delivery [quote])) ss), []) \<and>
      \<not> errors_is e ErrUnrecoverable"
    by (rule bad_key_id_is_retried [OF req, where sig = "\<lambda>m. \<lparr>sg_key_id = [quote], sg_algorithm = [], sg_bytes = ''s''\<rparr>"])
      (simp_all add: sample_executor sample_delivery_def sample_signer_def offline_def bad_key_byte_def)
  then show ?thesis by (simp add: sample_executor sample_signer_def offline_def)
qed

theorem signed_header_names_key_witness:
  "\<exists>req' p. SignRequest sample_golib ''now'' sample_post ''{}'' ''k''
      (Some (LocalSigner_Sign sample_golib sample_crypto \<lparr>ls_key_id = ''k'', ls_key = RSAKey ''x''\<rparr>)) = Inr req' \<and>
     ParseSignatureHeader (header_get (r_header req') ''Signature'') = Inr p \<and> ps_key_id p = ''k''"
proof -
  let ?s = "LocalSigner_Sign sample_golib sample_crypto \<lparr>ls_key_id = ''k'', ls_key = RSAKey ''x''\<rparr>"
  have "case SignRequest sample_golib ''now'' sample_post ''{}'' ''k'' (Some ?s) of Inl e \<Rightarrow> False
    | Inr r \<Rightarrow> \<not> isl (ParseSignatureHeader (header_get (r_header r) ''Signature''))" by code_simp
  then obtain req' where r: "SignRequest sample_golib ''now'' sample_post ''{}'' ''k'' (Some ?s) = Inr req'"
    "\<not> isl (ParseSignatureHeader (header_get (r_header req') ''Signature''))" by (auto split: sum.splits)
  then obtain p where p: "ParseSignatureHeader (header_get (r_header req') ''Signature'') = Inr p"
    using not_isl_Inr by blast
  have "ps_key_id p = ''k''" by (rule signed_header_names_key [OF r(1) _ _ p]) (simp, rule insertI1)
  with r p show ?thesis by blast
qed

definition sample_content :: "string \<Rightarrow> int \<Rightarrow> int \<Rightarrow> string" where
  "sample_content path t sz = (if t = 0 then ''old'' else ''new'')"

definition sample_files :: "int \<Rightarrow> filesys" where
  "sample_files t = \<lparr>fs_stat = (\<lambda>p. Inr \<lparr>fi_mod_time = t, fi_size = 3, fi_is_dir = (p = ''keys'')\<rparr>),
     fs_read = (\<lambda>p. Inr (sample_content p t 3)), fs_join = (\<lambda>a b. a @ ''/'' @ b)\<rparr>"

definition sample_pem :: cryptolib where
  "sample_pem = sample_crypto\<lparr>pem_decode := (\<lambda>s. Some (''RSA PRIVATE KEY'', s)), parse_pkcs1 := (\<lambda>b. Inr (RSAKey b))\<rparr>"

theorem dir_cache_transparent_witness:
  "fst (dirSigner_load sample_golib sample_pem (sample_files 1)
     (after_loads sample_golib sample_pem \<lparr>ds_dir = ''keys'', ds_cached = Map.empty\<rparr> [(sample_files 0, ''k'')]) ''k'') =
   Inr (RSAKey ''new'')"
proof -
  let ?cfg = "\<lparr>si_type = ''dir'', si_key_id = [], si_private_key_path = [], si_path = ''keys'', si_url = [], si_secret = [],
    si_timeout = 0, si_allow_private = None\<rparr>"
  let ?d = "\<lparr>ds_dir = ''keys'', ds_cached = Map.empty\<rparr>"
  have new: "newDirSigner (sample_files 0) ?cfg = Inr ?d" by (simp add: newDirSigner_def sample_files_def)
  have "version sample_golib ''keys'' (sample_files 1) ''k'' \<noteq> version sample_golib ''keys'' (sample_files 0) ''k''"
    by (simp add: version_def sample_files_def)
  moreover have "fst (dirSigner_load sample_golib sample_pem (sample_files 1) ?d ''k'') = Inr (RSAKey ''new'')"
    by (simp add: dirSigner_load_def sample_files_def sample_content_def sample_pem_def ParsePrivateKey_def Let_def)
  ultimately show ?thesis
    using dir_cache_transparent [OF new, of sample_golib sample_pem "sample_files 1" "[(sample_files 0, ''k'')]" "''k''"]
    by (simp add: Let_def)
qed

text \<open>An executor configured with a key file, and an inbox that resolves to the metadata service first.\<close>

definition sample_file_config :: ap_config where
  "sample_file_config = zero_ap_config\<lparr>ac_signer := (ac_signer zero_ap_config)
     \<lparr>si_type := ''file'', si_key_id := ''k'', si_private_key_path := ''key.pem''\<rparr>\<rparr>"

theorem delivery_only_dials_public_witness:
  "public_address (sample_net [''169.254.169.254:80'', ''8.8.8.8:80'']) ''8.8.8.8:80''"
proof -
  let ?net = "sample_net [''169.254.169.254:80'', ''8.8.8.8:80'']"
  let ?E = "sample_delivery_env ?net" and ?F = "sample_files 1" and ?raw = "\<lparr>ec_type = [], ec_node = Some (DocumentNode [])\<rparr>"
  let ?s = "offline (LocalSigner_Sign sample_golib sample_pem \<lparr>ls_key_id = ''k'', ls_key = RSAKey ''new''\<rparr>)"
  let ?ex = "sample_deliverer ?s"
  have dec: "DecodeStrict sample_yaml (\<lambda>_. DecOk sample_file_config) zero_ap_config ?raw = Inr sample_file_config"
    by (simp add: DecodeStrict_def sample_yaml_def)
  have new: "\<exists>lg. newExecutor (ee_lib ?E) sample_pem ?F sample_yaml (\<lambda>_. DecOk sample_file_config)
      (built_Sign ?E sample_pem ?F (\<lambda>_. Inr []) (\<lambda>_. Inl (Errorf [] []))) ?raw = (Inr ?ex, lg)"
    by (simp add: newExecutor_def DecodeStrict_def sample_yaml_def BuildSigner_def newFileSigner_def NewLocalSigner_def sample_file_config_def
        zero_ap_config_def sample_files_def sample_content_def ParsePrivateKey_def sample_pem_def ap_New_def
        sample_deliverer_def sample_delivery_env_def)
  obtain req where req: "delivery_request ?E (\<lambda>_. Inr (sample_delivery ''k'')) ?ex sample_job = Inr (sample_delivery ''k'', req, ''{}'')"
    using sample_delivery_request by blast
  obtain ss where "SigningString (ee_lib ?E) (prepare_request (ee_lib ?E) ''now'' ''{}'' req) DefaultHeaders = Inr ss"
    using delivery_signing_string [OF req, of "''now''"] by (auto simp: sample_executor)
  moreover have "validateKeyID ''k'' = None" by code_simp
  ultimately obtain req' where sig: "sign_delivery (ee_lib ?E) ''now'' req ''{}'' ''k'' ?s = (Inr req', [])"
    by (auto simp: sign_delivery_def SignRequest_def answers_def offline_def LocalSigner_Sign_def sample_pem_def
        sample_crypto_def Let_def)
  have "''8.8.8.8:80'' \<in> set (snd (client_do ?net (NewClient False) req' ''{}''))"
    using sample_check [of "[''169.254.169.254:80'', ''8.8.8.8:80'']"]
    by (auto simp: client_do_def dial_control_def NewClient_def NewDialer_def)
  then have "''8.8.8.8:80'' \<in> set (fst (snd (ap_Execute ?E ''now'' (\<lambda>_. Inr (sample_delivery ''k'')) ?ex sample_job)))"
    using req sig
    by (auto simp: ap_Execute_def sample_executor sample_delivery_env_def sample_delivery_def split: sum.splits prod.splits)
  moreover have "\<not> ac_allow_private sample_file_config" "si_type (ac_signer sample_file_config) \<noteq> ''remote''"
    by (simp_all add: sample_file_config_def zero_ap_config_def)
  ultimately show ?thesis
    using new delivery_only_dials_public [OF _ dec] by (fastforce simp: sample_delivery_env_def)
qed

end
