(* ===== verification/Cli.thy ===== *)
theory Cli
  imports Admin Apdeliver
begin

text \<open>
  Model of \<open>cmd/mkqd/main.go\<close>: the commands \<open>run\<close>, \<open>check\<close>, \<open>keys\<close> and \<open>version\<close>, the table of commands,
  dispatch and the exit status.  A command that may panic returns an option.
\<close>

section \<open>run, check, keys, version\<close>

text \<open>What a run does to the store: every worker it asks for registers its queue, and the workers
  then take jobs from the queues; that is the work of mkq and of the handlers, the argument
  \<open>ce_work\<close>.\<close>

definition launched_queues :: "event list \<Rightarrow> string list" where
  "launched_queues tr = List.map_filter (\<lambda>e. case e of EvProcess q os \<Rightarrow> Some q | _ \<Rightarrow> None) tr"

definition run_store :: "('v, 's) cli_env \<Rightarrow> event list \<Rightarrow> 's \<Rightarrow> 's" where
  "run_store E tr s =
     (case launched_queues tr of
        [] \<Rightarrow> s
      | q # qs \<Rightarrow> ce_work E (q # qs) (fold (q_define (ce_mkq E)) (q # qs) s))"

text \<open>\<open>run\<close>: \<open>None\<close> is a panic of \<open>Start\<close>.\<close>

definition cmdRun :: "('v, 's) cli_env \<Rightarrow> string list \<Rightarrow> 's \<Rightarrow> ('v, 's) command_result option" where
  "cmdRun E args s =
     (case flag_Parse (ce_parse_duration E) [configFlag E] args of
        Inl e \<Rightarrow> Some (Some e, [], s, None)
      | Inr (fv, rest) \<Rightarrow>
          (case NewFromFile (ce_world E) (ce_yaml E) (ce_getenv E) (ce_read_file E) (flag_string fv ''c'') of
             Inl e \<Rightarrow> Some (Some e, [], s, None)
           | Inr rt \<Rightarrow>
               (case Run (ce_world E) (ce_factories E) (ce_sched E) (ce_sched E) Background rt of
                  None \<Rightarrow> None
                | Some (e, rt') \<Rightarrow> Some (e, [], run_store E (rt_trace rt') s, Some rt'))))"

definition poolDescription :: "config \<Rightarrow> string" where
  "poolDescription cfg =
     (if rc_pool_size (cf_redis cfg) = 0 then ''auto'' else format_int (sint (rc_pool_size (cf_redis cfg))))"

definition keyPrefixDescription :: "config \<Rightarrow> string" where
  "keyPrefixDescription cfg = (if cf_key_prefix cfg = [] then ''bull (BullMQ default)'' else cf_key_prefix cfg)"

definition pad_right :: "nat \<Rightarrow> string \<Rightarrow> string" where
  "pad_right n t = t @ replicate (n - length (runes t)) (CHR '' '')"

definition print_bool :: "bool \<Rightarrow> string" where "print_bool b = (if b then ''true'' else ''false'')"

definition check_report :: "('v, 's) cli_env \<Rightarrow> string \<Rightarrow> 'v runtime \<Rightarrow> printed list" where
  "check_report E path rt =
     (let cfg = rt_cfg rt in
      [println (''config     '' @ path),
       println (''redis      '' @ str_join (rc_addrs (cf_redis cfg)) '','' @ '' db='' @ int_cell (rc_db (cf_redis cfg)) @
          '' pool='' @ poolDescription cfg),
       println (''prefix     '' @ keyPrefixDescription cfg),
       println (''server     '' @ sc_addr (cf_server cfg) @ '' metrics='' @ print_bool (sc_metrics (cf_server cfg))),
       println (''shutdown   '' @ ce_duration E (cf_shutdown_timeout cfg)),
       println ''queues''] @
      List.map_filter (\<lambda>name. case QueueTuning rt name of
          None \<Rightarrow> None
        | Some (concurrency, lock) \<Rightarrow>
            Some (println (''  '' @ pad_right 20 name @ '' concurrency='' @ int_cell concurrency @ '' lock='' @ ce_duration E lock)))
        (Queues rt) @
      [println (''executors  '' @ str_join (RegisteredExecutors (ce_factories E)) '', ''), println ''ok''])"

definition cmdCheck :: "('v, 's) cli_env \<Rightarrow> string list \<Rightarrow> 's \<Rightarrow> ('v, 's) command_result" where
  "cmdCheck E args s =
     with_flags E [configFlag E] args s (\<lambda>fv rest.
       case NewFromFile (ce_world E) (ce_yaml E) (ce_getenv E) (ce_read_file E) (flag_string fv ''c'') of
         Inl e \<Rightarrow> (Some e, [], s, None)
       | Inr rt \<Rightarrow>
           (case Check (ce_world E) (ce_factories E) Background rt of
              (Some e, rt1) \<Rightarrow> (Some e, [], s, Some (snd (Shutdown (ce_world E) (ce_sched E) Background rt1)))
            | (None, rt1) \<Rightarrow>
                (None, check_report E (flag_string fv ''c'') rt1, s,
                 Some (snd (Shutdown (ce_world E) (ce_sched E) Background rt1)))))"

definition cmdKeys :: "('v, 's) cli_env \<Rightarrow> string list \<Rightarrow> 's \<Rightarrow> ('v, 's) command_result" where
  "cmdKeys E args s =
     with_flags E [(''dir'', VString [])] args s (\<lambda>fv rest.
       if length rest \<noteq> 1 then (Some (Errorf ''usage: mkqd keys [-dir DIR] <keyId>'' []), [], s, None)
       else let name = KeyFileName (ce_lib E) (rest ! 0); dir = flag_string fv ''dir'' in
            (None, [println (if dir \<noteq> [] then ce_join E dir name else name)], s, None))"

definition cmdVersion :: "('v, 's) cli_env \<Rightarrow> string list \<Rightarrow> 's \<Rightarrow> ('v, 's) command_result" where
  "cmdVersion E args s = with_flags E [] args s (\<lambda>fv rest. (None, [println Version], s, None))"

section \<open>Dispatch\<close>

record ('v, 's) command =
  cm_name :: string
  cm_summary :: string
  cm_run :: "string list \<Rightarrow> 's \<Rightarrow> ('v, 's) command_result option"

abbreviation mk_command :: "string \<Rightarrow> string \<Rightarrow> (string list \<Rightarrow> 's \<Rightarrow> ('v, 's) command_result) \<Rightarrow> ('v, 's) command" where
  "mk_command n d f \<equiv> \<lparr>cm_name = n, cm_summary = d, cm_run = (\<lambda>args s. Some (f args s))\<rparr>"

definition commands :: "('v, 's) cli_env \<Rightarrow> ('v, 's) command list" where
  "commands E =
     [\<lparr>cm_name = ''run'', cm_summary = ''consume the configured queues until interrupted'', cm_run = cmdRun E\<rparr>,
      mk_command ''check'' ''validate the config, build executors, ping Redis'' (cmdCheck E),
      mk_command ''queues'' ''list the queues present in Redis'' (cmdQueues E),
      mk_command ''counts'' ''job counts per bucket, for one queue or all'' (cmdCounts E),
      mk_command ''list'' ''list the jobs in one bucket of a queue'' (cmdList E),
      mk_command ''job'' ''show one job with its state and logs'' (cmdJob E),
      mk_command ''enqueue'' ''add a job from a JSON payload'' (cmdEnqueue E),
      mk_command ''pause'' ''stop handing jobs to workers'' (cmdPause E),
      mk_command ''resume'' ''let workers take jobs again'' (cmdResume E),
      mk_command ''retry'' ''move a failed job back to wait'' (cmdRetry E),
      mk_command ''promote'' ''run a delayed job now'' (cmdPromote E),
      mk_command ''rm'' ''delete one job'' (cmdRm E),
      mk_command ''drain'' ''DELETE the queued jobs (not the shutdown drain)'' (cmdDrain E),
      mk_command ''keys'' ''print where a dir signer looks for a key id'' (cmdKeys E),
      mk_command ''version'' ''print the mkqd version'' (cmdVersion E)]"

definition usage :: "('v, 's) cli_env \<Rightarrow> printed" where
  "usage E =
     Stderr (''mkqd '' @ [CHR 0xE2, CHR 0x80, CHR 0x94] @ '' standalone worker for mkq / BullMQ-compatible queues'' @ nl @ nl @
       ''usage: mkqd <command> [flags]'' @ nl @ nl @
       concat (map (\<lambda>c. ''  '' @ pad_right 9 (cm_name c) @ '' '' @ cm_summary c @ nl) (commands E)) @
       nl @ ''run `mkqd <command> -h` for the flags of a command.'' @ nl)"

definition dispatch :: "('v, 's) cli_env \<Rightarrow> string list \<Rightarrow> 's \<Rightarrow> ('v, 's) command_result option" where
  "dispatch E args s =
     (case args of
        [] \<Rightarrow> Some (Some (Sentinel ErrHelp), [usage E], s, None)
      | name # rest \<Rightarrow>
          if name \<in> set [''-h'', ''--help'', ''help''] then Some (None, [usage E], s, None)
          else case find (\<lambda>c. cm_name c = name) (commands E) of
            Some c \<Rightarrow> cm_run c rest s
          | None \<Rightarrow> Some (Some (Errorf ''unknown command %q'' [ArgS name]), [usage E], s, None))"

text \<open>\<open>main\<close>: the exit status and everything printed.\<close>

definition main :: "('v, 's) cli_env \<Rightarrow> string list \<Rightarrow> 's \<Rightarrow> (nat \<times> printed list \<times> 's) option" where
  "main E args s =
     (case dispatch E args s of
        None \<Rightarrow> None
      | Some (None, out, s', _) \<Rightarrow> Some (0, out, s')
      | Some (Some e, out, s', _) \<Rightarrow>
          Some (if errors_is e ErrHelp then (2, out, s') else (1, out @ [StderrErr e], s')))"

section \<open>Every command\<close>

lemma commands_find:
  assumes "find (\<lambda>c. cm_name c = name) (commands E) = Some c"
  shows "c \<in> set (commands E) \<and> cm_name c = name"
  using assms by (auto simp: find_Some_iff)



lemma plain_commands_store:
  "store_of (cmdCheck E args s) = s" "store_of (cmdKeys E args s) = s" "store_of (cmdVersion E args s) = s"
  by (simp_all add: cmdCheck_def cmdKeys_def cmdVersion_def with_flags_def Let_def split: sum.splits prod.splits option.splits)


lemma dispatch_command:
  assumes "dispatch E (cmd # args) s = Some (e, out, s', rt)"
  obtains (printed) "s' = s" "rt = None" "cmd \<noteq> ''run''"
  | (command) c where "c \<in> set (commands E)" "cm_name c = cmd" "cm_run c args s = Some (e, out, s', rt)"
proof (cases "cmd \<in> set [''-h'', ''--help'', ''help'']")
  case True
  then show thesis using assms printed by (auto simp: dispatch_def)
next
  case False
  show thesis
  proof (cases "find (\<lambda>c. cm_name c = cmd) (commands E)")
    case None
    then have "cmd \<noteq> ''run''" by (auto simp: commands_def)
    then show thesis using assms False None printed by (simp add: dispatch_def)
  next
    case (Some c)
    have "cm_run c args s = Some (e, out, s', rt)" using assms False Some by (simp add: dispatch_def)
    then show thesis using commands_find [OF Some] command by blast
  qed
qed


section \<open>Closing\<close>

lemma build_queue_fresh: "build_queue fs qc rt = (e, rt') \<Longrightarrow> fresh rt \<Longrightarrow> fresh rt'"
  by (auto simp: build_queue_def add_configured_def emit_def fresh_def split: if_splits option.splits sum.splits)

lemma build_queues_fresh: "build_queues fs qcs rt = (e, rt') \<Longrightarrow> fresh rt \<Longrightarrow> fresh rt'"
proof (induction qcs arbitrary: rt)
  case (Cons qc qcs)
  obtain e1 rt1 where b: "build_queue fs qc rt = (e1, rt1)" by fastforce
  show ?case using build_queue_fresh [OF b] Cons b by (cases e1) auto
qed simp

lemma Check_fresh: "Check W fs ctx rt = (e, rt') \<Longrightarrow> fresh rt \<Longrightarrow> fresh rt'"
  using build_queues_fresh by (fastforce simp: Check_def buildConfiguredQueues_def split: option.splits)

lemma cmdCheck_closes: "runtime_of (cmdCheck E args s) = Some rt \<Longrightarrow> closed_unstarted rt"
  unfolding cmdCheck_def
  by (erule with_flags_runtime [rotated])
    (auto dest!: NewFromFile_fresh Check_fresh intro: Shutdown_fresh split: sum.splits prod.splits option.splits)

lemma flagged_closes:
  assumes "\<And>fv rest rt. runtime_of (body fv rest) = Some rt \<Longrightarrow> closed_unstarted rt"
    and "runtime_of (with_flags E flags args s body) = Some rt"
  shows "closed_unstarted rt"
  using with_flags_runtime [of body closed_unstarted] assms by blast

lemma queue_commands_close:
  "runtime_of (cmdQueues E args s) = Some rt \<Longrightarrow> closed_unstarted rt"
  "runtime_of (cmdCounts E args s) = Some rt \<Longrightarrow> closed_unstarted rt"
  "runtime_of (cmdList E args s) = Some rt \<Longrightarrow> closed_unstarted rt"
  "runtime_of (cmdJob E args s) = Some rt \<Longrightarrow> closed_unstarted rt"
  "runtime_of (cmdEnqueue E args s) = Some rt \<Longrightarrow> closed_unstarted rt"
  "runtime_of (cmdPause E args s) = Some rt \<Longrightarrow> closed_unstarted rt"
  "runtime_of (cmdResume E args s) = Some rt \<Longrightarrow> closed_unstarted rt"
  "runtime_of (cmdRetry E args s) = Some rt \<Longrightarrow> closed_unstarted rt"
  "runtime_of (cmdPromote E args s) = Some rt \<Longrightarrow> closed_unstarted rt"
  "runtime_of (cmdRm E args s) = Some rt \<Longrightarrow> closed_unstarted rt"
  "runtime_of (cmdDrain E args s) = Some rt \<Longrightarrow> closed_unstarted rt"
  unfolding cmdQueues_def cmdCounts_def cmdList_def cmdJob_def cmdEnqueue_def cmdPause_def cmdResume_def
    pauseResumeCmd_def cmdRetry_def cmdPromote_def cmdRm_def cmdDrain_def withJob_def Let_def
  by (erule flagged_closes [rotated], auto split: if_splits intro: with_inspector_closes)+

lemma plain_commands_open_nothing: "runtime_of (cmdKeys E args s) = None" "runtime_of (cmdVersion E args s) = None"
  by (auto simp: cmdKeys_def cmdVersion_def with_flags_def Let_def split: sum.splits prod.splits)

text \<open>
  C11: Commands that look or change queues work no queue themselves and leave nothing open: every
  command but \<open>run\<close> that builds a runtime ends with it closed, each Redis client exactly once,
  no worker launched, no listener opened, on every path including the errors.  \<open>check\<close> leaves the
  store as it was, and the four inspecting commands do no more to it than register queues that
  are there; when those have been registered before, they leave it as it was too.
\<close>
theorem commands_leave_nothing_open:
  assumes "dispatch E (cmd # args) s = Some (e, out, s', rt)" and "cmd \<noteq> ''run''"
  shows "(\<forall>r. rt = Some r \<longrightarrow> closed_unstarted r) \<and> (cmd = ''check'' \<longrightarrow> s' = s) \<and>
    (cmd \<in> set [''queues'', ''counts'', ''list'', ''job''] \<longrightarrow>
       only_registers (ce_mkq E) s s' \<and> (all_registered (ce_mkq E) s \<longrightarrow> s' = s))"
  using assms(1)
proof (cases rule: dispatch_command)
  case (command c)
  have "closed_unstarted r" if "rt = Some r" for r
    using command that assms(2) queue_commands_close [of E args s r] cmdCheck_closes [of E args s r]
      plain_commands_open_nothing [of E args s]
    by (auto simp: commands_def simp del: list.inject char.inject)
  moreover have "only_registers (ce_mkq E) s s'" if "cmd \<in> set [''queues'', ''counts'', ''list'', ''job'']"
    using command that inspecting_register [of E s args] by (auto simp: commands_def)
  moreover have "s' = s" if "cmd = ''check''"
    using command that plain_commands_store [of E args s] by (auto simp: commands_def)
  ultimately show ?thesis using only_registers_keeps by metis
qed simp

section \<open>check and run\<close>

lemma build_queue_started:
  "build_queue fs qc (rt\<lparr>rt_started := b\<rparr>) = apsnd (rt_started_update (\<lambda>_. b)) (build_queue fs qc rt)"
  by (simp add: build_queue_def code_registered_def add_configured_def emit_def split: option.splits sum.splits)

lemma build_queues_started:
  "build_queues fs qcs (rt\<lparr>rt_started := b\<rparr>) = apsnd (rt_started_update (\<lambda>_. b)) (build_queues fs qcs rt)"
proof (induction qcs arbitrary: rt)
  case (Cons qc qcs)
  obtain e1 rt1 where q: "build_queue fs qc rt = (e1, rt1)" by fastforce
  show ?case by (cases e1) (simp_all add: build_queue_started q Cons.IH)
qed simp

lemma built_starts:
  assumes "rt_inv rt" and "\<not> rt_started rt" and "buildConfiguredQueues fs rt = (None, rt1)"
    and "cf_queues (rt_cfg rt) \<noteq> []"
    and launches: "\<And>q h os. \<exists>w. m_process W q h os = Inr w" and binds: "\<And>a. \<exists>b. m_listen W a = Inr b"
  shows "\<exists>rt2. Start W fs sched rt = Some (None, rt2)"
proof -
  let ?b = "rt1\<lparr>rt_started := True\<rparr>"
  have b: "buildConfiguredQueues fs (rt\<lparr>rt_started := True\<rparr>) = (None, ?b)"
    using assms(3) by (simp add: buildConfiguredQueues_def build_queues_started)
  define w where "w = warnPoolSize (registeredQueues ?b) ?b"
  note p = Start_prepared [OF assms(1,2) b w_def]
  have names: "registeredQueues w = registeredQueues ?b" by (simp add: w_def)
  have "set (registeredQueues w) \<noteq> {}" using p assms(4) by (auto simp: registeredQueues_set)
  then have ne: "registeredQueues ?b \<noteq> []" using names by simp
  have "registry_ok (rt_registry w) (rt_order w)" "set (registeredQueues w) \<subseteq> set (rt_order w)"
    using p by (simp_all add: rt_inv_def registeredQueues_set)
  moreover have "list_all (\<lambda>n. \<not> isl (launch W w n)) ns" for ns
    using launches by (simp add: list_all_iff launch_def) (metis sum.disc(2))
  ultimately obtain rt3 where sw: "start_workers W sched (registeredQueues w) w = Some (None, rt3)"
    using start_workers_run [of w "registeredQueues w" W sched] by fastforce
  have "fst (start_server W sched rt3) = None"
    using binds [of "sc_addr (cf_server (rt_cfg rt3))"] by (auto simp: start_server_def newHealthServer_def)
  then show ?thesis
    using assms(2) b ne sw names by (cases "start_server W sched rt3") (simp add: Start_def w_def Let_def)
qed

section \<open>Flags after arguments\<close>

text \<open>
  C36: The invocations the documentation shows do not work: flags are read only in front of the first
  argument, so with a queue name in front \<open>drain q --yes\<close>, \<open>list q b -page 1\<close>,
  \<open>enqueue q json --create\<close> and \<open>retry q id -from completed\<close> end in the usage error before
  anything is opened, and \<open>counts q --json\<close> takes the flag for a queue.  \<open>keys path id\<close>, which a
  comment names, is a usage error too.
\<close>
theorem documented_invocations_rejected:
  assumes "split_flag q = NotFlag"
  shows "cmdDrain E [q, ''--yes''] s =
      (Some (Errorf ''usage: mkqd drain [-c CONFIG] [--json] [-delayed] --yes <queue>'' []), [], s, None) \<and>
    cmdList E [q, b, ''-page'', ''1''] s =
      (Some (Errorf ''usage: mkqd list [-c CONFIG] [--json] [-page N] [-size N] [-asc] <queue> <%s>''
         [ArgS (str_join (bucketNames (ce_mkq E)) ''|'')]), [], s, None) \<and>
    cmdEnqueue E [q, p, ''--create''] s =
      (Some (Errorf (''usage: mkqd enqueue [-c CONFIG] [--json] [--create] [flags] <queue> '' @ [CHR 0x27] @
         ''<json payload>'' @ [CHR 0x27]) []), [], s, None) \<and>
    cmdRetry E [q, i, ''-from'', ''completed''] s =
      (Some (Errorf ''usage: mkqd retry [-c CONFIG] [--json] [-from failed|completed] <queue> <jobId>'' []), [], s, None) \<and>
    cmdKeys E [''path'', kid] s = (Some (Errorf ''usage: mkqd keys [-dir DIR] <keyId>'' []), [], s, None) \<and>
    cmdCounts E [q, ''--json''] s =
      with_inspector E (flag_string (queue_flags E) ''c'') s (counts_body E False [q, ''--json''])"
  using assms split_flag_plain [of "''path''"]
  by (simp add: cmdDrain_def cmdList_def cmdEnqueue_def cmdRetry_def cmdCounts_def cmdKeys_def with_flags_def Let_def
      queue_flags_def configFlag_def jsonFlag_def flag_string_def flag_bool_def)

lemma Shutdown_once: "rt_once (snd (Shutdown W sched ctx rt))"
  by (auto simp: Shutdown_def Let_def split: prod.splits)

lemma Shutdown_cfg: "rt_cfg (snd (Shutdown W sched ctx rt)) = rt_cfg rt"
proof -
  have c: "close_server W ctx rt = (e, rt') \<Longrightarrow> rt_cfg rt' = rt_cfg rt" for rt rt' :: "'a runtime" and e
    by (auto simp: close_server_def emit_def split: option.splits prod.splits)
  have w: "stopWorkers W sched ctx rt = (e, rt') \<Longrightarrow> rt_cfg rt' = rt_cfg rt" for rt rt' :: "'a runtime" and e
    by (auto simp: stopWorkers_def emit_def Let_def split: if_splits)
  have k: "close_clients W rt = (es, rt') \<Longrightarrow> rt_cfg rt' = rt_cfg rt" for rt rt' :: "'a runtime" and es
    by (auto simp: close_clients_def emit_def split: if_splits)
  obtain e1 rt1 where 1: "close_server W ctx rt = (e1, rt1)" by fastforce
  obtain e2 rt2 where 2: "stopWorkers W sched ctx rt1 = (e2, rt2)" by fastforce
  obtain es rt3 where 3: "close_clients W rt2 = (es, rt3)" by fastforce
  show ?thesis using c [OF 1] w [OF 2] k [OF 3] by (simp add: Shutdown_def 1 2 3 emit_def Let_def)
qed

text \<open>
  C25: A configuration that \<open>mkqd check\<close> accepts runs: if \<open>check\<close> ends without an error and the file has
  a queue, then \<open>run\<close> on the same command line gets past \<open>Start\<close>, and ends by shutting down,
  as long as the queue library can launch workers and the listener can bind.
\<close>
theorem check_predicts_run:
  assumes "cmdCheck E args s = (None, out, s', Some rt)" and "cf_queues (rt_cfg rt) \<noteq> []"
    and "\<And>q h os. \<exists>w. m_process (ce_world E) q h os = Inr w" and "\<And>a. \<exists>b. m_listen (ce_world E) a = Inr b"
  shows "\<exists>e rt'. cmdRun E args s = Some (e, [], run_store E (rt_trace rt') s, Some rt') \<and> rt_once rt'"
proof -
  let ?W = "ce_world E" and ?fs = "ce_factories E"
  obtain fv rest where flags: "flag_Parse (ce_parse_duration E) [configFlag E] args = Inr (fv, rest)"
    using assms(1) by (auto simp: cmdCheck_def with_flags_def split: sum.splits)
  obtain rt0 where new: "NewFromFile ?W (ce_yaml E) (ce_getenv E) (ce_read_file E) (flag_string fv ''c'') = Inr rt0"
    using assms(1) flags by (auto simp: cmdCheck_def with_flags_def split: sum.splits)
  obtain rt1 where chk: "Check ?W ?fs Background rt0 = (None, rt1)"
    and rt: "rt = snd (Shutdown ?W (ce_sched E) Background rt1)"
    using assms(1) flags new by (auto simp: cmdCheck_def with_flags_def split: prod.splits option.splits)
  have b: "buildConfiguredQueues ?fs rt0 = (None, rt1)" using chk by (auto simp: Check_def split: option.splits)
  have inv: "rt_inv rt0" using new by (auto simp: NewFromFile_def dest: New_inv split: sum.splits)
  have fr: "\<not> rt_started rt0" using NewFromFile_fresh [OF new] by (simp add: fresh_def)
  have "rt_cfg rt1 = rt_cfg rt0"
    using build_queues_frame [OF b [unfolded buildConfiguredQueues_def]] by (metis shell_sel(1))
  then have "cf_queues (rt_cfg rt0) \<noteq> []" using assms(2) rt Shutdown_cfg by metis
  then obtain rt2 where "Start ?W ?fs (ce_sched E) rt0 = Some (None, rt2)"
    using built_starts [OF inv fr b _ assms(3,4)] by blast
  then show ?thesis using flags new
    by (auto simp: cmdRun_def Run_def split: prod.splits) (metis Shutdown_once snd_conv)
qed

section \<open>Concrete command lines\<close>

text \<open>A store of two counters, the queues that exist being those named \<open>a\<close> and \<open>bb\<close>.\<close>

definition sample_mkq :: "64 word mkq" where
  "sample_mkq =
     \<lparr>q_bucket = (\<lambda>b. case b of JobBucketWait \<Rightarrow> ''wait'' | JobBucketActive \<Rightarrow> ''active'' | JobBucketDelayed \<Rightarrow> ''delayed''
        | JobBucketPrioritized \<Rightarrow> ''prioritized'' | JobBucketCompleted \<Rightarrow> ''completed'' | JobBucketFailed \<Rightarrow> ''failed''
        | JobBucketPaused \<Rightarrow> ''paused''),
      q_discover = (\<lambda>_. Inr [''a'', ''bb'']), q_define = (\<lambda>q s. if q \<in> {''a'', ''bb''} then s else s + 1000),
      q_is_paused = (\<lambda>_ _. Inr False), q_counts = (\<lambda>_ s. Inr (sample_counts (if 0 \<le> sint s then s else 0))),
      q_list = (\<lambda>_ _ _ _ _ _. Inr []), q_get = (\<lambda>_ _ _. Inr (None, None)),
      q_logs = (\<lambda>_ _ _ _ _. Inr \<lparr>lg_count = 0, lg_lines = []\<rparr>),
      q_add = (\<lambda>_ _ _ s. (Inr ''1'', s + 1)), q_pause = (\<lambda>_ s. (None, s)), q_resume = (\<lambda>_ s. (None, s)),
      q_retry = (\<lambda>_ _ _ s. (None, s + 1)), q_promote = (\<lambda>_ _ s. (None, s)), q_remove = (\<lambda>_ _ s. (None, s)),
      q_drain = (\<lambda>_ _ s. (None, 0))\<rparr>"

definition sample_cli :: "(string option, 64 word) cli_env" where
  "sample_cli =
     \<lparr>ce_lib = sample_lib, ce_world = (sample_world [] True)\<lparr>m_process := (\<lambda>q h os. Inr (length q))\<rparr>, ce_factories = sample_factories,
      ce_yaml = sample_yaml\<lparr>y_decode_config := (\<lambda>_. Inr sample_config)\<rparr>, ce_getenv = Map.empty, ce_read_file = (\<lambda>_. Inr []), ce_sched = [],
      ce_mkq = sample_mkq, ce_work = (\<lambda>qs s. s - 1), ce_encode = (\<lambda>_. Inr ''{}''), ce_indent = (\<lambda>_. None),
      ce_parse_duration = (\<lambda>_. Inr 0), ce_rfc3339 = (\<lambda>_. []), ce_duration = (\<lambda>_. []), ce_join = (\<lambda>a b. a @ ''/'' @ b)\<rparr>"





theorem commands_leave_nothing_open_witness:
  "\<exists>e out rt. dispatch sample_cli [''counts'', ''a''] 7 = Some (e, out, 7, Some rt) \<and> closed_unstarted rt"
proof -
  have "map_option (\<lambda>(e, out, s, rt). s = 7 \<and> rt \<noteq> None) (dispatch sample_cli [''counts'', ''a''] 7) = Some True"
    by code_simp
  then obtain e out rt where d: "dispatch sample_cli [''counts'', ''a''] 7 = Some (e, out, 7, Some rt)" by auto
  from commands_leave_nothing_open [OF d] d show ?thesis by auto
qed

theorem check_predicts_run_witness:
  "\<exists>e s rt. cmdRun sample_cli [] 7 = Some (e, [], s, Some rt) \<and> rt_once rt"
proof -
  have "case cmdCheck sample_cli [] 7 of (e, out, s, rt) \<Rightarrow> e = None \<and> (case rt of None \<Rightarrow> False | Some r \<Rightarrow> cf_queues (rt_cfg r) \<noteq> [])"
    by code_simp
  then obtain out s rt where c: "cmdCheck sample_cli [] 7 = (None, out, s, Some rt)" "cf_queues (rt_cfg rt) \<noteq> []"
    by (auto split: option.splits)
  have "\<exists>e rt'. cmdRun sample_cli [] 7 = Some (e, [], run_store sample_cli (rt_trace rt') 7, Some rt') \<and> rt_once rt'"
    by (rule check_predicts_run [OF c]) (simp_all add: sample_cli_def sample_world_def)
  then show ?thesis by blast
qed

theorem documented_invocations_rejected_witness:
  "\<exists>e. cmdDrain sample_cli [''deliver'', ''--yes''] 7 = (Some e, [], 7, None)"
proof -
  have "split_flag ''deliver'' = NotFlag" by (simp add: split_flag_def)
  then show ?thesis using documented_invocations_rejected [of "''deliver''" sample_cli 7] by simp
qed

end
