(* ===== verification/Embedded.thy ===== *)
theory Embedded
  imports Runtime
begin

text \<open>
  Model of \<open>examples/embedded/main.go\<close>, the program the documentation opens with: a runtime made in
  code, one typed handler, three jobs, a bounded wait and a shutdown.  What the program sees of the
  clock, of the counter its handler increments and of the signal context, one observation per
  evaluation of the loop condition, is an argument, and so are the answers of the queue library to \<open>Add\<close>.
\<close>

section \<open>The program\<close>

record Delivery =
  dl_inbox :: string
  dl_body :: string

text \<open>Lines written with \<open>log.Printf\<close>: the format and its arguments.\<close>

type_synonym printed = "string \<times> fmt_arg list"

definition embedded_addr :: "string \<Rightarrow> string" where
  "embedded_addr env = (if env = [] then ''127.0.0.1:6379'' else env)"

definition embedded_config :: "string \<Rightarrow> config" where
  "embedded_config addr =
     zero_config\<lparr>cf_redis := (cf_redis zero_config)\<lparr>rc_addrs := [addr]\<rparr>,
       cf_key_prefix := ''mkqd-example'',
       cf_log := \<lparr>lc_level = ''info'', lc_format = ''text''\<rparr>,
       cf_server := (cf_server zero_config)\<lparr>sc_addr := ''off''\<rparr>\<rparr>"

text \<open>The handler answers nil and no error for every job.  It also increments the counter, which the
  wait below observes.\<close>

definition embedded_handler :: "'v \<Rightarrow> 'v handler" where
  "embedded_handler nil_value job = Inr nil_value"

definition embedded_job :: "nat \<Rightarrow> Delivery" where
  "embedded_job i = \<lparr>dl_inbox = ''https://remote'' @ format_int (int i) @ ''.example/inbox'', dl_body = ''hello''\<rparr>"

fun embedded_enqueue :: "(Delivery \<Rightarrow> string result) \<Rightarrow> nat list \<Rightarrow> go_error option \<times> printed list" where
  "embedded_enqueue add [] = (None, [])"
| "embedded_enqueue add (i # is) =
     (case add (embedded_job i) of
        Inl err \<Rightarrow> (Some err, [])
      | Inr job_id \<Rightarrow>
          (case embedded_enqueue add is of (e, ls) \<Rightarrow> (e, (''enqueued %s'', [ArgS job_id]) # ls)))"

text \<open>One evaluation of the loop condition: the counter, the time, which case of the \<open>select\<close> is taken
  if the condition holds, and the time read in the case of the signal.  Times are nanoseconds of
  the monotonic clock.  The observation after the last one gives the counter that is printed.\<close>

record observation =
  ob_handled :: int
  ob_now :: int
  ob_interrupted :: bool
  ob_at :: int

partial_function (option) embedded_wait :: "(nat \<Rightarrow> observation) \<Rightarrow> nat \<Rightarrow> int \<Rightarrow> nat option" where
  "embedded_wait obs i deadline =
     (if ob_handled (obs i) < 3 \<and> ob_now (obs i) < deadline
      then embedded_wait obs (Suc i) (if ob_interrupted (obs i) then ob_at (obs i) else deadline)
      else Some i)"

declare embedded_wait.simps [code]

definition embedded_run ::
    "'v world \<Rightarrow> 'v executor executor_factory factories \<Rightarrow> 'v \<Rightarrow> string \<Rightarrow> (Delivery \<Rightarrow> string result) \<Rightarrow>
     int \<Rightarrow> (nat \<Rightarrow> observation) \<Rightarrow> nat list \<Rightarrow> nat list \<Rightarrow>
     (go_error option \<times> printed list \<times> 'v runtime option) option" where
  "embedded_run W fs nil_value env add start obs sched1 sched2 =
     (let ctx = NotifyContext Background
      in case New W (embedded_config (embedded_addr env)) of
           Inl err \<Rightarrow> Some (Some err, [], None)
         | Inr rt \<Rightarrow>
      (case Handle ''deliver'' (Some (embedded_handler nil_value)) [WithConcurrency 4] rt of
           Inl err \<Rightarrow> Some (Some err, [], Some rt)
         | Inr rt1 \<Rightarrow>
      (case Start W fs sched1 rt1 of
           None \<Rightarrow> None
         | Some (Some err, rt2) \<Rightarrow> Some (Some err, [], Some rt2)
         | Some (None, rt2) \<Rightarrow>
      (case embedded_enqueue add [0..<3] of
           (Some err, ls) \<Rightarrow> Some (Some err, ls, Some rt2)
         | (None, ls) \<Rightarrow>
      (case embedded_wait obs 0 (start + 10 * 10 ^ 9) of
           None \<Rightarrow> None
         | Some n \<Rightarrow>
      (case Shutdown W sched2 (WithTimeout (WithoutCancel ctx) (30 * 10 ^ 9)) rt2 of (err, rt3) \<Rightarrow>
        Some (err, ls @ [(''handled %d job(s)'', [ArgI (ob_handled (obs (Suc n)))])], Some rt3)))))))"

text \<open>\<open>main\<close>: the exit status.\<close>

definition embedded_main :: "(go_error option \<times> printed list \<times> 'v runtime option) option \<Rightarrow> int option" where
  "embedded_main r = map_option (\<lambda>(err, _). if err = None then 0 else 1) r"

section \<open>The wait ends\<close>

text \<open>What the clock and the timer guarantee: time does not go back, and \<open>time.After\<close> of 50 ms does not
  fire early.\<close>

definition clock_ok :: "int \<Rightarrow> (nat \<Rightarrow> observation) \<Rightarrow> bool" where
  "clock_ok start obs \<longleftrightarrow>
     start \<le> ob_now (obs 0) \<and>
     (\<forall>i. ob_now (obs i) \<le> ob_at (obs i) \<and> ob_at (obs i) \<le> ob_now (obs (Suc i)) \<and>
          (\<not> ob_interrupted (obs i) \<longrightarrow> ob_now (obs i) + 50 * 10 ^ 6 \<le> ob_now (obs (Suc i))))"

lemma embedded_wait_expired: "deadline \<le> ob_now (obs i) \<Longrightarrow> embedded_wait obs i deadline = Some i"
  by (simp add: embedded_wait.simps)

lemma embedded_wait_bound:
  assumes "clock_ok start obs" and "deadline - ob_now (obs i) \<le> int k * (50 * 10 ^ 6)"
  shows "\<exists>n. embedded_wait obs i deadline = Some n \<and> n \<le> i + k"
  using assms(2)
proof (induction k arbitrary: i)
  case 0
  then show ?case using embedded_wait_expired [of deadline obs i] by simp
next
  case (Suc k)
  have clock: "ob_at (obs i) \<le> ob_now (obs (Suc i))"
    "\<not> ob_interrupted (obs i) \<Longrightarrow> ob_now (obs i) + 50 * 10 ^ 6 \<le> ob_now (obs (Suc i))"
    using assms(1) by (simp_all add: clock_ok_def)
  show ?case
  proof (cases "ob_interrupted (obs i)")
    case True
    then show ?thesis
      using embedded_wait_expired [of "ob_at (obs i)" obs "Suc i"] clock(1) by (subst embedded_wait.simps) auto
  next
    case False
    then have "deadline - ob_now (obs (Suc i)) \<le> int k * (50 * 10 ^ 6)"
      using clock(2) Suc.prems by (simp add: algebra_simps)
    from Suc.IH [OF this] show ?thesis using False
      by (subst embedded_wait.simps) auto
  qed
qed

lemma embedded_enqueue_error:
  "embedded_enqueue add is = (Some e, ls) \<Longrightarrow> \<exists>i \<in> set is. add (embedded_job i) = Inl e"
  by (induction "is" arbitrary: ls) (auto split: sum.splits prod.splits)

section \<open>How a run ends\<close>

text \<open>
  C29: Over a clock that runs forward the example returns on every path, whatever Redis, the queue
  library and the signal do: its wait polls at most 201 times.  If it returns no error the
  runtime has been shut down, no worker is left and both Redis clients were closed, once; and
  the only way it returns with workers running is an \<open>Add\<close> that was refused, whose error it returns.
\<close>
theorem embedded_run_terminates:
  assumes "clock_ok start obs"
  shows "\<exists>err ls r. embedded_run W fs nil_value env add start obs sched1 sched2 = Some (err, ls, r) \<and>
    (\<exists>n \<le> 200. embedded_wait obs 0 (start + 10 * 10 ^ 9) = Some n) \<and>
    (err = None \<longrightarrow> (\<exists>rt. r = Some rt \<and> rt_once rt \<and> rt_workers rt = [] \<and>
       close_events (rt_trace rt) = [EvClientClose, EvRedisClose])) \<and>
    (\<forall>rt. r = Some rt \<and> rt_workers rt \<noteq> [] \<longrightarrow> (\<exists>i < 3. \<exists>e. add (embedded_job i) = Inl e \<and> err = Some e))"
proof -
  let ?run = "embedded_run W fs nil_value env add start obs sched1 sched2"
  let ?ctx = "WithTimeout (WithoutCancel (NotifyContext Background)) (30 * 10 ^ 9)"
  obtain n where n: "embedded_wait obs 0 (start + 10 * 10 ^ 9) = Some n" "n \<le> 200"
    using embedded_wait_bound [OF assms, of "start + 10 * 10 ^ 9" 0 200] assms by (auto simp: clock_ok_def)
  show ?thesis
  proof (cases "New W (embedded_config (embedded_addr env))")
    case (Inl err)
    then show ?thesis using n by (simp add: embedded_run_def)
  next
    case new: (Inr rt)
    show ?thesis
    proof (cases "Handle ''deliver'' (Some (embedded_handler nil_value)) [WithConcurrency 4] rt")
      case (Inl err)
      then show ?thesis using new n New_inv [OF new] by (simp add: embedded_run_def)
    next
      case handle: (Inr rt1)
      have r1: "reachable W fs rt1" using new handle by (blast intro: reach_new reach_step step_handle)
      have f1: "\<not> rt_started rt1" "\<not> rt_once rt1" using New_fields [OF new] handle
        by (auto simp: Handle_def register_def split: if_splits)
      obtain e rt2 where start: "Start W fs sched1 rt1 = Some (e, rt2)" "rt_inv rt2"
        using Start_total_inv [OF reachable_inv [OF r1]] by blast
      note ends = Start_outcome [OF reachable_inv [OF r1] f1(1) start(1)]
      have r2: "reachable W fs rt2" using r1 start(1) by (blast intro: reach_step step_start)
      have "\<not> rt_once rt2" using quiet_Start [OF start(1)] f1 by (simp add: quiet_def)
      from Shutdown_run [OF start(2) this, of W sched2 ?ctx] obtain err rt3 where
        sh: "Shutdown W sched2 ?ctx rt2 = (err, rt3)" "rt_once rt3" "rt_workers rt3 = []" by fastforce
      have "reachable W fs rt3" using r2 sh(1) by (blast intro: reach_step step_shutdown)
      then have closed: "close_events (rt_trace rt3) = [EvClientClose, EvRedisClose]"
        using reachable_closed_once sh(2) by (fastforce simp: closed_once_def)
      obtain e' ls where add: "embedded_enqueue add [0..<3] = (e', ls)" by fastforce
      have "?run = (case e of Some err \<Rightarrow> Some (Some err, [], Some rt2)
          | None \<Rightarrow> (case e' of Some err \<Rightarrow> Some (Some err, ls, Some rt2)
          | None \<Rightarrow> Some (err, ls @ [(''handled %d job(s)'', [ArgI (ob_handled (obs (Suc n)))])], Some rt3)))"
        using new handle start n add sh(1) by (simp add: embedded_run_def split: option.splits)
      then show ?thesis
        using n sh closed ends embedded_enqueue_error [of add "[0..<3]"] add
        by (cases e; cases e') fastforce+
    qed
  qed
qed

text \<open>
  The program does not drain on every way out: when \<open>Add\<close> refuses a job after the workers were
  started, the run returns that error with the workers up, no shutdown made and the Redis clients
  open, and the process exits with status 1.
\<close>
theorem embedded_refused_add_leaves_workers:
  assumes "New W (embedded_config (embedded_addr env)) = Inr rt"
    and "Handle ''deliver'' (Some (embedded_handler nil_value)) [WithConcurrency 4] rt = Inr rt1"
    and "Start W fs sched1 rt1 = Some (None, rt2)"
    and "embedded_enqueue add [0..<3] = (Some e, ls)"
  shows "embedded_run W fs nil_value env add start obs sched1 sched2 = Some (Some e, ls, Some rt2) \<and>
    embedded_main (embedded_run W fs nil_value env add start obs sched1 sched2) = Some 1 \<and>
    rt_workers rt2 \<noteq> [] \<and> \<not> rt_once rt2 \<and> close_events (rt_trace rt2) = []"
proof -
  have r1: "reachable W fs rt1" using assms(1,2) by (blast intro: reach_new reach_step step_handle)
  have f1: "\<not> rt_started rt1" "\<not> rt_once rt1" using New_fields [OF assms(1)] assms(2)
    by (auto simp: Handle_def register_def split: if_splits)
  have "rt_workers rt2 \<noteq> []" using Start_outcome [OF reachable_inv [OF r1] f1(1) assms(3)] by simp
  moreover have "\<not> rt_once rt2" "close_events (rt_trace rt2) = []"
    using quiet_Start [OF assms(3)] reachable_closed_once [OF r1] f1(2) by (simp_all add: quiet_def closed_once_def)
  ultimately show ?thesis using assms by (simp add: embedded_run_def embedded_main_def)
qed

section \<open>Concrete runs\<close>

text \<open>A clock that ticks every 50 ms while one job is handled per tick.\<close>

definition sample_observations :: "nat \<Rightarrow> observation" where
  "sample_observations i =
     \<lparr>ob_handled = int i, ob_now = int i * 50000000, ob_interrupted = False, ob_at = int i * 50000000\<rparr>"

lemma sample_clock: "clock_ok 0 sample_observations"
  by (simp add: clock_ok_def sample_observations_def)

theorem embedded_run_terminates_witness:
  "\<exists>ls rt. embedded_run (sample_world [] False) sample_factories None [] (\<lambda>d. Inr (dl_inbox d)) 0
       sample_observations [] [] = Some (None, ls, Some rt) \<and>
     rt_workers rt = [] \<and> close_events (rt_trace rt) = [EvClientClose, EvRedisClose]"
proof -
  have "map_option fst (embedded_run (sample_world [] False) sample_factories None [] (\<lambda>d. Inr (dl_inbox d)) 0
       sample_observations [] []) = Some None"
    by code_simp
  with embedded_run_terminates [OF sample_clock, of "sample_world [] False" sample_factories None "[]"
      "\<lambda>d. Inr (dl_inbox d)" "[]" "[]"]
  show ?thesis by auto
qed

theorem embedded_refused_add_leaves_workers_witness:
  "\<exists>ls rt. embedded_run (sample_world [] False) sample_factories None [] (\<lambda>d. Inl (Sentinel DeadlineExceeded)) 0
       sample_observations [] [] = Some (Some (Sentinel DeadlineExceeded), ls, Some rt) \<and> rt_workers rt \<noteq> []"
proof -
  let ?W = "sample_world [] False" and ?cfg = "embedded_config (embedded_addr [])"
  let ?handle = "Handle ''deliver'' (Some (embedded_handler None)) [WithConcurrency 4]"
  have "(case New ?W ?cfg of Inl _ \<Rightarrow> None | Inr rt \<Rightarrow>
      (case ?handle rt of Inl _ \<Rightarrow> None | Inr rt1 \<Rightarrow> map_option fst (Start ?W sample_factories [] rt1))) = Some None"
    by code_simp
  then obtain rt rt1 rt2 where run: "New ?W ?cfg = Inr rt" "?handle rt = Inr rt1"
      "Start ?W sample_factories [] rt1 = Some (None, rt2)"
    by (auto split: sum.splits)
  have "embedded_enqueue (\<lambda>d. Inl (Sentinel DeadlineExceeded)) [0..<3] = (Some (Sentinel DeadlineExceeded), [])"
    by (simp add: upt_rec)
  from embedded_refused_add_leaves_workers [OF run this, of 0 sample_observations "[]"] show ?thesis by blast
qed

end
