(* ===== verification/Spec2Isabelle.thy ===== *)
theory Spec2Isabelle
  imports Health Cli Embedded
begin

text \<open>
  \<^bold>\<open>mkqd\<close> runs workers for BullMQ-compatible queues: it reads a YAML file, builds an executor per queue
  (or takes handlers from an embedding program), launches workers of the queue library mkq, delivers
  jobs over HTTP, and drains on shutdown.  A command line inspects and administers queues.
  This development models the program's own Go code and proves what it promises.

  \<^bold>\<open>Theories and sources.\<close>

  \<^item> \<open>Go_Prelude\<close>, \<open>Go_Strconv\<close>, \<open>Go_Http\<close>, \<open>Go_Base64\<close>, \<open>Go_Flag\<close>: the parts of Go and its standard
    library the sources use: error chains (\<open>errors.Is\<close>, \<open>errors.As\<close>, \<open>errors.Join\<close>), bytes and strings,
    number conversion, header maps, base64, flag parsing.  Go's \<open>int\<close>, \<open>int64\<close> and \<open>time.Duration\<close>
    are 64-bit words read with \<open>sint\<close>.

  \<^item> \<open>Retry_After\<close> (\<open>retry_after.go\<close>): the Retry-After header and the backoff hook.  A number of any
    length is understood and capped, never wrapped.

  \<^item> \<open>Safedial\<close> (\<open>internal/safedial\<close>): the guard against private destinations, shown equal to a table of
    address intervals for IPv4 and IPv6; what it does with zoned addresses.

  \<^item> \<open>Httpsend\<close> (\<open>internal/httpsend\<close>): the guarded client, bounded reads, truncation at rune
    boundaries, HMAC signatures.  The network (\<open>network\<close>) is an argument.

  \<^item> \<open>Config\<close> (\<open>config.go\<close>): types, strict decoding, environment expansion, defaults, validation, loading.
    \<open>Tuning\<close> (the options of \<open>register.go\<close>): layers of settings and the precedence rule.

  \<^item> \<open>Registry\<close> (\<open>executor.go\<close>, \<open>logging.go\<close>, \<open>version.go\<close>): jobs, the registry of executor types, the log
    executor, the logger.

  \<^item> \<open>Runtime\<close> (\<open>runtime.go\<close>, the registration half of \<open>register.go\<close>): the record \<open>runtime\<close> is the
    struct, \<open>world\<close> the calls on mkq, Redis and the listener, each recorded as an event.  Goroutines
    are interleaved by an arbitrary schedule.  \<open>rt_step\<close> and \<open>reachable\<close> are the states an embedding
    program can bring about; the invariant \<open>rt_inv\<close> holds in all of them.  \<open>Health\<close> (\<open>server.go\<close>): the
    probes.

  \<^item> \<open>Httpsig\<close> (\<open>httpsig\<close>): signing strings, signing, parsing, verification.  The locales
    \<open>key_honouring\<close> and \<open>quoted_signer\<close> state what a signer owes its caller; the local, the directory
    and the remote signer are interpretations.

  \<^item> \<open>Delivery\<close>: what the delivering executors share, with the locales \<open>response_classifier\<close> and
    \<open>delivery\<close>; \<open>Httpexec\<close> (\<open>executor/httpexec\<close>: the \<open>http\<close> and \<open>webhook\<close> executors) and \<open>Apdeliver\<close>
    (\<open>executor/apdeliver\<close>: ActivityPub delivery, file, directory and remote signers) interpret them.  An
    execution returns its result, every address it connected to (its signer's first) and its log lines.

  \<^item> \<open>Inspect\<close>, \<open>Admin\<close>, \<open>Cli\<close> (\<open>cmd/mkqd/inspect.go\<close>, \<open>admin.go\<close>, \<open>main.go\<close>): the commands, on a store of any
    type behind the record \<open>mkq\<close>.  \<open>one_change\<close> is the abstract contract of a command line; a handle on
    a queue registers it (\<open>Define\<close>), and what the workers of \<open>run\<close> do to the store is the argument
    \<open>ce_work\<close>.

  \<^item> \<open>Embedded\<close> (\<open>examples/embedded\<close>): the documented embedding program, a whole life of a runtime with a
    polling wait that is shown to end; the one way out that leaves workers running.

  \<^bold>\<open>Parameters.\<close>  Code outside the repository is an argument of the definitions that use it: mkq, Redis
  and the listener (\<open>world\<close>, \<open>mkq\<close>), the network (\<open>network\<close>), YAML (\<open>yaml_lib\<close>), JSON (encoders and
  decoders), cryptography (\<open>cryptolib\<close>, and SHA-256 and HMAC in \<open>golib\<close>), URL and date parsing,
  Unicode case mapping, the file system (\<open>filesys\<close>).  A theorem that relies on one names what it
  relies on as a hypothesis (signatures of a key verify, the counts of a queue are not negative)
  and has a witness in which it holds.

  \<^bold>\<open>Termination.\<close>  No definition uses fuel: loops are structural or have a measure, and a panic of
  \<open>Start\<close> is the value \<open>None\<close>, excluded for every reachable state.  The wait for a signal in \<open>Run\<close>
  is taken to end; the polling wait of the example is a partial function, shown to return within
  201 polls over any clock that runs forward.

  \<^bold>\<open>Not modelled.\<close>  Clocks and real timeouts (contexts are kept as expressions; deadlines have no
  clock), locks (each operation under a mutex is one step), the Prometheus handler of \<open>server.go\<close>,
  column widths of printed tables, messages the flag package prints, failures of standard output.
  \<open>doc.go\<close> has no code.

  Properties that span components follow: the command line and the directory signer agree on the
  name of a key file, and what happens to a job from its payload to the delay of its next attempt.
\<close>

section \<open>Key files\<close>

text \<open>
  C27: \<open>mkqd keys\<close> and the directory signer agree on the file of a key: the path the command prints
  for a directory and a key id is the one the signer examines and reads, so a key stored there
  is the one it signs with; and two key ids share a file only if their SHA-256 hashes collide.
\<close>
theorem keys_command_names_signer_file:
  assumes "split_flag kid = NotFlag" and "dir \<noteq> []"
    and "fs_join F = ce_join E"
    and "fs_stat F path = Inr info" and "fs_read F path = Inr pem" and "ParsePrivateKey C pem = Inr key"
    and "cmdKeys E [''-dir'', dir, kid] s = (e, [println path], s', rt)"
  shows "fst (dirSigner_load (ce_lib E) C F \<lparr>ds_dir = dir, ds_cached = Map.empty\<rparr> kid) = Inr key \<and> e = None \<and>
    (KeyFileName (ce_lib E) kid = KeyFileName (ce_lib E) kid' \<longleftrightarrow> sha256 (ce_lib E) kid = sha256 (ce_lib E) kid')"
proof -
  have flag: "split_flag ''-dir'' = FlagArg ''dir'' None" by (simp add: split_flag_def)
  have "e = None" and path: "path = ce_join E dir (KeyFileName (ce_lib E) kid)"
    using assms(1,2,7) flag
    by (simp_all add: cmdKeys_def with_flags_def is_bool_flag_def flag_Set_def flag_update_def flag_string_def)
  moreover have "fst (dirSigner_load (ce_lib E) C F \<lparr>ds_dir = dir, ds_cached = Map.empty\<rparr> kid) = Inr key"
    using assms(3-6) path by (simp add: dirSigner_load_def Let_def)
  moreover have "KeyFileName (ce_lib E) kid = KeyFileName (ce_lib E) kid' \<longleftrightarrow> sha256 (ce_lib E) kid = sha256 (ce_lib E) kid'"
    using hex_encode_inject by (auto simp: KeyFileName_def)
  ultimately show ?thesis by blast
qed

theorem keys_command_names_signer_file_witness:
  "\<exists>path e s rt. cmdKeys sample_cli [''-dir'', ''keys'', ''k''] 7 = (e, [println path], s, rt) \<and>
     fst (dirSigner_load (ce_lib sample_cli) sample_pem (sample_files 1) \<lparr>ds_dir = ''keys'', ds_cached = Map.empty\<rparr> ''k'') =
       Inr (RSAKey ''new'')"
proof -
  define path where "path = ce_join sample_cli ''keys'' (KeyFileName (ce_lib sample_cli) ''k'')"
  have k: "split_flag ''k'' = NotFlag" "split_flag ''-dir'' = FlagArg ''dir'' None" by (simp_all add: split_flag_def)
  have c: "cmdKeys sample_cli [''-dir'', ''keys'', ''k''] 7 = (None, [println path], 7, None)"
    using k by (simp add: cmdKeys_def with_flags_def is_bool_flag_def flag_Set_def flag_update_def flag_string_def path_def)
  have f: "fs_join (sample_files 1) = ce_join sample_cli"
    "fs_stat (sample_files 1) path = Inr \<lparr>fi_mod_time = 1, fi_size = 3, fi_is_dir = (path = ''keys'')\<rparr>"
    "fs_read (sample_files 1) path = Inr ''new''"
    "ParsePrivateKey sample_pem ''new'' = Inr (RSAKey ''new'')"
    by (simp_all add: sample_files_def sample_cli_def sample_content_def ParsePrivateKey_def sample_pem_def)
  show ?thesis using keys_command_names_signer_file [OF k(1) _ f c] c by auto
qed

section \<open>A throttled delivery, from the payload to the next attempt\<close>

text \<open>
  C9: A throttling peer is obeyed end to end.  When the signed request of a valid payload reaches a
  peer that answers 408, 429 or a 5xx with a positive decimal Retry-After and a readable body,
  the execution of the job fails retryably, and the hook installed for every worker turns
  that very error into the delay asked for, at most an hour; the same holds for a webhook whose
  endpoint does not forbid retries.
\<close>
theorem throttled_job_waits:
  fixes resp :: response
  assumes "500 \<le> status_code resp \<or> status_code resp = 429 \<or> status_code resp = 408"
    and "header_get (resp_header resp) ''Retry-After'' = v" and "list_all is_digit v" and "0 < dec_val 0 v"
    and "body_err resp = None"
  shows "(delivery_request E unmarshal ex j = Inr (p, req, body) \<and>
      SignRequest (ee_lib E) date req body (pl_key_id p) (Some (answers (ax_signer ex))) = Inr req' \<and>
      client_do (ee_net E) (ax_client ex) req' body = (Inr resp, tried) \<longrightarrow>
      waits_as_asked v bc (fst (ap_Execute E date unmarshal ex j))) \<and>
    (new_post_request (ee_lib E) target = Inr req0 \<and>
      client_do (ee_net E) (sd_client snd') (dispatch_request E snd' body' secret extra j req0) body' = (Inr resp, tried') \<and>
      \<not> equal_fold (ee_lib E) (header_get (resp_header resp) HeaderRetry) ''no'' \<longrightarrow>
      waits_as_asked v bc (fst (send E snd' target body' secret extra j)))"
proof -
  have rb: "\<exists>k. fst (ReadBody resp n) = Inr k" for n using assms(5) by (simp add: ReadBody_def Let_def)
  have ap: "waits_as_asked v bc (fst (ap_settle L now inbox resp k))" for L now inbox k
    unfolding waits_as_asked_def by (rule ap_delivery.throttled_waits [OF _ assms(1-4)]) simp
  have http: "waits_as_asked v bc (fst (http_settle L now target resp k))"
    if "\<not> equal_fold L (header_get (resp_header resp) HeaderRetry) ''no''" for L now target k
    unfolding waits_as_asked_def by (rule http_delivery.throttled_waits [OF that assms(1-4)])
  obtain k1 where k1: "fst (ReadBody resp (ax_max_bytes ex)) = Inr k1" using rb by blast
  obtain k2 where k2: "fst (ReadBody resp (sd_max_bytes snd')) = Inr k2" using rb by blast
  show ?thesis
    using ap [of "ee_lib E" "ee_now E" "pl_inbox p" k1] http [of "ee_lib E" "ee_now E" target k2] k1 k2
    by (simp add: ap_Execute_def sign_delivery_def send_def split_beta)
qed

theorem throttled_job_waits_witness:
  "waits_as_asked ''86400'' \<lparr>bc_job_id = ''7'', bc_name = ''ping'', bc_attempts_made = 1, bc_err = None\<rparr>
     (fst (send (sample_env\<lparr>ee_net := (sample_net [''8.8.8.8:80''])\<lparr>n_exchange := (\<lambda>a req body. Inr sample_throttled)\<rparr>\<rparr>)
        (wx_snd sample_webhook) ''https://a'' ''null'' [] [] sample_job))"
proof -
  let ?E = "sample_env\<lparr>ee_net := (sample_net [''8.8.8.8:80''])\<lparr>n_exchange := (\<lambda>a req body. Inr sample_throttled)\<rparr>\<rparr>"
  have v: "header_get (resp_header sample_throttled) ''Retry-After'' = ''86400''"
    "header_get (resp_header sample_throttled) HeaderRetry = []" "\<not> equal_fold sample_lib [] ''no''" by code_simp+
  have d: "list_all is_digit ''86400''" "0 < dec_val 0 ''86400''" by (simp_all add: is_digit_def digit_val_def)
  obtain req0 where r: "new_post_request (ee_lib ?E) ''https://a'' = Inr req0"
    by (auto simp: new_post_request_def sample_env_def sample_lib_def Let_def)
  have pa: "n_parse_addr (ee_net ?E) = n_parse_addr (sample_net [''8.8.8.8:80''])" by simp
  have "client_do (ee_net ?E) (sd_client (wx_snd sample_webhook)) q b = (Inr sample_throttled, [''8.8.8.8:80''])" for q b
    using sample_check(2) [of "[''8.8.8.8:80'']"]
    by (simp add: client_do_def dial_control_def NewClient_def NewDialer_def sample_webhook_def newSender_def pa)
  then show ?thesis
    using throttled_job_waits [where resp = sample_throttled and E = ?E and target = "''https://a''" and req0 = req0
        and snd' = "wx_snd sample_webhook" and v = "''86400''", OF _ v(1) d] r v(2,3)
    by (simp add: sample_throttled_def sample_env_def)
qed

end
